(* ===== verification/Prelude.thy ===== *)
theory Prelude
  imports Main "HOL-Library.AList" "HOL-Library.Multiset" "HOL-Library.Char_ord"
    "HOL-Library.List_Lexorder" "HOL-Library.Word"
begin

text \<open>
  What every component shares: the error values of the Go code, the two-valued results
  \<open>(x, err)\<close> as a sum type, the loops that stop at the first error, and the lemmas
  on lists and association lists that the component proofs use.

  A Go map that the code only looks up and stores into is a HOL map
  \<open>string \<rightharpoonup> 'v\<close>. A Go map that the code ranges over is an association list
  with distinct keys: its order is the order in which one run of the program visits the
  keys, which Go leaves open, so the component theories show which results do not depend
  on it.
\<close>

section \<open>Errors and results\<close>

text \<open>
  \<open>Errorf msg args\<close> is \<open>errors.Errorf\<close> (or \<open>fmt.Errorf\<close>) with its format
  string and the strings that it interpolates; \<open>Wrapf\<close> is \<open>errors.Wrapf\<close>.
  \<open>External s\<close> is an error value that comes from code outside the model.
  \<open>Panic\<close> is a run-time panic (nil dereference, index out of range): the code never
  recovers from one, so it travels like an error.
\<close>

datatype go_error =
    Errorf string "string list"
  | Wrapf go_error string "string list"
  | External string
  | NotFound string
  | Panic string

type_synonym 'a result = "go_error + 'a"

abbreviation Ok :: "'a \<Rightarrow> 'a result" where
  "Ok x \<equiv> Inr x"

abbreviation Err :: "go_error \<Rightarrow> 'a result" where
  "Err e \<equiv> Inl e"

definition and_then :: "'e + 'a \<Rightarrow> ('a \<Rightarrow> 'e + 'b) \<Rightarrow> 'e + 'b" where
  "and_then m f = (case m of Inl e \<Rightarrow> Inl e | Inr x \<Rightarrow> f x)"

lemma and_then_simps [simp]:
  "and_then (Inl e) f = Inl e"
  "and_then (Inr x) f = f x"
  by (simp_all add: and_then_def)

lemma and_then_Inr_iff:
  "and_then m f = Inr y \<longleftrightarrow> (\<exists>x. m = Inr x \<and> f x = Inr y)"
  by (cases m) auto

lemma and_then_Inl_iff:
  "and_then m f = Inl e \<longleftrightarrow> m = Inl e \<or> (\<exists>x. m = Inr x \<and> f x = Inl e)"
  by (cases m) auto

lemma and_then_cong [fundef_cong]:
  "m = m' \<Longrightarrow> (\<And>x. m' = Inr x \<Longrightarrow> f x = g x) \<Longrightarrow> and_then m f = and_then m' g"
  by (cases m') auto

lemma and_then_assoc:
  "and_then (and_then m f) g = and_then m (\<lambda>x. and_then (f x) g)"
  by (cases m) auto

text \<open>A \<open>for _, x := range xs\<close> loop that appends one result per element and returns
  at the first error; and one that threads a state.\<close>

fun map_res :: "('a \<Rightarrow> 'e + 'b) \<Rightarrow> 'a list \<Rightarrow> 'e + 'b list" where
  "map_res f [] = Inr []"
| "map_res f (x # xs) = and_then (f x) (\<lambda>y. and_then (map_res f xs) (\<lambda>ys. Inr (y # ys)))"

fun fold_res :: "('s \<Rightarrow> 'a \<Rightarrow> 'e + 's) \<Rightarrow> 's \<Rightarrow> 'a list \<Rightarrow> 'e + 's" where
  "fold_res f s [] = Inr s"
| "fold_res f s (x # xs) = and_then (f s x) (\<lambda>s'. fold_res f s' xs)"

named_theorems res_simps \<open>equations that push a result through the error plumbing\<close>

declare and_then_Inr_iff [res_simps] and_then_Inl_iff [res_simps]

lemma map_res_cong [fundef_cong]:
  "xs = ys \<Longrightarrow> (\<And>x. x \<in> set ys \<Longrightarrow> f x = g x) \<Longrightarrow> map_res f xs = map_res g ys"
  by (induction ys arbitrary: xs) auto

lemma map_res_Inr_iff:
  "map_res f xs = Inr ys \<longleftrightarrow> list_all2 (\<lambda>x y. f x = Inr y) xs ys"
  by (induction xs arbitrary: ys) (auto simp: and_then_Inr_iff list_all2_Cons1)

lemma map_res_length: "map_res f xs = Inr ys \<Longrightarrow> length ys = length xs"
  by (auto simp: map_res_Inr_iff dest: list_all2_lengthD)

lemma map_res_total: "(\<And>x. x \<in> set xs \<Longrightarrow> f x = Inr (g x)) \<Longrightarrow> map_res f xs = Inr (map g xs)"
  by (induction xs) auto

lemma map_res_append:
  "map_res f (xs @ ys) =
     and_then (map_res f xs) (\<lambda>as. and_then (map_res f ys) (\<lambda>bs. Inr (as @ bs)))"
  by (induction xs) (auto simp: and_then_assoc and_then_def split: sum.splits)

text \<open>The first failing element decides the error.\<close>

lemma map_res_first_error:
  "map_res f xs = Inr ys \<Longrightarrow> f z = Inl e \<Longrightarrow> map_res f (xs @ z # zs) = Inl e"
  by (simp add: map_res_append)

lemma map_res_Inl_iff:
  "map_res f xs = Inl e \<longleftrightarrow>
     (\<exists>us z vs ys. xs = us @ z # vs \<and> map_res f us = Inr ys \<and> f z = Inl e)"
proof (induction xs)
  case Nil
  show ?case by simp
next
  case (Cons x xs)
  show ?case
  proof (cases "f x")
    case (Inl d)
    show ?thesis
    proof
      assume "map_res f (x # xs) = Inl e"
      with Inl have "x # xs = [] @ x # xs \<and> map_res f [] = Inr [] \<and> f x = Inl e" by simp
      then show "\<exists>us z vs ys. x # xs = us @ z # vs \<and> map_res f us = Inr ys \<and> f z = Inl e" by blast
    next
      assume "\<exists>us z vs ys. x # xs = us @ z # vs \<and> map_res f us = Inr ys \<and> f z = Inl e"
      then obtain us z vs ys where
        "x # xs = us @ z # vs" "map_res f us = Inr ys" "f z = Inl e" by blast
      with Inl show "map_res f (x # xs) = Inl e" by (cases us) auto
    qed
  next
    case (Inr y)
    have "map_res f (x # xs) = Inl e \<longleftrightarrow> map_res f xs = Inl e"
      using Inr by (auto simp: and_then_Inl_iff)
    also have "\<dots> \<longleftrightarrow> (\<exists>us z vs ys. x # xs = us @ z # vs \<and> map_res f us = Inr ys \<and> f z = Inl e)"
    proof
      assume "map_res f xs = Inl e"
      then obtain us z vs ys where
        "xs = us @ z # vs" "map_res f us = Inr ys" "f z = Inl e" using Cons.IH by blast
      with Inr have "x # xs = (x # us) @ z # vs \<and> map_res f (x # us) = Inr (y # ys) \<and> f z = Inl e"
        by simp
      then show "\<exists>us z vs ys. x # xs = us @ z # vs \<and> map_res f us = Inr ys \<and> f z = Inl e" by blast
    next
      assume "\<exists>us z vs ys. x # xs = us @ z # vs \<and> map_res f us = Inr ys \<and> f z = Inl e"
      then obtain us z vs ys where
        split: "x # xs = us @ z # vs" "map_res f us = Inr ys" "f z = Inl e" by blast
      with Inr obtain us' where "us = x # us'" by (cases us) auto
      with split Inr have "xs = us' @ z # vs" "\<exists>ys'. map_res f us' = Inr ys'" "f z = Inl e"
        by (auto simp: and_then_Inr_iff)
      then show "map_res f xs = Inl e" using Cons.IH by blast
    qed
    finally show ?thesis .
  qed
qed

lemma fold_res_append:
  "fold_res f s (xs @ ys) = and_then (fold_res f s xs) (\<lambda>s'. fold_res f s' ys)"
  by (induction xs arbitrary: s) (auto simp: and_then_assoc)

text \<open>An invariant of the loop body is an invariant of the loop.\<close>

lemma fold_res_invariant:
  assumes "\<And>s x s'. P s \<Longrightarrow> x \<in> set xs \<Longrightarrow> f s x = Inr s' \<Longrightarrow> P s'"
    and "P s" and "fold_res f s xs = Inr t"
  shows "P t"
  using assms
proof (induction xs arbitrary: s)
  case Nil
  then show ?case by simp
next
  case (Cons x xs)
  from Cons.prems(3) obtain s' where s': "f s x = Inr s'" "fold_res f s' xs = Inr t"
    by (auto simp: and_then_Inr_iff)
  have "P s'" using Cons.prems(1)[of s x s'] Cons.prems(2) s'(1) by simp
  with s'(2) show ?case using Cons.IH[of s'] Cons.prems(1) by (meson list.set_intros(2))
qed

section \<open>Effects\<close>

text \<open>
  A call with an effect on the outside world \<open>'w\<close> that may fail. The world is kept on an
  error: what has happened has happened.
\<close>

type_synonym ('a, 'w) io = "'w \<Rightarrow> 'a result \<times> 'w"

definition io_ok :: "'a \<Rightarrow> ('a, 'w) io" where
  "io_ok x = (\<lambda>w. (Ok x, w))"

definition io_err :: "go_error \<Rightarrow> ('a, 'w) io" where
  "io_err e = (\<lambda>w. (Err e, w))"

definition io_lift :: "'a result \<Rightarrow> ('a, 'w) io" where
  "io_lift r = (\<lambda>w. (r, w))"

definition io_bind :: "('a, 'w) io \<Rightarrow> ('a \<Rightarrow> ('b, 'w) io) \<Rightarrow> ('b, 'w) io" where
  "io_bind m f = (\<lambda>w. case m w of (Inl e, w) \<Rightarrow> (Err e, w) | (Inr x, w) \<Rightarrow> f x w)"

text \<open>A Go function that returns an error and nothing else.\<close>

definition io_act :: "('w \<Rightarrow> go_error option \<times> 'w) \<Rightarrow> (unit, 'w) io" where
  "io_act a = (\<lambda>w. case a w of (Some e, w) \<Rightarrow> (Err e, w) | (None, w) \<Rightarrow> (Ok (), w))"

text \<open>A call that cannot fail.\<close>

definition io_get :: "('w \<Rightarrow> 'a \<times> 'w) \<Rightarrow> ('a, 'w) io" where
  "io_get f = (\<lambda>w. case f w of (x, w) \<Rightarrow> (Ok x, w))"

fun io_map :: "('a \<Rightarrow> ('b, 'w) io) \<Rightarrow> 'a list \<Rightarrow> ('b list, 'w) io" where
  "io_map f [] = io_ok []"
| "io_map f (x # xs) = io_bind (f x) (\<lambda>y. io_bind (io_map f xs) (\<lambda>ys. io_ok (y # ys)))"

named_theorems io_simps \<open>when a call with an effect succeeds\<close>

lemma io_ok_iff [io_simps]: "io_ok x w = (Ok y, w') \<longleftrightarrow> y = x \<and> w' = w"
  by (auto simp: io_ok_def)

lemma io_err_iff [io_simps]: "io_err e w = (Ok y, w') \<longleftrightarrow> False"
  by (auto simp: io_err_def)

lemma io_lift_iff [io_simps]: "io_lift r w = (Ok y, w') \<longleftrightarrow> r = Ok y \<and> w' = w"
  by (auto simp: io_lift_def)

lemma io_bind_iff [io_simps]:
  "io_bind m f w = (Ok y, w') \<longleftrightarrow> (\<exists>x w1. m w = (Ok x, w1) \<and> f x w1 = (Ok y, w'))"
  by (cases "m w"; cases "fst (m w)") (auto simp: io_bind_def)

lemma io_act_iff [io_simps]: "io_act a w = (Ok u, w') \<longleftrightarrow> a w = (None, w')"
  by (cases "a w"; cases "fst (a w)") (auto simp: io_act_def)

lemma io_get_iff [io_simps]: "io_get f w = (Ok y, w') \<longleftrightarrow> f w = (y, w')"
  by (cases "f w") (auto simp: io_get_def)

lemma if_io_iff [io_simps]:
  "(if b then m else m') w = (Ok y, w') \<longleftrightarrow> (if b then m w = (Ok y, w') else m' w = (Ok y, w'))"
  by simp

lemma io_bind_step:
  "m w = (Ok x, w1) \<Longrightarrow> io_bind m f w = f x w1"
  "m w = (Err e, w1) \<Longrightarrow> io_bind m f w = (Err e, w1)"
  by (simp_all add: io_bind_def)

lemma io_bind_E:
  assumes "io_bind m f w = (Ok y, w')"
  obtains x w1 where "m w = (Ok x, w1)" "f x w1 = (Ok y, w')"
  using assms by (auto simp: io_bind_iff)

text \<open>Calls that leave a part \<open>f\<close> of the world alone.\<close>

definition io_keeps :: "('w \<Rightarrow> 'v) \<Rightarrow> ('a, 'w) io \<Rightarrow> bool" where
  "io_keeps f m \<longleftrightarrow> (\<forall>w. f (snd (m w)) = f w)"

named_theorems io_keeps_intros \<open>calls that leave a part of the world alone\<close>

lemma io_keepsD: "io_keeps f m \<Longrightarrow> m w = (x, w') \<Longrightarrow> f w' = f w"
  by (metis io_keeps_def snd_conv)

lemma io_keeps_basic [io_keeps_intros]:
  "io_keeps f (io_ok x)" "io_keeps f (io_err e)" "io_keeps f (io_lift r)"
  by (simp_all add: io_keeps_def io_ok_def io_err_def io_lift_def)

lemma io_keeps_act [io_keeps_intros]: "(\<And>w. f (snd (a w)) = f w) \<Longrightarrow> io_keeps f (io_act a)"
  unfolding io_keeps_def io_act_def by (metis (no_types, lifting) case_prod_unfold option.case_eq_if snd_conv)

lemma io_keeps_get [io_keeps_intros]: "(\<And>w. f (snd (g w)) = f w) \<Longrightarrow> io_keeps f (io_get g)"
  by (simp add: io_keeps_def io_get_def split_beta)

lemma io_keeps_bind [io_keeps_intros]:
  assumes "io_keeps f m" and "\<And>x. io_keeps f (g x)"
  shows "io_keeps f (io_bind m g)"
  unfolding io_keeps_def
proof
  fix w
  obtain r w1 where m: "m w = (r, w1)" by fastforce
  then have "f w1 = f w" using assms(1) by (rule io_keepsD[rotated])
  then show "f (snd (io_bind m g w)) = f w"
    using assms(2) by (cases r) (auto simp: io_bind_step m io_keeps_def)
qed

lemma io_keeps_if [io_keeps_intros]: "(b \<Longrightarrow> io_keeps f m) \<Longrightarrow> (\<not> b \<Longrightarrow> io_keeps f m') \<Longrightarrow> io_keeps f (if b then m else m')"
  by simp

lemma io_keeps_sum [io_keeps_intros]:
  "(\<And>e. io_keeps f (g e)) \<Longrightarrow> (\<And>x. io_keeps f (h x)) \<Longrightarrow> io_keeps f (case r of Inl e \<Rightarrow> g e | Inr x \<Rightarrow> h x)"
  by (cases r) simp_all

lemma io_keeps_pair [io_keeps_intros]: "(\<And>a b. io_keeps f (g a b)) \<Longrightarrow> io_keeps f (case p of (a, b) \<Rightarrow> g a b)"
  by (cases p) simp

lemma io_keeps_map [io_keeps_intros]: "(\<And>x. io_keeps f (g x)) \<Longrightarrow> io_keeps f (io_map g xs)"
  by (induction xs) (auto intro!: io_keeps_intros)

section \<open>Association lists\<close>

text \<open>\<open>m[k]\<close> on a Go map of strings is the zero value \<open>""\<close> when the key is
  missing.\<close>

definition lookup_str :: "(string \<rightharpoonup> string) \<Rightarrow> string \<Rightarrow> string" where
  "lookup_str m k = (case m k of None \<Rightarrow> [] | Some v \<Rightarrow> v)"

lemma lookup_str_simps [simp]:
  "lookup_str (m(k \<mapsto> v)) k = v"
  "k \<noteq> k' \<Longrightarrow> lookup_str (m(k \<mapsto> v)) k' = lookup_str m k'"
  "lookup_str Map.empty k = []"
  by (simp_all add: lookup_str_def)

lemma map_of_perm:
  assumes "distinct (map fst xs)" and "mset xs = mset ys"
  shows "map_of xs = map_of ys"
proof -
  have "mset (map fst xs) = mset (map fst ys)"
    using assms(2) by (metis mset_map)
  then have "distinct (map fst ys)"
    using assms(1) by (metis mset_eq_imp_distinct_iff)
  moreover have "set xs = set ys"
    using assms(2) by (rule mset_eq_setD)
  ultimately show ?thesis
    using assms(1) by (metis map_of_inject_set)
qed

section \<open>Lists\<close>

lemma distinct_filter_length1:
  "distinct xs \<Longrightarrow> x \<in> set xs \<Longrightarrow> length (filter (\<lambda>y. y \<noteq> x) xs) = length xs - 1"
proof (induction xs)
  case Nil
  then show ?case by simp
next
  case (Cons z zs)
  show ?case
  proof (cases "z = x")
    case True
    with Cons.prems have "filter (\<lambda>y. y \<noteq> x) zs = zs" by (auto simp: filter_id_conv)
    with True show ?thesis by simp
  next
    case False
    with Cons have "length (filter (\<lambda>y. y \<noteq> x) zs) = length zs - 1" "zs \<noteq> []" by auto
    with False show ?thesis by (cases zs) auto
  qed
qed

end
