(* ===== verification/GoStrings.thy ===== *)
theory GoStrings
  imports Prelude
begin

text \<open>
  The part of Go's \<open>strings\<close>, \<open>strconv\<close> and \<open>net\<close> packages that the program
  calls. A Go string is a sequence of bytes, modelled as \<open>string\<close> (one \<open>char\<close> per
  byte). Case mapping and white space are those of the ASCII bytes: Go also maps the
  letters and spaces of the rest of Unicode, which here stay as they are.
\<close>

section \<open>Package strings\<close>

definition has_prefix :: "string \<Rightarrow> string \<Rightarrow> bool" where
  "has_prefix s pfx \<longleftrightarrow> take (length pfx) s = pfx"

text \<open>\<open>strings.Split\<close> with a separator of one byte.\<close>

fun split_on :: "char \<Rightarrow> string \<Rightarrow> string list" where
  "split_on c [] = [[]]"
| "split_on c (x # xs) =
     (if x = c then [] # split_on c xs
      else (case split_on c xs of [] \<Rightarrow> [[x]] | y # ys \<Rightarrow> (x # y) # ys))"

text \<open>\<open>s[:i]\<close> and \<open>s[i+1:]\<close> for \<open>i = strings.IndexByte(s, c)\<close>.\<close>

definition before :: "char \<Rightarrow> string \<Rightarrow> string" where
  "before c s = takeWhile (\<lambda>x. x \<noteq> c) s"

definition after :: "char \<Rightarrow> string \<Rightarrow> string" where
  "after c s = tl (dropWhile (\<lambda>x. x \<noteq> c) s)"

text \<open>\<open>strings.SplitN(s, sep, 2)\<close>: at most one cut, at the first separator.\<close>

definition splitn2 :: "char \<Rightarrow> string \<Rightarrow> string list" where
  "splitn2 c s =
     (if c \<in> set s then [before c s, after c s] else [s])"

fun join_with :: "string \<Rightarrow> string list \<Rightarrow> string" where
  "join_with sep [] = []"
| "join_with sep [x] = x"
| "join_with sep (x # y # ys) = x @ sep @ join_with sep (y # ys)"

definition lower_char :: "char \<Rightarrow> char" where
  "lower_char c =
     (let n = (of_char c :: nat) in if 65 \<le> n \<and> n \<le> 90 then char_of (n + 32) else c)"

definition to_lower :: "string \<Rightarrow> string" where
  "to_lower s = map lower_char s"

definition is_space :: "char \<Rightarrow> bool" where
  "is_space c \<longleftrightarrow> (let n = (of_char c :: nat) in n = 32 \<or> (9 \<le> n \<and> n \<le> 13))"

text \<open>\<open>strings.Trim\<close> (and \<open>TrimSpace\<close>): both ends.\<close>

definition trim_by :: "(char \<Rightarrow> bool) \<Rightarrow> string \<Rightarrow> string" where
  "trim_by p s = rev (dropWhile p (rev (dropWhile p s)))"

abbreviation trim_space :: "string \<Rightarrow> string" where
  "trim_space \<equiv> trim_by is_space"

text \<open>\<open>strings.Contains(s, sub)\<close>.\<close>

fun contains_str :: "string \<Rightarrow> string \<Rightarrow> bool" where
  "contains_str [] sub = (sub = [])"
| "contains_str (x # xs) sub = (has_prefix (x # xs) sub \<or> contains_str xs sub)"

lemma before_append [simp]: "c \<notin> set p \<Longrightarrow> before c (p @ t) = p @ before c t"
  by (induction p) (auto simp: before_def)

lemma after_append [simp]: "c \<notin> set p \<Longrightarrow> after c (p @ t) = after c t"
  by (induction p) (auto simp: after_def)

lemma before_after_Cons [simp]:
  "before c (c # t) = []"
  "after c (c # t) = t"
  "x \<noteq> c \<Longrightarrow> before c (x # t) = x # before c t"
  "x \<noteq> c \<Longrightarrow> after c (x # t) = after c t"
  by (simp_all add: before_def after_def)

lemma before_after_split: "c \<in> set s \<Longrightarrow> s = before c s @ c # after c s"
  by (induction s) (auto simp: before_def after_def)

lemma length_after: "c \<in> set s \<Longrightarrow> length (after c s) < length s"
  by (induction s) (auto simp: before_def after_def less_Suc_eq)

lemma sep_notin_before [simp]: "c \<notin> set (before c s)"
  by (auto simp: before_def dest: set_takeWhileD)

lemma before_no_sep [simp]: "c \<notin> set s \<Longrightarrow> before c s = s"
  by (induction s) (auto simp: before_def)

lemma has_prefix_append [simp]: "has_prefix (p @ s) p"
  by (simp add: has_prefix_def)

lemma has_prefix_Nil [simp]: "has_prefix s []"
  by (simp add: has_prefix_def)

lemma has_prefix_iff: "has_prefix s p \<longleftrightarrow> (\<exists>t. s = p @ t)"
  unfolding has_prefix_def by (metis append_eq_conv_conj append_take_drop_id)

lemma contains_str_iff: "contains_str s sub \<longleftrightarrow> (\<exists>a b. s = a @ sub @ b)"
proof (induction s)
  case Nil
  show ?case by simp
next
  case (Cons x xs)
  have "(\<exists>a b. x # xs = a @ sub @ b) \<longleftrightarrow> (\<exists>b. x # xs = sub @ b) \<or> (\<exists>a b. xs = a @ sub @ b)"
    by (metis append_Cons append_Nil list.inject neq_Nil_conv)
  then show ?case using Cons.IH by (simp add: has_prefix_iff)
qed

lemma contains_char_iff: "contains_str s [c] \<longleftrightarrow> c \<in> set s"
  by (auto simp: contains_str_iff in_set_conv_decomp)

lemma split_on_not_Nil [simp]: "split_on c s \<noteq> []"
  by (induction s) (auto split: list.splits)

lemma split_on_no_sep: "c \<notin> set s \<Longrightarrow> split_on c s = [s]"
  by (induction s) auto

lemma split_on_append: "c \<notin> set s \<Longrightarrow> split_on c (s @ c # t) = s # split_on c t"
  by (induction s) auto

lemma split_on_parts_no_sep: "p \<in> set (split_on c s) \<Longrightarrow> c \<notin> set p"
  by (induction s arbitrary: p) (auto split: list.splits if_splits)

lemma set_split_on: "p \<in> set (split_on c s) \<Longrightarrow> x \<in> set p \<Longrightarrow> x \<in> set s"
proof (induction s arbitrary: p)
  case Nil
  then show ?case by simp
next
  case (Cons y s)
  show ?case
  proof (cases "y = c")
    case True
    with Cons show ?thesis by auto
  next
    case False
    obtain q qs where q: "split_on c s = q # qs" by (cases "split_on c s") auto
    with False Cons.prems have "p = y # q \<or> p \<in> set qs" by simp
    then show ?thesis using Cons.IH[of q] Cons.IH[of p] Cons.prems(2) q by auto
  qed
qed

lemma join_split_on: "join_with [c] (split_on c s) = s"
proof (induction s)
  case Nil
  show ?case by simp
next
  case (Cons x xs)
  show ?case
  proof (cases "split_on c xs")
    case Nil
    then show ?thesis by simp
  next
    case (Cons y ys)
    then show ?thesis using Cons.IH by (cases ys) auto
  qed
qed

lemma split_on_join:
  "xs \<noteq> [] \<Longrightarrow> (\<And>x. x \<in> set xs \<Longrightarrow> c \<notin> set x) \<Longrightarrow> split_on c (join_with [c] xs) = xs"
proof (induction xs)
  case Nil
  then show ?case by simp
next
  case (Cons x xs)
  then show ?case by (cases xs) (auto simp: split_on_no_sep split_on_append)
qed

lemma length_split_on: "length (split_on c s) = Suc (count_list s c)"
  by (induction s) (auto split: list.splits)

lemma splitn2_cut: "c \<notin> set k \<Longrightarrow> splitn2 c (k @ c # v) = [k, v]"
  by (simp add: splitn2_def)

lemma splitn2_no_sep: "c \<notin> set s \<Longrightarrow> splitn2 c s = [s]"
  by (simp add: splitn2_def)

lemma splitn2_cases:
  obtains (one) "splitn2 c s = [s]" "c \<notin> set s"
    | (two) k v where "splitn2 c s = [k, v]" "s = k @ c # v" "c \<notin> set k"
proof (cases "c \<in> set s")
  case True
  then obtain k v where "s = k @ c # v" "c \<notin> set k" by (meson split_list_first)
  then show thesis using two splitn2_cut by blast
next
  case False
  then show thesis using one splitn2_no_sep by blast
qed

lemma to_lower_simps [simp]:
  "to_lower [] = []"
  "to_lower (a @ b) = to_lower a @ to_lower b"
  "length (to_lower s) = length s"
  by (simp_all add: to_lower_def)

lemma lower_char_idem [simp]: "lower_char (lower_char c) = lower_char c"
  by (simp add: lower_char_def Let_def)

lemma to_lower_idem [simp]: "to_lower (to_lower s) = to_lower s"
  by (simp add: to_lower_def)

lemma dropWhile_hd_false: "s = [] \<or> \<not> p (hd s) \<Longrightarrow> dropWhile p s = s"
  by (cases s) auto

lemma trim_by_id: "s = [] \<or> \<not> p (hd s) \<and> \<not> p (last s) \<Longrightarrow> trim_by p s = s"
  by (auto simp: trim_by_def dropWhile_hd_false hd_rev)

lemma dropWhile_all: "(\<And>x. x \<in> set s \<Longrightarrow> p x) \<Longrightarrow> dropWhile p s = []"
  by simp

lemma trim_by_append_all:
  assumes t: "\<And>x. x \<in> set t \<Longrightarrow> p x"
  shows "trim_by p (s @ t) = trim_by p s"
proof (cases "\<forall>x \<in> set s. p x")
  case True
  then have "dropWhile p s = []" "dropWhile p (s @ t) = []" using t by auto
  then show ?thesis by (simp only: trim_by_def)
next
  case False
  then have "dropWhile p (s @ t) = dropWhile p s @ t" by (induction s) auto
  moreover have "dropWhile p (rev t @ rev (dropWhile p s)) = dropWhile p (rev (dropWhile p s))"
    using t by (intro dropWhile_append2) auto
  ultimately show ?thesis by (simp add: trim_by_def)
qed

section \<open>Package strconv\<close>

text \<open>\<open>strconv.ParseBool\<close>. The error is \<open>ErrSyntax\<close>.\<close>

definition parse_bool :: "string \<Rightarrow> bool result" where
  "parse_bool s =
     (if s \<in> set [''1'', ''t'', ''T'', ''TRUE'', ''true'', ''True''] then Ok True
      else if s \<in> set [''0'', ''f'', ''F'', ''FALSE'', ''false'', ''False''] then Ok False
      else Err (Errorf ''strconv.ParseBool: parsing %q: invalid syntax'' [s]))"

text \<open>\<open>b, _ := strconv.ParseBool(s)\<close>: the value is false when there is an error.\<close>

definition parse_bool_or_false :: "string \<Rightarrow> bool" where
  "parse_bool_or_false s = (case parse_bool s of Inl _ \<Rightarrow> False | Inr b \<Rightarrow> b)"

definition format_bool :: "bool \<Rightarrow> string" where
  "format_bool b = (if b then ''true'' else ''false'')"

lemma parse_format_bool [simp]: "parse_bool (format_bool b) = Ok b"
  by (cases b) (simp_all add: parse_bool_def format_bool_def)

definition digit_char :: "nat \<Rightarrow> char" where
  "digit_char d = char_of (48 + d)"

definition digit_value :: "char \<Rightarrow> nat option" where
  "digit_value c = (let n = (of_char c :: nat) in if 48 \<le> n \<and> n \<le> 57 then Some (n - 48) else None)"

fun nat_digits :: "nat \<Rightarrow> string" where
  "nat_digits n = (if n < 10 then [digit_char n] else nat_digits (n div 10) @ [digit_char (n mod 10)])"

declare nat_digits.simps [simp del]

text \<open>\<open>strconv.Itoa\<close>.\<close>

definition itoa :: "int \<Rightarrow> string" where
  "itoa i = (if i < 0 then CHR ''-'' # nat_digits (nat (- i)) else nat_digits (nat i))"

fun digits_value :: "nat \<Rightarrow> string \<Rightarrow> nat option" where
  "digits_value acc [] = Some acc"
| "digits_value acc (c # cs) =
     (case digit_value c of None \<Rightarrow> None | Some d \<Rightarrow> digits_value (10 * acc + d) cs)"

text \<open>\<open>strconv.Atoi\<close> on a 64-bit machine: an optional sign, at least one decimal
  digit, and a value that fits in an \<open>int64\<close>.\<close>

definition atoi :: "string \<Rightarrow> int result" where
  "atoi s =
     (let (neg, ds) = (case s of
          [] \<Rightarrow> (False, [])
        | c # cs \<Rightarrow> if c = CHR ''-'' then (True, cs) else if c = CHR ''+'' then (False, cs) else (False, s))
      in case (if ds = [] then None else digits_value 0 ds) of
           None \<Rightarrow> Err (Errorf ''strconv.Atoi: parsing %q: invalid syntax'' [s])
         | Some n \<Rightarrow>
             let i = (if neg then - int n else int n)
             in if - (2 ^ 63) \<le> i \<and> i < 2 ^ 63 then Ok i
                else Err (Errorf ''strconv.Atoi: parsing %q: value out of range'' [s]))"

lemma digit_value_digit_char [simp]: "d < 10 \<Longrightarrow> digit_value (digit_char d) = Some d"
  by (simp add: digit_value_def digit_char_def Let_def)

lemma digits_value_append:
  "digits_value acc (xs @ ys) =
     (case digits_value acc xs of None \<Rightarrow> None | Some n \<Rightarrow> digits_value n ys)"
  by (induction xs arbitrary: acc) (auto split: option.splits)

lemma nat_digits_not_Nil [simp]: "nat_digits n \<noteq> []"
  by (subst nat_digits.simps) simp

lemma digits_value_nat_digits: "digits_value 0 (nat_digits n) = Some n"
proof (induction n rule: nat_digits.induct)
  case (1 n)
  show ?case
  proof (cases "n < 10")
    case True
    then show ?thesis by (simp add: nat_digits.simps[of n])
  next
    case False
    with 1 show ?thesis by (simp add: nat_digits.simps[of n] digits_value_append)
  qed
qed

lemma hd_nat_digits: "hd (nat_digits n) \<in> digit_char ` {0..9}"
proof (induction n rule: nat_digits.induct)
  case (1 n)
  then show ?case by (subst nat_digits.simps) auto
qed

lemma hd_nat_digits_no_sign: "hd (nat_digits n) \<noteq> CHR ''-'' \<and> hd (nat_digits n) \<noteq> CHR ''+''"
proof -
  obtain d where d: "hd (nat_digits n) = digit_char d" "d \<le> 9"
    using hd_nat_digits[of n] by auto
  then have "digit_value (hd (nat_digits n)) = Some d" by simp
  moreover have "digit_value CHR ''-'' = None" "digit_value CHR ''+'' = None"
    by (simp_all add: digit_value_def)
  ultimately show ?thesis by auto
qed

text \<open>Printing and parsing an \<open>int\<close> is a round trip on the \<open>int64\<close> range.\<close>

lemma atoi_itoa: "- (2 ^ 63) \<le> i \<Longrightarrow> i < 2 ^ 63 \<Longrightarrow> atoi (itoa i) = Ok i"
proof (cases "i < 0")
  case True
  assume "- (2 ^ 63) \<le> i" "i < 2 ^ 63"
  with True show ?thesis by (simp add: atoi_def itoa_def digits_value_nat_digits Let_def)
next
  case False
  assume "- (2 ^ 63) \<le> i" "i < 2 ^ 63"
  moreover obtain c cs where cs: "nat_digits (nat i) = c # cs"
    by (cases "nat_digits (nat i)") auto
  moreover have "c \<noteq> CHR ''-''" "c \<noteq> CHR ''+''"
    using hd_nat_digits_no_sign[of "nat i"] cs by simp_all
  moreover have "digits_value 0 (c # cs) = Some (nat i)"
    using digits_value_nat_digits[of "nat i"] cs by simp
  ultimately show ?thesis using False by (simp add: atoi_def itoa_def Let_def del: digits_value.simps)
qed

section \<open>Package net\<close>

text \<open>
  \<open>net.ParseIP\<close> on a string without a colon: a dotted quad of decimal numbers up to
  255, with no leading zeros (Go 1.17 and later). A string with a colon can only be an
  IPv6 address, which no caller of the program passes (they have split at the colons).
\<close>

definition parse_octet :: "string \<Rightarrow> nat option" where
  "parse_octet s =
     (if s = [] \<or> length s > 3 \<or> (length s > 1 \<and> hd s = CHR ''0'') then None
      else (case digits_value 0 s of None \<Rightarrow> None | Some n \<Rightarrow> if n \<le> 255 then Some n else None))"

definition parse_ipv4 :: "string \<Rightarrow> nat list option" where
  "parse_ipv4 s =
     (let os = map parse_octet (split_on CHR ''.'' s)
      in if length os = 4 \<and> None \<notin> set os then Some (map the os) else None)"

lemma parse_octet_bound: "parse_octet s = Some n \<Longrightarrow> n \<le> 255"
  by (auto simp: parse_octet_def split: if_splits option.splits)

lemma parse_ipv4_bounds:
  assumes "parse_ipv4 s = Some os"
  shows "length os = 4 \<and> (\<forall>n \<in> set os. n \<le> 255)"
proof -
  let ?os = "map parse_octet (split_on CHR ''.'' s)"
  from assms have os: "length ?os = 4" "None \<notin> set ?os" "os = map the ?os"
    by (simp_all add: parse_ipv4_def Let_def split: if_splits)
  have "n \<le> 255" if n: "n \<in> set os" for n
  proof -
    from n os(3) obtain x where x: "x \<in> set (split_on CHR ''.'' s)" "n = the (parse_octet x)" by auto
    with os(2) have "parse_octet x \<noteq> None" by (metis image_eqI set_map)
    with x(2) show ?thesis using parse_octet_bound by auto
  qed
  with os show ?thesis by simp
qed

end
