(* ===== verification/GoEncoding.thy ===== *)
theory GoEncoding
  imports GoStrings
begin

text \<open>
  The two decoders of Go's standard library that the program feeds with user input:
  \<open>csv.Reader.Read\<close> of \<open>encoding/csv\<close> with its default settings (comma, strict
  quotes, no comments, no trimming), which the flag parsers call once per flag value, and
  \<open>base64.StdEncoding\<close>, which the registry credentials go through.
\<close>

abbreviation LF :: char where "LF \<equiv> CHR 0x0A"
abbreviation CR :: char where "CR \<equiv> CHR 0x0D"
abbreviation DQ :: char where "DQ \<equiv> CHR 0x22"
abbreviation COMMA :: char where "COMMA \<equiv> CHR 0x2C"
abbreviation EQ :: char where "EQ \<equiv> CHR 0x3D"

section \<open>csv.Reader.Read\<close>

text \<open>
  \<open>readLine\<close>: the next line with its newline, and the input after it; \<open>None\<close> is
  \<open>io.EOF\<close>. \<open>"\r\n"\<close> becomes \<open>"\n"\<close>, and a \<open>"\r"\<close> before the end of the
  input is dropped.
\<close>

definition csv_read_line :: "string \<Rightarrow> (string \<times> string) option" where
  "csv_read_line s =
     (if s = [] then None
      else
        let raw = before LF s;
            body = (if raw \<noteq> [] \<and> last raw = CR then butlast raw else raw)
        in if LF \<in> set s then Some (body @ [LF], after LF s) else Some (body, []))"

definition length_nl :: "string \<Rightarrow> nat" where
  "length_nl line = (if line \<noteq> [] \<and> last line = LF then 1 else 0)"

lemma csv_read_line_shorter:
  assumes "csv_read_line s = Some (l, r)"
  shows "length l + length r \<le> length s \<and> length r < length s"
proof (cases "LF \<in> set s")
  case True
  then have "length s = length (before LF s) + Suc (length (after LF s))"
    using arg_cong[OF before_after_split[OF True], of length] by simp
  with assms True show ?thesis by (auto simp: csv_read_line_def Let_def split: if_splits)
next
  case False
  with assms show ?thesis by (auto simp: csv_read_line_def Let_def split: if_splits)
qed

text \<open>Empty lines are skipped.\<close>

function csv_first_line :: "string \<Rightarrow> (string \<times> string) option" where
  "csv_first_line s =
     (case csv_read_line s of
        None \<Rightarrow> None
      | Some (l, r) \<Rightarrow> if length l = length_nl l then csv_first_line r else Some (l, r))"
  by pat_completeness auto
termination
  by (relation "measure length") (auto dest: csv_read_line_shorter)

declare csv_first_line.simps [simp del]

text \<open>
  The two nested loops of \<open>readRecord\<close>. \<open>csv_field line rest acc\<close> starts a field
  (\<open>rest\<close> is the input after the current line, \<open>acc\<close> the fields so far);
  \<open>csv_quoted line rest buf acc\<close> is inside a quoted field.
\<close>

definition csv_bare_quote :: go_error where
  "csv_bare_quote = Errorf ''bare quote in non-quoted field'' []"

definition csv_quote_error :: go_error where
  "csv_quote_error = Errorf ''extraneous or missing quote in quoted-field'' []"

definition csv_eof :: go_error where
  "csv_eof = Errorf ''EOF'' []"

function csv_field :: "string \<Rightarrow> string \<Rightarrow> string list \<Rightarrow> string list result"
  and csv_quoted :: "string \<Rightarrow> string \<Rightarrow> string \<Rightarrow> string list \<Rightarrow> string list result" where
  "csv_field line rest acc =
     (if line = [] \<or> hd line \<noteq> DQ then
        (if COMMA \<in> set line then
           let field = before COMMA line in
           if DQ \<in> set field then Err csv_bare_quote
           else csv_field (after COMMA line) rest (acc @ [field])
         else
           let field = take (length line - length_nl line) line in
           if DQ \<in> set field then Err csv_bare_quote else Ok (acc @ [field]))
      else csv_quoted (tl line) rest [] acc)"
| "csv_quoted line rest buf acc =
     (if DQ \<in> set line then
        let buf' = buf @ before DQ line;
            line' = after DQ line
        in (if line' \<noteq> [] \<and> hd line' = DQ then csv_quoted (tl line') rest (buf' @ [DQ]) acc
            else if line' \<noteq> [] \<and> hd line' = COMMA then csv_field (tl line') rest (acc @ [buf'])
            else if length_nl line' = length line' then Ok (acc @ [buf'])
            else Err csv_quote_error)
      else if line \<noteq> [] then
        (case csv_read_line rest of
           None \<Rightarrow> csv_quoted [] [] (buf @ line) acc
         | Some (l, r) \<Rightarrow> csv_quoted l r (buf @ line) acc)
      else Err csv_quote_error)"
  by pat_completeness auto
termination
proof (relation "measure (\<lambda>x. case x of
     Inl (line, rest, acc) \<Rightarrow> length line + length rest
   | Inr (line, rest, buf, acc) \<Rightarrow> length line + length rest)", goal_cases)
  case 1
  then show ?case by simp
next
  case (2 line rest acc x)
  then show ?case by (simp add: length_after)
next
  case (3 line rest acc)
  then show ?case by (cases line) simp_all
next
  case (4 line rest buf acc x xa)
  then show ?case using length_after[of DQ line] by simp
next
  case (5 line rest buf acc x xa)
  then show ?case using length_after[of DQ line] by simp
next
  case (6 line rest buf acc)
  then show ?case by simp
next
  case (7 line rest buf acc a x y)
  then show ?case using csv_read_line_shorter[of rest x y] by (cases line) auto
qed

declare csv_field.simps [simp del] csv_quoted.simps [simp del]

text \<open>\<open>csv.NewReader(strings.NewReader(s)).Read()\<close>.\<close>

definition csv_read :: "string \<Rightarrow> string list result" where
  "csv_read s =
     (case csv_first_line s of
        None \<Rightarrow> Err csv_eof
      | Some (line, rest) \<Rightarrow> csv_field line rest [])"

subsection \<open>Plain values\<close>

text \<open>Without quotes and line ends a record is its text cut at the commas.\<close>

definition csv_plain :: "string \<Rightarrow> bool" where
  "csv_plain s \<longleftrightarrow> LF \<notin> set s \<and> CR \<notin> set s \<and> DQ \<notin> set s"

lemma csv_plain_append [simp]: "csv_plain (s @ t) \<longleftrightarrow> csv_plain s \<and> csv_plain t"
  by (auto simp: csv_plain_def)

lemma csv_plain_Nil [simp]: "csv_plain []"
  by (simp add: csv_plain_def)

lemma csv_plain_Cons [simp]:
  "csv_plain (c # s) \<longleftrightarrow> c \<noteq> LF \<and> c \<noteq> CR \<and> c \<noteq> DQ \<and> csv_plain s"
  by (auto simp: csv_plain_def)

lemma csv_first_line_plain:
  assumes "LF \<notin> set s" "CR \<notin> set s" "s \<noteq> []"
  shows "csv_first_line s = Some (s, [])"
proof -
  have "last s \<noteq> CR" "last s \<noteq> LF" using assms last_in_set by metis+
  then have "csv_read_line s = Some (s, [])" "length_nl s = 0"
    using assms by (simp_all add: csv_read_line_def length_nl_def Let_def)
  with assms(3) show ?thesis by (simp add: csv_first_line.simps)
qed

lemma csv_field_plain:
  assumes "csv_plain s"
  shows "csv_field s rest acc = Ok (acc @ split_on COMMA s)"
  using assms
proof (induction "length s" arbitrary: s acc rule: less_induct)
  case less
  have hd: "s = [] \<or> hd s \<noteq> DQ" using less.prems by (cases s) auto
  show ?case
  proof (cases "COMMA \<in> set s")
    case True
    let ?f = "before COMMA s" and ?t = "after COMMA s"
    have s: "s = ?f @ COMMA # ?t" using True by (rule before_after_split)
    have plain: "csv_plain ?t" "DQ \<notin> set ?f"
      using less.prems arg_cong[OF s, of csv_plain] by (auto simp: csv_plain_def)
    have "csv_field ?t rest (acc @ [?f]) = Ok ((acc @ [?f]) @ split_on COMMA ?t)"
      using less.hyps[OF length_after[OF True] plain(1)] .
    moreover have "csv_field s rest acc = csv_field ?t rest (acc @ [?f])"
      using hd True plain(2) by (simp add: csv_field.simps[of s])
    moreover have "split_on COMMA s = ?f # split_on COMMA ?t"
      using split_on_append[of COMMA ?f ?t] s by simp
    ultimately show ?thesis by simp
  next
    case False
    have "length_nl s = 0" using less.prems by (auto simp: length_nl_def csv_plain_def dest: last_in_set)
    with False hd less.prems show ?thesis
      by (simp add: csv_field.simps[of s] split_on_no_sep csv_plain_def)
  qed
qed

lemma csv_read_plain:
  "csv_plain s \<Longrightarrow> s \<noteq> [] \<Longrightarrow> csv_read s = Ok (split_on COMMA s)"
  by (simp add: csv_read_def csv_first_line_plain csv_plain_def csv_field_plain)

lemma csv_read_Nil: "csv_read [] = Err csv_eof"
  by (simp add: csv_read_def csv_first_line.simps csv_read_line_def)

subsection \<open>Quoted values\<close>

text \<open>RFC 4180 quoting, the way a user protects a field that has commas or quotes.\<close>

fun csv_escape :: "string \<Rightarrow> string" where
  "csv_escape [] = []"
| "csv_escape (c # cs) = (if c = DQ then DQ # DQ # csv_escape cs else c # csv_escape cs)"

definition csv_quote :: "string \<Rightarrow> string" where
  "csv_quote f = DQ # csv_escape f @ [DQ]"

definition csv_encode :: "string list \<Rightarrow> string" where
  "csv_encode fs = join_with [COMMA] (map csv_quote fs)"

lemma set_csv_escape: "c \<in> set (csv_escape f) \<Longrightarrow> c \<in> set f"
  by (induction f) (auto split: if_splits)

text \<open>Reading an escaped field up to its closing quote.\<close>

lemma csv_quoted_no_dq_prefix:
  assumes "DQ \<notin> set p" and "DQ \<in> set t"
  shows "csv_quoted (p @ t) rest buf acc = csv_quoted t rest (buf @ p) acc"
  using assms by (simp add: csv_quoted.simps[of "p @ t"] csv_quoted.simps[of t] Let_def)

lemma csv_quoted_escape:
  "csv_quoted (csv_escape f @ DQ # t) rest buf acc = csv_quoted (DQ # t) rest (buf @ f) acc"
proof (induction f arbitrary: buf)
  case Nil
  show ?case by simp
next
  case (Cons c cs)
  show ?case
  proof (cases "c = DQ")
    case True
    have "csv_quoted (csv_escape (c # cs) @ DQ # t) rest buf acc =
        csv_quoted (csv_escape cs @ DQ # t) rest (buf @ [DQ]) acc"
      using True by (subst csv_quoted.simps) (simp add: Let_def)
    then show ?thesis using Cons.IH[of "buf @ [DQ]"] True by simp
  next
    case False
    have "csv_quoted ([c] @ csv_escape cs @ DQ # t) rest buf acc =
        csv_quoted (csv_escape cs @ DQ # t) rest (buf @ [c]) acc"
      using False by (intro csv_quoted_no_dq_prefix) auto
    then show ?thesis using Cons.IH[of "buf @ [c]"] False by simp
  qed
qed

lemma csv_field_quote_last: "csv_field (csv_quote f) rest acc = Ok (acc @ [f])"
  unfolding csv_quote_def
  by (simp add: csv_field.simps csv_quoted_escape)
    (simp add: csv_quoted.simps length_nl_def)

lemma csv_field_quote_comma:
  "csv_field (csv_quote f @ COMMA # t) rest acc = csv_field t rest (acc @ [f])"
  unfolding csv_quote_def
  by (simp add: csv_field.simps[of "DQ # _"] csv_quoted_escape)
    (simp add: csv_quoted.simps)

lemma csv_field_encode:
  "fs \<noteq> [] \<Longrightarrow> csv_field (csv_encode fs) rest acc = Ok (acc @ fs)"
  unfolding csv_encode_def
proof (induction fs arbitrary: acc)
  case Nil
  then show ?case by simp
next
  case (Cons f fs)
  show ?case
  proof (cases fs)
    case Nil
    then show ?thesis by (simp add: csv_field_quote_last)
  next
    case (Cons g gs)
    then show ?thesis using Cons.IH[of "acc @ [f]"] by (simp add: csv_field_quote_comma)
  qed
qed

lemma set_csv_encode:
  "c \<in> set (csv_encode fs) \<Longrightarrow> c = DQ \<or> c = COMMA \<or> (\<exists>f \<in> set fs. c \<in> set f)"
  unfolding csv_encode_def
proof (induction fs)
  case (Cons f fs)
  then show ?case
    by (cases fs) (auto simp: csv_quote_def dest: set_csv_escape)
qed simp

text \<open>Quoting and reading a record is a round trip, for fields without line ends.\<close>

lemma csv_read_encode:
  assumes "fs \<noteq> []" and "\<And>f. f \<in> set fs \<Longrightarrow> LF \<notin> set f \<and> CR \<notin> set f"
  shows "csv_read (csv_encode fs) = Ok fs"
proof -
  have "LF \<notin> set (csv_encode fs)" "CR \<notin> set (csv_encode fs)"
    using assms(2) set_csv_encode by fastforce+
  moreover have "csv_encode fs \<noteq> []"
    using assms(1) by (cases fs; cases "tl fs") (auto simp: csv_encode_def csv_quote_def)
  ultimately show ?thesis
    using assms(1) by (simp add: csv_read_def csv_first_line_plain csv_field_encode)
qed

section \<open>base64.StdEncoding\<close>

text \<open>
  \<open>Decode\<close> skips carriage returns and newlines wherever they stand and otherwise wants
  full groups of four symbols, the last one padded. It does not look at the unused low bits
  of a padded group.
\<close>

definition b64_alphabet :: string where
  "b64_alphabet = ''ABCDEFGHIJKLMNOPQRSTUVWXYZabcdefghijklmnopqrstuvwxyz0123456789+/''"

definition b64_value :: "char \<Rightarrow> nat option" where
  "b64_value c =
     (let n = (of_char c :: nat) in
      if 65 \<le> n \<and> n \<le> 90 then Some (n - 65)
      else if 97 \<le> n \<and> n \<le> 122 then Some (n - 71)
      else if 48 \<le> n \<and> n \<le> 57 then Some (n + 4)
      else if n = 43 then Some 62
      else if n = 47 then Some 63
      else None)"

definition b64_char :: "nat \<Rightarrow> char" where
  "b64_char v =
     (if v < 26 then char_of (v + 65)
      else if v < 52 then char_of (v + 71)
      else if v < 62 then char_of (v - 4)
      else if v = 62 then CHR ''+'' else CHR ''/'')"

definition b64_error :: go_error where
  "b64_error = Errorf ''illegal base64 data'' []"

definition byte :: "nat \<Rightarrow> char" where
  "byte n = char_of (n mod 256)"

fun b64_groups :: "string \<Rightarrow> string result" where
  "b64_groups [] = Ok []"
| "b64_groups (a # b # c # d # rest) =
     (case (b64_value a, b64_value b) of
        (Some va, Some vb) \<Rightarrow>
          (if c = EQ then
             (if d = EQ \<and> rest = [] then Ok [byte (va * 4 + vb div 16)] else Err b64_error)
           else (case b64_value c of
             None \<Rightarrow> Err b64_error
           | Some vc \<Rightarrow>
               (if d = EQ then
                  (if rest = [] then Ok [byte (va * 4 + vb div 16), byte (vb * 16 + vc div 4)]
                   else Err b64_error)
                else (case b64_value d of
                  None \<Rightarrow> Err b64_error
                | Some vd \<Rightarrow>
                    and_then (b64_groups rest) (\<lambda>bs.
                      Ok (byte (va * 4 + vb div 16) # byte (vb * 16 + vc div 4)
                          # byte (vc * 64 + vd) # bs))))))
      | _ \<Rightarrow> Err b64_error)"
| "b64_groups _ = Err b64_error"

definition b64_decode :: "string \<Rightarrow> string result" where
  "b64_decode s = b64_groups (filter (\<lambda>c. c \<noteq> CR \<and> c \<noteq> LF) s)"

definition b64_decoded_len :: "nat \<Rightarrow> nat" where
  "b64_decoded_len n = n div 4 * 3"

text \<open>The encoder, for the round trip.\<close>

fun b64_encode :: "string \<Rightarrow> string" where
  "b64_encode [] = []"
| "b64_encode [x] =
     (let a = of_char x in [b64_char (a div 4), b64_char (a mod 4 * 16), EQ, EQ])"
| "b64_encode [x, y] =
     (let a = of_char x; b = of_char y in
      [b64_char (a div 4), b64_char (a mod 4 * 16 + b div 16), b64_char (b mod 16 * 4), EQ])"
| "b64_encode (x # y # z # rest) =
     (let a = of_char x; b = of_char y; c = of_char z in
      [b64_char (a div 4), b64_char (a mod 4 * 16 + b div 16), b64_char (b mod 16 * 4 + c div 64),
       b64_char (c mod 64)] @ b64_encode rest)"

lemma b64_value_char [simp]: "v < 64 \<Longrightarrow> b64_value (b64_char v) = Some v"
  by (auto simp: b64_value_def b64_char_def Let_def)

lemma b64_char_not_special [simp]:
  "v < 64 \<Longrightarrow> b64_char v \<noteq> EQ"
  "v < 64 \<Longrightarrow> b64_char v \<noteq> CR"
  "v < 64 \<Longrightarrow> b64_char v \<noteq> LF"
proof -
  assume v: "v < 64"
  have none: "b64_value EQ = None" "b64_value CR = None" "b64_value LF = None"
    by (simp_all add: b64_value_def)
  show "b64_char v \<noteq> EQ" "b64_char v \<noteq> CR" "b64_char v \<noteq> LF"
    using none b64_value_char[OF v] by (metis option.distinct(1))+
qed

lemma of_char_256 [simp]: "(of_char c :: nat) < 256"
  by simp

lemma byte_of_char [simp]: "byte (of_char c) = c"
  by (simp add: byte_def)

text \<open>Cutting three bytes into four six-bit values and putting them together again.\<close>

lemma sextets_byte1: "m < (256::nat) \<Longrightarrow> n div 4 * 4 + (n mod 4 * 16 + m div 16) div 16 = n"
proof -
  assume "m < 256"
  then have "(n mod 4 * 16 + m div 16) div 16 = n mod 4" by simp
  then show ?thesis by simp
qed

lemma sextets_join:
  "(q * 16 + n div 16) * 16 + n mod 16 = q * 256 + (n::nat)"
  "(q * 4 + n div 64) * 64 + n mod 64 = q * 256 + (n::nat)"
proof -
  have "(q * 16 + n div 16) * 16 + n mod 16 = q * 256 + (n div 16 * 16 + n mod 16)"
    by (simp add: add_mult_distrib)
  then show "(q * 16 + n div 16) * 16 + n mod 16 = q * 256 + n" by (simp only: div_mult_mod_eq)
  have "(q * 4 + n div 64) * 64 + n mod 64 = q * 256 + (n div 64 * 64 + n mod 64)"
    by (simp add: add_mult_distrib)
  then show "(q * 4 + n div 64) * 64 + n mod 64 = q * 256 + n" by (simp only: div_mult_mod_eq)
qed

lemma sextets_byte2:
  "m < (256::nat) \<Longrightarrow>
     (q * 16 + n div 16) * 16 + (n mod 16 * 4 + m div 64) div 4 = q * 256 + n"
proof -
  assume "m < 256"
  then have "(n mod 16 * 4 + m div 64) div 4 = n mod 16" by simp
  then show ?thesis by (simp only: sextets_join)
qed

lemma byte_add_256 [simp]: "byte (q * 256 + n) = byte n" "byte (n + 256 * q) = byte n"
  by (simp_all add: byte_def)

lemma sextet_bounds:
  "n < (256::nat) \<Longrightarrow> n div 4 < 64"
  "m < (256::nat) \<Longrightarrow> n mod 4 * 16 + m div 16 < 64"
  "m < (256::nat) \<Longrightarrow> n mod 16 * 4 + m div 64 < 64"
  "n mod 64 < (64::nat)"
  "n mod 4 * 16 < (64::nat)"
  "n mod 16 * 4 < (64::nat)"
proof -
  show "n div 4 < 64" if "n < 256" using that by linarith
  have "n mod 4 < 4" by simp
  then show "n mod 4 * 16 + m div 16 < 64" if "m < 256" using that by linarith
  show "n mod 4 * 16 < (64::nat)" using \<open>n mod 4 < 4\<close> by linarith
  have "n mod 16 < 16" by simp
  then show "n mod 16 * 4 + m div 64 < 64" if "m < 256" using that by linarith
  show "n mod 16 * 4 < (64::nat)" using \<open>n mod 16 < 16\<close> by linarith
  show "n mod 64 < 64" by simp
qed

lemma b64_encode_clean: "c \<in> set (b64_encode s) \<Longrightarrow> c \<noteq> CR \<and> c \<noteq> LF"
  by (induction s rule: b64_encode.induct) (auto simp: Let_def sextet_bounds)

lemma b64_groups_encode: "b64_groups (b64_encode s) = Ok s"
proof (induction s rule: b64_encode.induct)
  case 1
  show ?case by simp
next
  case (2 x)
  show ?case
    using sextets_byte1[of 0 "of_char x"] by (simp add: Let_def sextet_bounds)
next
  case (3 x y)
  show ?case
    using sextets_byte1[of "of_char y" "of_char x"]
      sextets_byte2[of 0 "of_char x mod 4" "of_char y"]
    by (simp add: Let_def sextet_bounds)
next
  case (4 x y z rest)
  then show ?case
    using sextets_byte1[of "of_char y" "of_char x"]
      sextets_byte2[of "of_char z" "of_char x mod 4" "of_char y"]
      sextets_join(2)[of "of_char y mod 16" "of_char z"]
    by (simp add: Let_def sextet_bounds)
qed

lemma b64_decode_encode: "b64_decode (b64_encode s) = Ok s"
proof -
  have "filter (\<lambda>c. c \<noteq> CR \<and> c \<noteq> LF) (b64_encode s) = b64_encode s"
    using b64_encode_clean by (auto simp: filter_id_conv)
  then show ?thesis by (simp add: b64_decode_def b64_groups_encode)
qed

end
