(* ===== verification/Loops.thy ===== *)
theory Loops
  imports Prelude
begin

text \<open>
  The retry loops of the program, \<open>for { ... }\<close> until a return: the body is a function of
  the state (the locals and the outside world) that either goes round again or returns. A
  loop that never returns is \<open>None\<close>, so that returning is something to prove.
\<close>

datatype 'a step = Again | Return 'a

partial_function (option) loop :: "('s \<Rightarrow> 'a step \<times> 's) \<Rightarrow> 's \<Rightarrow> ('a \<times> 's) option" where
  "loop body s =
     (case body s of
        (Return x, s') \<Rightarrow> Some (x, s')
      | (Again, s') \<Rightarrow> loop body s')"

lemma loop_Return: "body s = (Return x, s') \<Longrightarrow> loop body s = Some (x, s')"
  by (subst loop.simps) simp

lemma loop_Again: "body s = (Again, s') \<Longrightarrow> loop body s = loop body s'"
  by (subst loop.simps) simp

text \<open>A loop returns when every round that goes on makes a measure smaller.\<close>

lemma loop_returns:
  assumes "\<And>s s'. I s \<Longrightarrow> body s = (Again, s') \<Longrightarrow> I s' \<and> m s' < (m s :: nat)"
    and "I s"
  shows "\<exists>x s'. loop body s = Some (x, s')"
  using assms(2)
proof (induction s rule: measure_induct_rule[of m])
  case (less s)
  obtain r s' where r: "body s = (r, s')" by fastforce
  show ?case
  proof (cases r)
    case Again
    with r have "body s = (Again, s')" by simp
    with less assms(1)[of s s'] show ?thesis by (auto simp: loop_Again)
  next
    case (Return x)
    with r show ?thesis by (simp add: loop_Return)
  qed
qed

text \<open>The last round of a loop that returned, with an invariant of the rounds before.\<close>

lemma loop_last_round:
  fixes body :: "'s \<Rightarrow> 'a step \<times> 's"
  assumes "loop body s = Some r"
  shows "(\<forall>s s'. I s \<longrightarrow> body s = (Again, s') \<longrightarrow> I s') \<longrightarrow> I s \<longrightarrow>
    (\<exists>s'. I s' \<and> body s' = (Return (fst r), snd r))"
proof (rule loop.raw_induct[OF _ assms])
  fix rec :: "('s \<Rightarrow> 'a step \<times> 's) \<Rightarrow> 's \<Rightarrow> ('a \<times> 's) option" and b and s :: 's and r
  assume IH: "\<And>b s r. rec b s = Some r \<Longrightarrow>
      (\<forall>s s'. I s \<longrightarrow> b s = (Again, s') \<longrightarrow> I s') \<longrightarrow> I s \<longrightarrow>
      (\<exists>s'. I s' \<and> b s' = (Return (fst r), snd r))"
    and step: "(case b s of (Again, s') \<Rightarrow> rec b s' | (Return x, s') \<Rightarrow> Some (x, s')) = Some r"
  show "(\<forall>s s'. I s \<longrightarrow> b s = (Again, s') \<longrightarrow> I s') \<longrightarrow> I s \<longrightarrow>
      (\<exists>s'. I s' \<and> b s' = (Return (fst r), snd r))"
  proof (intro impI)
    assume I: "\<forall>s s'. I s \<longrightarrow> b s = (Again, s') \<longrightarrow> I s'" "I s"
    obtain q s' where q: "b s = (q, s')" by fastforce
    show "\<exists>s'. I s' \<and> b s' = (Return (fst r), snd r)"
    proof (cases q)
      case Again
      with step q have "rec b s' = Some r" by simp
      then show ?thesis using IH I q Again by blast
    next
      case (Return y)
      with step q I show ?thesis by auto
    qed
  qed
qed

lemma loop_last:
  assumes "loop body s = Some (x, t)"
    and "I s" and "\<And>s s'. I s \<Longrightarrow> body s = (Again, s') \<Longrightarrow> I s'"
  obtains s' where "I s'" and "body s' = (Return x, t)"
  using loop_last_round[OF assms(1), of I] assms(2,3) that by auto

end
