(* ===== verification/Progress.thy ===== *)
theory Progress
  imports Loops GoStrings
begin

text \<open>
  Progress reports: \<open>pkg/progress\<close>. A report is a \<open>SolveStatus\<close>; a logger and a
  channel send are functions that change the outside world, whose type \<open>'w\<close> is left
  open; what the code asks of the operating system (the clock, fresh identities, sleeping,
  the state of its context) is the record \<open>sys\<close>. Times are whole nanoseconds.
\<close>

section \<open>Reports\<close>

record vertex =
  v_digest :: string
  v_name :: string
  v_started :: "int option"
  v_completed :: "int option"
  v_error :: string

record vertex_status =
  vs_vertex :: string
  vs_id :: string
  vs_timestamp :: int
  vs_started :: "int option"
  vs_completed :: "int option"

record vertex_log =
  vl_vertex :: string
  vl_stream :: int
  vl_data :: string
  vl_timestamp :: int

record solve_status =
  ss_vertexes :: "vertex list"
  ss_statuses :: "vertex_status list"
  ss_logs :: "vertex_log list"

definition vertex_report :: "vertex \<Rightarrow> solve_status" where
  "vertex_report v = \<lparr>ss_vertexes = [v], ss_statuses = [], ss_logs = []\<rparr>"

definition status_report :: "vertex_status \<Rightarrow> solve_status" where
  "status_report s = \<lparr>ss_vertexes = [], ss_statuses = [s], ss_logs = []\<rparr>"

definition log_report :: "vertex_log \<Rightarrow> solve_status" where
  "log_report l = \<lparr>ss_vertexes = [], ss_statuses = [], ss_logs = [l]\<rparr>"

text \<open>
  \<open>sys_id\<close> is \<open>digest.FromBytes(identity.NewID())\<close>, \<open>sys_draw\<close> is \<open>rand.Int\<close>
  below its argument, \<open>sys_text\<close> renders an error, \<open>sys_done\<close> is whether the context is
  done.
\<close>

record 'w sys =
  sys_now :: "'w \<Rightarrow> int \<times> 'w"
  sys_id :: "'w \<Rightarrow> string \<times> 'w"
  sys_draw :: "nat \<Rightarrow> 'w \<Rightarrow> nat result \<times> 'w"
  sys_sleep :: "nat \<Rightarrow> 'w \<Rightarrow> 'w"
  sys_done :: "'w \<Rightarrow> bool"
  sys_text :: "go_error \<Rightarrow> string"

type_synonym 'w logger = "solve_status \<Rightarrow> 'w \<Rightarrow> 'w"

text \<open>What a Go function that returns one error gives: \<open>None\<close> is nil.\<close>

type_synonym 'w action = "'w \<Rightarrow> go_error option \<times> 'w"

definition error_message :: "'w sys \<Rightarrow> go_error option \<Rightarrow> string" where
  "error_message sys err = (case err of None \<Rightarrow> [] | Some e \<Rightarrow> sys_text sys e)"

section \<open>Reporting on one step (progress.go, writer.go, fromreader.go)\<close>

record sub_logger =
  sl_digest :: string

definition sub_Wrap :: "'w sys \<Rightarrow> 'w logger \<Rightarrow> sub_logger \<Rightarrow> string \<Rightarrow> 'w action \<Rightarrow> 'w action" where
  "sub_Wrap sys l sl name fn w =
     (let (tm, w) = sys_now sys w;
          (ts, w) = sys_now sys w;
          st = \<lparr>vs_vertex = sl_digest sl, vs_id = name, vs_timestamp = ts, vs_started = Some tm,
                vs_completed = None\<rparr>;
          w = l (status_report st) w;
          (err, w) = fn w;
          (tm2, w) = sys_now sys w;
          (ts2, w) = sys_now sys w;
          w = l (status_report (st\<lparr>vs_timestamp := ts2, vs_completed := Some tm2\<rparr>)) w
      in (err, w))"

definition sub_Log :: "'w sys \<Rightarrow> 'w logger \<Rightarrow> sub_logger \<Rightarrow> int \<Rightarrow> string \<Rightarrow> 'w \<Rightarrow> 'w" where
  "sub_Log sys l sl stream dt w =
     (let (ts, w) = sys_now sys w in
      l (log_report \<lparr>vl_vertex = sl_digest sl, vl_stream = stream, vl_data = dt, vl_timestamp = ts\<rparr>) w)"

definition Wrap :: "'w sys \<Rightarrow> string \<Rightarrow> 'w logger \<Rightarrow> (sub_logger \<Rightarrow> 'w action) \<Rightarrow> 'w action" where
  "Wrap sys name l fn w =
     (let (dgst, w) = sys_id sys w;
          (tm, w) = sys_now sys w;
          v = \<lparr>v_digest = dgst, v_name = name, v_started = Some tm, v_completed = None, v_error = []\<rparr>;
          w = l (vertex_report v) w;
          (err, w) = fn \<lparr>sl_digest = dgst\<rparr> w;
          (tm2, w) = sys_now sys w;
          w = l (vertex_report (v\<lparr>v_completed := Some tm2, v_error := error_message sys err\<rparr>)) w
      in (err, w))"

text \<open>\<open>Write\<close> sends to a channel and drops the error; \<open>FromReader\<close> is \<open>Write\<close> over
  copying a reader, and closes the channel.\<close>

definition Write :: "'w sys \<Rightarrow> 'w logger \<Rightarrow> string \<Rightarrow> 'w action \<Rightarrow> 'w \<Rightarrow> 'w" where
  "Write sys send name f w =
     (let (dgst, w) = sys_id sys w;
          (tm, w) = sys_now sys w;
          v = \<lparr>v_digest = dgst, v_name = name, v_started = Some tm, v_completed = None, v_error = []\<rparr>;
          w = send (vertex_report v) w;
          (err, w) = f w;
          (tm2, w) = sys_now sys w
      in send (vertex_report (v\<lparr>v_completed := Some tm2, v_error := error_message sys err\<rparr>)) w)"

definition FromReader :: "'w sys \<Rightarrow> 'w logger \<Rightarrow> ('w \<Rightarrow> 'w) \<Rightarrow> string \<Rightarrow> 'w action \<Rightarrow> 'w \<Rightarrow> 'w" where
  "FromReader sys send close name copy w = close (Write sys send name copy w)"

section \<open>Prefixes (multiwriter.go)\<close>

definition addPrefix :: "string \<Rightarrow> string \<Rightarrow> string" where
  "addPrefix pfx name =
     (if has_prefix name ''['' then ''['' @ pfx @ '' '' @ tl name
      else ''['' @ pfx @ ''] '' @ name)"

definition forward :: "string \<Rightarrow> bool \<Rightarrow> solve_status \<Rightarrow> solve_status" where
  "forward pfx force v =
     (if force then v\<lparr>ss_vertexes := map (\<lambda>v. v\<lparr>v_name := addPrefix pfx (v_name v)\<rparr>) (ss_vertexes v)\<rparr> else v)"

section \<open>Moving the clock (reset.go)\<close>

text \<open>The difference is set once, by the last started vertex of the first report that has
  one.\<close>

definition first_diff :: "int \<Rightarrow> int option \<Rightarrow> solve_status \<Rightarrow> int option" where
  "first_diff tm diff st =
     (case diff of
        Some d \<Rightarrow> Some d
      | None \<Rightarrow> fold (\<lambda>v d. case v_started v of Some t \<Rightarrow> Some (t - tm) | None \<Rightarrow> d) (ss_vertexes st) None)"

definition shift_status :: "int \<Rightarrow> solve_status \<Rightarrow> solve_status" where
  "shift_status d st =
     \<lparr>ss_vertexes = map (\<lambda>v. v\<lparr>v_started := map_option (\<lambda>t. t - d) (v_started v),
                              v_completed := map_option (\<lambda>t. t - d) (v_completed v)\<rparr>) (ss_vertexes st),
      ss_statuses = map (\<lambda>v. v\<lparr>vs_started := map_option (\<lambda>t. t - d) (vs_started v),
                              vs_completed := map_option (\<lambda>t. t - d) (vs_completed v),
                              vs_timestamp := vs_timestamp v - d\<rparr>) (ss_statuses st),
      ss_logs = map (\<lambda>v. v\<lparr>vl_timestamp := vl_timestamp v - d\<rparr>) (ss_logs st)\<rparr>"

fun reset_stream :: "int \<Rightarrow> int option \<Rightarrow> solve_status list \<Rightarrow> solve_status list" where
  "reset_stream tm diff [] = []"
| "reset_stream tm diff (st # sts) =
     (let diff = first_diff tm diff st;
          st = (case diff of Some d \<Rightarrow> shift_status d st | None \<Rightarrow> st)
      in st # reset_stream tm diff sts)"

text \<open>What a reader of the wrapped writer sees when the build sends \<open>sts\<close>.\<close>

definition ResetTime :: "int \<Rightarrow> solve_status list \<Rightarrow> solve_status list" where
  "ResetTime tm sts = reset_stream tm None sts"

section \<open>The printer (printer.go)\<close>

text \<open>The display mode, and whether a console is opened, as \<open>NewPrinter\<close> decides them from
  the environment and from what \<open>console.ConsoleFromFile\<close> says of the file.\<close>

definition printer_mode :: "string \<Rightarrow> string \<Rightarrow> string" where
  "printer_mode env mode = (if env \<noteq> [] \<and> mode = ''auto'' then env else mode)"

definition printer_console :: "string \<Rightarrow> string \<Rightarrow> bool \<Rightarrow> bool" where
  "printer_console env mode is_console =
     (let mode = printer_mode env mode in is_console \<and> (mode = ''auto'' \<or> mode = ''tty''))"

section \<open>Lemmas\<close>

lemma addPrefix_inj: "addPrefix pfx a = addPrefix pfx b \<Longrightarrow> a = b"
  by (auto simp: addPrefix_def has_prefix_iff split: if_splits)

lemma addPrefix_marked: "has_prefix (addPrefix pfx name) (''['' @ pfx)"
  by (simp add: addPrefix_def has_prefix_def)

definition unstarted :: "solve_status \<Rightarrow> bool" where
  "unstarted st \<longleftrightarrow> list_all (\<lambda>v. v_started v = None) (ss_vertexes st)"

lemma first_diff_unstarted: "unstarted st \<Longrightarrow> first_diff tm diff st = diff"
proof -
  have "list_all (\<lambda>v. v_started v = None) vs \<Longrightarrow>
      fold (\<lambda>v d. case v_started v of Some t \<Rightarrow> Some (t - tm) | None \<Rightarrow> d) vs d = d" for vs d
    by (induction vs arbitrary: d) auto
  then show "unstarted st \<Longrightarrow> ?thesis" by (auto simp: first_diff_def unstarted_def split: option.splits)
qed

lemma first_diff_started:
  assumes "\<not> unstarted st"
  shows "\<exists>v \<in> set (ss_vertexes st). \<exists>d. first_diff tm None st = Some d \<and> v_started v = Some (tm + d)"
proof -
  have "\<exists>v \<in> set vs. v_started v \<noteq> None \<Longrightarrow>
      \<exists>v \<in> set vs. \<exists>d. fold (\<lambda>v d. case v_started v of Some t \<Rightarrow> Some (t - tm) | None \<Rightarrow> d) vs acc = Some d \<and>
        v_started v = Some (tm + d)" for vs :: "vertex list" and acc
  proof (induction vs rule: rev_induct)
    case (snoc v vs)
    then show ?case by (cases "v_started v") auto
  qed simp
  then show ?thesis using assms by (auto simp: first_diff_def unstarted_def list_all_iff)
qed

lemma reset_stream_Some: "reset_stream tm (Some d) sts = map (shift_status d) sts"
  by (induction sts) (auto simp: first_diff_def Let_def)

section \<open>Properties\<close>

text \<open>
  A wrapped writer moves all times by one amount: reports before the first started vertex
  are unchanged, and from there on every time is shifted by the same difference, which puts a
  started vertex of that report at the time of the wrapping. So the order and the durations of
  all steps are kept.
\<close>

theorem ResetTime_shift:
  "(list_all unstarted sts \<and> ResetTime tm sts = sts) \<or>
   (\<exists>pre st post d v. sts = pre @ st # post \<and> list_all unstarted pre \<and>
      v \<in> set (ss_vertexes st) \<and> v_started v = Some (tm + d) \<and>
      ResetTime tm sts = pre @ map (shift_status d) (st # post))"
proof (induction sts)
  case Nil
  then show ?case by (simp add: ResetTime_def)
next
  case (Cons s sts)
  show ?case
  proof (cases "unstarted s")
    case True
    then have eq: "ResetTime tm (s # sts) = s # ResetTime tm sts"
      by (simp add: ResetTime_def first_diff_unstarted Let_def)
    from Cons.IH show ?thesis
    proof (elim disjE exE conjE)
      fix pre st post d v
      assume "sts = pre @ st # post" "list_all unstarted pre" "v \<in> set (ss_vertexes st)"
        "v_started v = Some (tm + d)" "ResetTime tm sts = pre @ map (shift_status d) (st # post)"
      with True eq show ?thesis
        by (intro disjI2 exI[of _ "s # pre"] exI[of _ st] exI[of _ post] exI[of _ d] exI[of _ v]) simp
    qed (use True eq in simp)
  next
    case False
    from first_diff_started[OF this, of tm] obtain v d where v: "v \<in> set (ss_vertexes s)"
      "first_diff tm None s = Some d" "v_started v = Some (tm + d)" by auto
    then have "ResetTime tm (s # sts) = map (shift_status d) (s # sts)"
      by (simp add: ResetTime_def Let_def reset_stream_Some)
    then show ?thesis using v
      by (intro disjI2 exI[of _ "[]"] exI[of _ s] exI[of _ sts] exI[of _ d] exI[of _ v]) simp
  qed
qed

text \<open>
  Every step that is wrapped is reported as one vertex, started before anything the step
  reports and completed after it, under the same digest and with the text of the step's error;
  the error itself is passed on.
\<close>

theorem Wrap_reports:
  assumes "\<And>st w. heard (l st w) = heard w @ [st]"
    and "\<And>w. heard (snd (sys_now sys w)) = heard w" and "\<And>w. heard (snd (sys_id sys w)) = heard w"
    and "\<And>sl w. \<exists>mid. heard (snd (fn sl w)) = heard w @ mid"
  shows "\<exists>d tm tm2 mid. heard (snd (Wrap sys name l fn w)) = heard w
      @ [vertex_report \<lparr>v_digest = d, v_name = name, v_started = Some tm, v_completed = None, v_error = []\<rparr>]
      @ mid
      @ [vertex_report \<lparr>v_digest = d, v_name = name, v_started = Some tm, v_completed = Some tm2,
           v_error = error_message sys (fst (Wrap sys name l fn w))\<rparr>]"
proof -
  obtain d w1 where 1: "sys_id sys w = (d, w1)" by fastforce
  obtain tm w2 where 2: "sys_now sys w1 = (tm, w2)" by fastforce
  let ?v = "\<lparr>v_digest = d, v_name = name, v_started = Some tm, v_completed = None, v_error = []\<rparr>"
  let ?w3 = "l (vertex_report ?v) w2"
  obtain err w4 where 4: "fn \<lparr>sl_digest = d\<rparr> ?w3 = (err, w4)" by fastforce
  obtain tm2 w5 where 5: "sys_now sys w4 = (tm2, w5)" by fastforce
  obtain mid where mid: "heard w4 = heard ?w3 @ mid" using assms(4)[of "\<lparr>sl_digest = d\<rparr>" ?w3] 4 by auto
  have "heard w1 = heard w" "heard w2 = heard w1" "heard w5 = heard w4"
    using assms(2)[of w1] assms(2)[of w4] assms(3)[of w] 1 2 5 by simp_all
  then show ?thesis using mid
    by (intro exI[of _ d] exI[of _ tm] exI[of _ tm2] exI[of _ mid])
      (simp add: Wrap_def 1 2 4 5 assms(1))
qed

text \<open>A world that records what it hears, with a clock that ticks when it is read.\<close>

definition recording_sys :: "(solve_status list \<times> int) sys" where
  "recording_sys =
     \<lparr>sys_now = (\<lambda>(log, t). (t, log, t + 1)), sys_id = (\<lambda>w. (''id'', w)),
      sys_draw = (\<lambda>n w. (Ok 0, w)), sys_sleep = (\<lambda>n w. w), sys_done = (\<lambda>w. False),
      sys_text = (\<lambda>e. ''failed'')\<rparr>"

definition recording_logger :: "(solve_status list \<times> int) logger" where
  "recording_logger st w = (fst w @ [st], snd w)"

theorem Wrap_reports_example:
  "\<exists>d tm tm2 mid. fst (snd (Wrap recording_sys ''boot'' recording_logger (\<lambda>sl w. (Some (External ''x''), w)) ([], 3))) =
      [vertex_report \<lparr>v_digest = d, v_name = ''boot'', v_started = Some tm, v_completed = None, v_error = []\<rparr>]
      @ mid
      @ [vertex_report \<lparr>v_digest = d, v_name = ''boot'', v_started = Some tm, v_completed = Some tm2,
           v_error = ''failed''\<rparr>]"
proof -
  let ?fn = "\<lambda>sl w. (Some (External ''x''), w)" and ?w = "([], 3) :: solve_status list \<times> int"
  have "\<exists>d tm tm2 mid. fst (snd (Wrap recording_sys ''boot'' recording_logger ?fn ?w)) = fst ?w
      @ [vertex_report \<lparr>v_digest = d, v_name = ''boot'', v_started = Some tm, v_completed = None, v_error = []\<rparr>]
      @ mid
      @ [vertex_report \<lparr>v_digest = d, v_name = ''boot'', v_started = Some tm, v_completed = Some tm2,
           v_error = error_message recording_sys (fst (Wrap recording_sys ''boot'' recording_logger ?fn ?w))\<rparr>]"
    by (rule Wrap_reports[of fst]) (auto simp: recording_sys_def recording_logger_def split: prod.splits)
  moreover have "fst (Wrap recording_sys ''boot'' recording_logger ?fn ?w) = Some (External ''x'')"
    by (simp add: Wrap_def Let_def split: prod.splits)
  ultimately show ?thesis by (simp add: error_message_def recording_sys_def)
qed

end
