(* ===== verification/Platforms.thy ===== *)
theory Platforms
  imports GoStrings
begin

text \<open>
  Platform specifiers: the parts of \<open>containerd/platforms\<close> (\<open>platforms.go\<close>,
  \<open>database.go\<close>) that the builder uses to normalise, print and read a platform, and
  \<open>pkg/platformutil/parse.go\<close>. What the Go runtime says of the machine
  (\<open>runtime.GOOS\<close>, \<open>runtime.GOARCH\<close>, the CPU variant) is the record \<open>host\<close>,
  an argument of the definitions.
\<close>

record platform =
  pf_arch :: string
  pf_os :: string
  pf_os_version :: string
  pf_os_features :: "string list"
  pf_variant :: string

definition no_platform :: platform where
  "no_platform = \<lparr>pf_arch = [], pf_os = [], pf_os_version = [], pf_os_features = [], pf_variant = []\<rparr>"

record host =
  h_goos :: string
  h_goarch :: string
  h_cpu_variant :: string

definition isArmArch :: "string \<Rightarrow> bool" where
  "isArmArch arch \<longleftrightarrow> arch = ''arm'' \<or> arch = ''arm64''"

text \<open>\<open>cpuVariant()\<close>: the variant is looked up on ARM machines only.\<close>

definition cpuVariant :: "host \<Rightarrow> string" where
  "cpuVariant h = (if isArmArch (h_goarch h) then h_cpu_variant h else [])"

definition DefaultSpec :: "host \<Rightarrow> platform" where
  "DefaultSpec h = no_platform\<lparr>pf_os := h_goos h, pf_arch := h_goarch h, pf_variant := cpuVariant h\<rparr>"

section \<open>Normal forms\<close>

definition isKnownOS :: "string \<Rightarrow> bool" where
  "isKnownOS os \<longleftrightarrow> os \<in> set
     [''aix'', ''android'', ''darwin'', ''dragonfly'', ''freebsd'', ''hurd'', ''illumos'', ''ios'', ''js'',
      ''linux'', ''nacl'', ''netbsd'', ''openbsd'', ''plan9'', ''solaris'', ''windows'', ''zos'']"

definition isKnownArch :: "string \<Rightarrow> bool" where
  "isKnownArch arch \<longleftrightarrow> arch \<in> set
     [''386'', ''amd64'', ''amd64p32'', ''arm'', ''armbe'', ''arm64'', ''arm64be'', ''ppc64'', ''ppc64le'',
      ''loong64'', ''mips'', ''mipsle'', ''mips64'', ''mips64le'', ''mips64p32'', ''mips64p32le'', ''ppc'',
      ''riscv'', ''riscv64'', ''s390'', ''s390x'', ''sparc'', ''sparc64'', ''wasm'']"

definition normalizeOS :: "host \<Rightarrow> string \<Rightarrow> string" where
  "normalizeOS h os =
     (if os = [] then h_goos h
      else let os = to_lower os in if os = ''macos'' then ''darwin'' else os)"

text \<open>The switch on lower-case names.\<close>

definition canonical_arch :: "string \<Rightarrow> string \<Rightarrow> string \<times> string" where
  "canonical_arch arch variant =
     (if arch = ''i386'' then (''386'', [])
      else if arch \<in> set [''x86_64'', ''x86-64'', ''amd64''] then
        (''amd64'', if variant = ''v1'' then [] else variant)
      else if arch \<in> set [''aarch64'', ''arm64''] then
        (''arm64'', if variant \<in> set [''8'', ''v8''] then [] else variant)
      else if arch = ''armhf'' then (''arm'', ''v7'')
      else if arch = ''armel'' then (''arm'', ''v6'')
      else if arch = ''arm'' then
        (arch,
         if variant \<in> set [[], ''7''] then ''v7''
         else if variant \<in> set [''5'', ''6'', ''8''] then CHR ''v'' # variant
         else variant)
      else (arch, variant))"

definition normalizeArch :: "string \<Rightarrow> string \<Rightarrow> string \<times> string" where
  "normalizeArch arch variant = canonical_arch (to_lower arch) (to_lower variant)"

definition Normalize :: "host \<Rightarrow> platform \<Rightarrow> platform" where
  "Normalize h p =
     (let (arch, variant) = normalizeArch (pf_arch p) (pf_variant p)
      in p\<lparr>pf_os := normalizeOS h (pf_os p), pf_arch := arch, pf_variant := variant\<rparr>)"

section \<open>Printing\<close>

text \<open>
  The elements that \<open>path.Clean\<close> keeps, as a stack: no empty element and no dot; a
  dot-dot takes the element before it away, is dropped at a root, and stays when nothing but
  dot-dots is before it.
\<close>

fun clean_elems :: "bool \<Rightarrow> string list \<Rightarrow> string list \<Rightarrow> string list" where
  "clean_elems rooted stack [] = rev stack"
| "clean_elems rooted stack (e # es) =
     (if e = [] \<or> e = ''.'' then clean_elems rooted stack es
      else if e = ''..'' then
        (case stack of
           [] \<Rightarrow> clean_elems rooted (if rooted then [] else [e]) es
         | x # xs \<Rightarrow> clean_elems rooted (if x = ''..'' then e # stack else xs) es)
      else clean_elems rooted (e # stack) es)"

definition path_Clean :: "string \<Rightarrow> string" where
  "path_Clean s =
     (let rooted = has_prefix s ''/'';
          out = join_with ''/'' (clean_elems rooted [] (split_on CHR ''/'' s))
      in if rooted then CHR ''/'' # out else if out = [] then ''.'' else out)"

definition path_Join :: "string list \<Rightarrow> string" where
  "path_Join es =
     (let es = filter (\<lambda>e. e \<noteq> []) es in if es = [] then [] else path_Clean (join_with ''/'' es))"

text \<open>The name \<open>platforms.Format\<close> is \<open>Format_platform\<close> here; \<open>platformutil.Format\<close>,
  over a list, is \<open>Format\<close>.\<close>

definition Format_platform :: "platform \<Rightarrow> string" where
  "Format_platform p =
     (if pf_os p = [] then ''unknown'' else path_Join [pf_os p, pf_arch p, pf_variant p])"

section \<open>Reading\<close>

definition specifier_char :: "char \<Rightarrow> bool" where
  "specifier_char c \<longleftrightarrow>
     (let n = (of_char c :: nat) in
      65 \<le> n \<and> n \<le> 90 \<or> 97 \<le> n \<and> n \<le> 122 \<or> 48 \<le> n \<and> n \<le> 57 \<or> c = CHR ''_'' \<or> c = CHR ''-'')"

text \<open>The regular expression of a component: one or more of these characters.\<close>

definition specifierRe :: "string \<Rightarrow> bool" where
  "specifierRe s \<longleftrightarrow> s \<noteq> [] \<and> list_all specifier_char s"

definition read_one :: "host \<Rightarrow> string \<Rightarrow> string \<Rightarrow> platform result" where
  "read_one h specifier part =
     (let os = normalizeOS h part in
      if isKnownOS os then
        Ok (no_platform\<lparr>pf_os := os, pf_arch := h_goarch h,
              pf_variant := (if h_goarch h = ''arm'' \<and> cpuVariant h \<noteq> ''v7'' then cpuVariant h else [])\<rparr>)
      else
        let (arch, variant) = normalizeArch part [];
            variant = (if arch = ''arm'' \<and> variant = ''v7'' then [] else variant)
        in if isKnownArch arch
           then Ok (no_platform\<lparr>pf_os := h_goos h, pf_arch := arch, pf_variant := variant\<rparr>)
           else Err (Errorf ''%q: unknown operating system or architecture: %w'' [specifier]))"

definition Parse_platform :: "host \<Rightarrow> string \<Rightarrow> platform result" where
  "Parse_platform h specifier =
     (if contains_str specifier ''*''
      then Err (Errorf ''%q: wildcards not yet supported: %w'' [specifier])
      else
        let parts = split_on CHR ''/'' specifier in
        case filter (\<lambda>p. \<not> specifierRe p) parts of
          bad # _ \<Rightarrow> Err (Errorf ''%q is an invalid component of %q'' [bad, specifier])
        | [] \<Rightarrow>
          (case parts of
             [p] \<Rightarrow> read_one h specifier p
           | [o', a] \<Rightarrow>
               let (arch, variant) = normalizeArch a [] in
               Ok (no_platform\<lparr>pf_os := normalizeOS h o', pf_arch := arch,
                     pf_variant := (if arch = ''arm'' \<and> variant = ''v7'' then [] else variant)\<rparr>)
           | [o', a, v] \<Rightarrow>
               let (arch, variant) = normalizeArch a v in
               Ok (no_platform\<lparr>pf_os := normalizeOS h o', pf_arch := arch,
                     pf_variant := (if arch = ''arm64'' \<and> variant = [] then ''v8'' else variant)\<rparr>)
           | _ \<Rightarrow> Err (Errorf ''%q: cannot parse platform specifier: %w'' [specifier])))"

section \<open>The list of platforms of a build\<close>

definition parse_spec :: "host \<Rightarrow> string \<Rightarrow> platform result" where
  "parse_spec h s = (if to_lower s = ''local'' then Ok (DefaultSpec h) else Parse_platform h s)"

text \<open>An element with commas is split and its parts are read by the function itself.\<close>

function Parse :: "host \<Rightarrow> string list \<Rightarrow> platform list result" where
  "Parse h [] = Ok []"
| "Parse h (s # ss) =
     and_then
       (let parts = split_on CHR '','' s in
        if length parts > 1 then Parse h parts
        else and_then (parse_spec h s) (\<lambda>p. Ok [Normalize h p]))
       (\<lambda>ps. and_then (Parse h ss) (\<lambda>qs. Ok (ps @ qs)))"
  by pat_completeness auto

lemma commas_of_parts: "sum_list (map (\<lambda>p. count_list p c) (split_on c s)) = 0"
proof -
  have "count_list p c = 0" if "p \<in> set (split_on c s)" for p
    using split_on_parts_no_sep[OF that] by (simp add: count_list_0_iff)
  then show ?thesis by (simp add: sum_list_eq_0_iff)
qed

termination Parse
proof (relation "measures [\<lambda>(h, ss). sum_list (map (\<lambda>p. count_list p CHR '','') ss), \<lambda>(h, ss). length ss]")
  fix h :: host and s :: string and ss :: "string list" and parts
  assume "parts = split_on CHR '','' s" "1 < length parts"
  then have "sum_list (map (\<lambda>p. count_list p CHR '','') parts) = 0" "count_list s CHR '','' > 0"
    by (simp_all add: commas_of_parts length_split_on)
  then show "((h, parts), (h, s # ss)) \<in>
      measures [\<lambda>(h, ss). sum_list (map (\<lambda>p. count_list p CHR '','') ss), \<lambda>(h, ss). length ss]"
    by (simp del: sum_list_eq_0_iff)
qed (auto simp: less_Suc_eq_le)

fun dedupe_from :: "host \<Rightarrow> string list \<Rightarrow> platform list \<Rightarrow> platform list" where
  "dedupe_from h seen [] = []"
| "dedupe_from h seen (p # ps) =
     (let p = Normalize h p; key = Format_platform p in
      if key \<in> set seen then dedupe_from h seen ps
      else p # dedupe_from h (key # seen) ps)"

definition Dedupe :: "host \<Rightarrow> platform list \<Rightarrow> platform list" where
  "Dedupe h ps = dedupe_from h [] ps"

text \<open>One group with the keys seen so far: the names it adds and the keys seen after it.\<close>

fun format_group :: "host \<Rightarrow> bool \<Rightarrow> string list \<Rightarrow> platform list \<Rightarrow> string list \<times> string list" where
  "format_group h first seen [] = ([], seen)"
| "format_group h first seen (p # ps) =
     (let p = Normalize h p; key = Format_platform p in
      if key \<in> set seen then format_group h first seen ps
      else
        let v = Format_platform p; v = (if first then v @ ''*'' else v);
            (out, seen') = format_group h first (key # seen) ps
        in (v # out, seen'))"

fun format_groups :: "host \<Rightarrow> nat \<Rightarrow> string list \<Rightarrow> platform list list \<Rightarrow> string list" where
  "format_groups h i seen [] = []"
| "format_groups h i seen (g # gs) =
     (let (out, seen') = format_group h (i = 0) seen g in out @ format_groups h (Suc i) seen' gs)"

definition FormatInGroups :: "host \<Rightarrow> platform list list \<Rightarrow> string list" where
  "FormatInGroups h gg = format_groups h 0 [] gg"

definition Format :: "platform list \<Rightarrow> string list" where
  "Format ps = map Format_platform ps"

section \<open>Normal forms are fixed points\<close>

text \<open>The machine's own names are in normal form; Go's names all are.\<close>

definition host_wf :: "host \<Rightarrow> bool" where
  "host_wf h \<longleftrightarrow>
     list_all specifierRe [h_goos h, h_goarch h] \<and>
     (h_cpu_variant h = [] \<or> specifierRe (h_cpu_variant h)) \<and>
     to_lower (h_goos h) = h_goos h \<and> h_goos h \<noteq> ''macos'' \<and>
     normalizeArch (h_goarch h) [] =
       (h_goarch h, if h_goarch h = ''arm'' then ''v7'' else [])"

lemma to_lower_Nil_iff [simp]: "to_lower s = [] \<longleftrightarrow> s = []"
  by (simp add: to_lower_def)

lemma to_lower_literals [simp]:
  "to_lower ''386'' = ''386''" "to_lower ''amd64'' = ''amd64''" "to_lower ''arm64'' = ''arm64''"
  "to_lower ''arm'' = ''arm''" "to_lower ''v5'' = ''v5''" "to_lower ''v6'' = ''v6''"
  "to_lower ''v7'' = ''v7''" "to_lower ''v8'' = ''v8''" "to_lower ''darwin'' = ''darwin''"
  "to_lower ''linux'' = ''linux''"
  by code_simp+

text \<open>What the switch can answer: one of the names it writes, or what it was given.\<close>

lemma canonical_arch_cases:
  "canonical_arch a v \<in> set
     [(''386'', []), (''amd64'', []), (''arm64'', []), (''arm'', ''v5''), (''arm'', ''v6''),
      (''arm'', ''v7''), (''arm'', ''v8'')] \<or>
   canonical_arch a v = (''amd64'', v) \<and> v \<noteq> ''v1'' \<or>
   canonical_arch a v = (''arm64'', v) \<and> v \<notin> set [''8'', ''v8''] \<or>
   canonical_arch a v = (''arm'', v) \<and> v \<notin> set [[], ''7'', ''5'', ''6'', ''8''] \<or>
   canonical_arch a v = (a, v) \<and>
     a \<notin> set [''i386'', ''x86_64'', ''x86-64'', ''amd64'', ''aarch64'', ''arm64'', ''armhf'', ''armel'', ''arm'']"
  unfolding canonical_arch_def by simp

lemma canonical_arch_lower:
  assumes "to_lower a = a" "to_lower v = v" "canonical_arch a v = (a', v')"
  shows "to_lower a' = a' \<and> to_lower v' = v'"
  using canonical_arch_cases[of a v] unfolding assms(3) by (elim disjE) (auto simp: assms(1,2))

lemma canonical_arch_idem:
  assumes "canonical_arch a v = (a', v')"
  shows "canonical_arch a' v' = (a', v')"
  using canonical_arch_cases[of a v] unfolding assms
  by (elim disjE) (auto simp: canonical_arch_def)

lemma normalizeArch_idem:
  assumes "normalizeArch a v = (a', v')"
  shows "normalizeArch a' v' = (a', v')"
proof -
  have "canonical_arch (to_lower a) (to_lower v) = (a', v')" using assms by (simp add: normalizeArch_def)
  moreover from canonical_arch_lower[OF _ _ this] have "to_lower a' = a'" "to_lower v' = v'" by simp_all
  ultimately show ?thesis using canonical_arch_idem by (simp add: normalizeArch_def)
qed

lemma normalizeOS_idem:
  "host_wf h \<Longrightarrow> normalizeOS h (normalizeOS h os) = normalizeOS h os"
  by (auto simp: normalizeOS_def host_wf_def Let_def)

lemma Normalize_idem:
  assumes "host_wf h"
  shows "Normalize h (Normalize h p) = Normalize h p"
proof -
  obtain a v where av: "normalizeArch (pf_arch p) (pf_variant p) = (a, v)" by fastforce
  then show ?thesis using normalizeArch_idem[OF av] normalizeOS_idem[OF assms]
    by (simp add: Normalize_def)
qed

text \<open>A platform without slashes or dots prints as its non-empty parts.\<close>

definition plain_elem :: "string \<Rightarrow> bool" where
  "plain_elem e \<longleftrightarrow> CHR ''/'' \<notin> set e \<and> e \<noteq> ''.'' \<and> e \<noteq> ''..''"

lemma clean_elems_plain:
  "list_all (\<lambda>e. e \<noteq> [] \<and> plain_elem e) es \<Longrightarrow> clean_elems r stack es = rev stack @ es"
  by (induction es arbitrary: stack) (auto simp: plain_elem_def)

lemma path_Join_plain:
  assumes "list_all plain_elem es" and "filter (\<lambda>e. e \<noteq> []) es \<noteq> []"
  shows "path_Join es = join_with ''/'' (filter (\<lambda>e. e \<noteq> []) es)"
proof -
  let ?es = "filter (\<lambda>e. e \<noteq> []) es"
  have all: "list_all (\<lambda>e. e \<noteq> [] \<and> plain_elem e) ?es" using assms(1) by (simp add: list_all_iff)
  then have "split_on CHR ''/'' (join_with ''/'' ?es) = ?es"
    using assms(2) by (intro split_on_join) (auto simp: list_all_iff plain_elem_def)
  moreover obtain x xs where x: "?es = x # xs" using assms(2) by (cases ?es) auto
  moreover obtain c cs where c: "x = c # cs" "c \<noteq> CHR ''/''"
    using all x by (cases x) (auto simp: plain_elem_def)
  moreover have "\<exists>t. join_with ''/'' ?es = c # t" using x c by (cases xs) auto
  ultimately show ?thesis using clean_elems_plain[OF all, of False "[]"] assms(2)
    by (auto simp: path_Join_def path_Clean_def Let_def has_prefix_def)
qed


section \<open>Reading platforms\<close>

definition parse_normal :: "host \<Rightarrow> string \<Rightarrow> platform result" where
  "parse_normal h s = and_then (parse_spec h s) (\<lambda>p. Ok (Normalize h p))"

lemma split_no_sep_again:
  "(\<And>p. p \<in> set ps \<Longrightarrow> c \<notin> set p) \<Longrightarrow> concat (map (split_on c) ps) = ps"
  by (induction ps) (simp_all add: split_on_no_sep)

lemma split_parts_again:
  "concat (map (split_on c) (split_on c s)) = split_on c s"
  using split_on_parts_no_sep by (rule split_no_sep_again)

lemma Parse_eq:
  "Parse h ss = map_res (parse_normal h) (concat (map (split_on CHR '','') ss))"
proof (induction h ss rule: Parse.induct)
  case (1 h)
  then show ?case by simp
next
  case (2 h s ss)
  let ?parts = "split_on CHR '','' s"
  have "(if length ?parts > 1 then Parse h ?parts else and_then (parse_spec h s) (\<lambda>p. Ok [Normalize h p]))
      = map_res (parse_normal h) ?parts"
  proof (cases "length ?parts > 1")
    case True
    then show ?thesis using 2(1)[OF refl] by (simp add: split_parts_again)
  next
    case False
    then have "?parts = [s]"
      by (metis count_notin diff_is_0_eq' length_split_on less_numeral_extra(3) linorder_not_le
        neq0_conv not_less_eq_eq split_on_no_sep One_nat_def count_list_0_iff)
    then show ?thesis by (simp add: parse_normal_def and_then_def split: sum.splits)
  qed
  then show ?case using 2(2)
    by (cases "map_res (parse_normal h) ?parts") (simp_all add: map_res_append Let_def)
qed

text \<open>What every platform that is read satisfies.\<close>

definition platform_wf :: "platform \<Rightarrow> bool" where
  "platform_wf p \<longleftrightarrow> list_all specifierRe [pf_os p, pf_arch p] \<and>
     (pf_variant p = [] \<or> specifierRe (pf_variant p)) \<and> pf_os_version p = [] \<and> pf_os_features p = []"

lemma specifier_char_lower: "specifier_char c \<Longrightarrow> specifier_char (lower_char c)"
  by (auto simp: specifier_char_def lower_char_def Let_def)

lemma specifierRe_lower: "specifierRe s \<Longrightarrow> specifierRe (to_lower s)"
  by (auto simp: specifierRe_def to_lower_def list_all_iff specifier_char_lower)

lemma specifierRe_literals [simp]:
  "specifierRe ''386''" "specifierRe ''amd64''" "specifierRe ''arm64''" "specifierRe ''arm''"
  "specifierRe ''v5''" "specifierRe ''v6''" "specifierRe ''v7''" "specifierRe ''v8''"
  "specifierRe ''darwin''" "specifierRe ''linux''" "\<not> specifierRe []"
  by code_simp+

lemma specifierRe_arch:
  assumes "normalizeArch a v = (a', v')" "specifierRe a" "v = [] \<or> specifierRe v"
  shows "specifierRe a' \<and> (v' = [] \<or> specifierRe v')"
proof -
  have l: "specifierRe (to_lower a)" "to_lower v = [] \<or> specifierRe (to_lower v)"
    using assms specifierRe_lower by auto
  from assms(1) canonical_arch_cases[of "to_lower a" "to_lower v"] show ?thesis
    unfolding normalizeArch_def by (elim disjE) (use l in auto)
qed

lemma specifierRe_OS: "host_wf h \<Longrightarrow> specifierRe os \<Longrightarrow> specifierRe (normalizeOS h os)"
  by (auto simp: normalizeOS_def host_wf_def Let_def specifierRe_lower)

lemma platform_wf_Normalize: "host_wf h \<Longrightarrow> platform_wf p \<Longrightarrow> platform_wf (Normalize h p)"
  using specifierRe_arch specifierRe_OS by (auto simp: platform_wf_def Normalize_def split: prod.splits)


lemma parse_spec_wf:
  assumes "host_wf h" and "parse_spec h s = Ok p"
  shows "platform_wf p"
proof (cases "to_lower s = ''local''")
  case True
  then show ?thesis using assms
    by (auto simp: parse_spec_def DefaultSpec_def platform_wf_def no_platform_def host_wf_def cpuVariant_def)
next
  case False
  then have s: "Parse_platform h s = Ok p" using assms(2) by (simp add: parse_spec_def)
  let ?parts = "split_on CHR ''/'' s"
  have parts: "list_all specifierRe ?parts"
    using s by (auto simp: Parse_platform_def Let_def filter_empty_conv list_all_iff split: if_splits list.splits)
  with s have cases: "(case ?parts of [p] \<Rightarrow> read_one h s p
      | [o', a] \<Rightarrow> let (arch, variant) = normalizeArch a [] in
          Ok (no_platform\<lparr>pf_os := normalizeOS h o', pf_arch := arch,
                pf_variant := (if arch = ''arm'' \<and> variant = ''v7'' then [] else variant)\<rparr>)
      | [o', a, v] \<Rightarrow> let (arch, variant) = normalizeArch a v in
          Ok (no_platform\<lparr>pf_os := normalizeOS h o', pf_arch := arch,
                pf_variant := (if arch = ''arm64'' \<and> variant = [] then ''v8'' else variant)\<rparr>)
      | _ \<Rightarrow> Err (Errorf ''%q: cannot parse platform specifier: %w'' [s])) = Ok p"
    by (simp add: Parse_platform_def Let_def filter_empty_conv list_all_iff cong: list.case_cong split: if_splits)
  have hw: "specifierRe (h_goos h)" "specifierRe (h_goarch h)" "cpuVariant h = [] \<or> specifierRe (cpuVariant h)"
    using assms(1) by (auto simp: host_wf_def cpuVariant_def)
  consider a where "?parts = [a]" | o' a where "?parts = [o', a]" | o' a v where "?parts = [o', a, v]"
    using cases by (auto split: list.splits)
  then show ?thesis
  proof cases
    case 1
    obtain x y where xy: "normalizeArch a [] = (x, y)" by fastforce
    have re: "specifierRe x" "y = [] \<or> specifierRe y" "specifierRe (normalizeOS h a)"
      using 1 parts specifierRe_arch[OF xy] specifierRe_OS[OF assms(1)] by simp_all
    have "read_one h s a = Ok p" using cases unfolding 1 by simp
    then have "p = no_platform\<lparr>pf_os := normalizeOS h a, pf_arch := h_goarch h,
          pf_variant := (if h_goarch h = ''arm'' \<and> cpuVariant h \<noteq> ''v7'' then cpuVariant h else [])\<rparr> \<or>
        p = no_platform\<lparr>pf_os := h_goos h, pf_arch := x,
          pf_variant := (if x = ''arm'' \<and> y = ''v7'' then [] else y)\<rparr>"
      unfolding read_one_def xy Let_def prod.case
      by (cases "isKnownOS (normalizeOS h a)"; cases "isKnownArch x") (auto simp only: if_True if_False sum.inject sum.distinct)
    then show ?thesis by (elim disjE) (use re hw in \<open>simp_all add: platform_wf_def no_platform_def\<close>)
  next
    case 2
    obtain x y where xy: "normalizeArch a [] = (x, y)" by fastforce
    have re: "specifierRe x" "y = [] \<or> specifierRe y" "specifierRe (normalizeOS h o')"
      using 2 parts specifierRe_arch[OF xy] specifierRe_OS[OF assms(1)] by simp_all
    have "p = no_platform\<lparr>pf_os := normalizeOS h o', pf_arch := x,
        pf_variant := (if x = ''arm'' \<and> y = ''v7'' then [] else y)\<rparr>"
      using cases unfolding 2 by (simp add: xy)
    with re show ?thesis by (simp add: platform_wf_def no_platform_def)
  next
    case 3
    obtain x y where xy: "normalizeArch a v = (x, y)" by fastforce
    have re: "specifierRe x" "y = [] \<or> specifierRe y" "specifierRe (normalizeOS h o')"
      using 3 parts specifierRe_arch[OF xy] specifierRe_OS[OF assms(1)] by simp_all
    have "p = no_platform\<lparr>pf_os := normalizeOS h o', pf_arch := x,
        pf_variant := (if x = ''arm64'' \<and> y = [] then ''v8'' else y)\<rparr>"
      using cases unfolding 3 by (simp add: xy)
    with re show ?thesis by (simp add: platform_wf_def no_platform_def)
  qed
qed

text \<open>A platform in normal form is read back from what is printed for it.\<close>

lemma specifierRe_plain: "specifierRe s \<Longrightarrow> plain_elem s \<and> CHR '','' \<notin> set s \<and> CHR ''*'' \<notin> set s"
  by (auto simp: specifierRe_def plain_elem_def list_all_iff specifier_char_def)

lemma Format_platform_eq:
  assumes "platform_wf p"
  shows "Format_platform p = join_with ''/''
    ([pf_os p, pf_arch p] @ (if pf_variant p = [] then [] else [pf_variant p]))"
  using assms specifierRe_plain path_Join_plain[of "[pf_os p, pf_arch p, pf_variant p]"]
  by (auto simp: Format_platform_def platform_wf_def plain_elem_def specifierRe_def)

lemma parse_normal_Format:
  assumes "host_wf h" and "platform_wf p" and "Normalize h p = p"
  shows "parse_normal h (Format_platform p) = Ok p"
proof -
  let ?parts = "[pf_os p, pf_arch p] @ (if pf_variant p = [] then [] else [pf_variant p])"
  let ?s = "Format_platform p"
  have re: "\<forall>e \<in> set ?parts. specifierRe e" using assms(2) by (auto simp: platform_wf_def)
  then have split: "split_on CHR ''/'' ?s = ?parts"
    unfolding Format_platform_eq[OF assms(2)] using specifierRe_plain
    by (intro split_on_join) (auto simp: plain_elem_def)
  have slash: "CHR ''/'' \<in> set ?s" by (simp add: Format_platform_eq[OF assms(2)])
  have "lower_char CHR ''/'' = CHR ''/''" by code_simp
  then have "CHR ''/'' \<in> set (to_lower ?s)" using slash by (metis image_eqI list.set_map to_lower_def)
  moreover have "CHR ''/'' \<notin> set ''local''" by simp
  ultimately have not_local: "to_lower ?s \<noteq> ''local''" by metis
  have "CHR ''*'' \<notin> set ?s"
    using re specifierRe_plain by (auto simp: Format_platform_eq[OF assms(2)])
  moreover have "normalizeArch (pf_arch p) (pf_variant p) = (pf_arch p, pf_variant p)"
    "normalizeOS h (pf_os p) = pf_os p"
    using assms(3) by (cases "normalizeArch (pf_arch p) (pf_variant p)"; cases p; simp add: Normalize_def)+
  moreover have "p = no_platform\<lparr>pf_os := pf_os p, pf_arch := pf_arch p, pf_variant := pf_variant p\<rparr>"
    using assms(2) by (cases p) (simp add: platform_wf_def no_platform_def)
  moreover have "filter (\<lambda>e. \<not> specifierRe e) ?parts = []" using re by (simp only: filter_empty_conv) blast
  ultimately have "parse_spec h ?s = Ok p"
    using split not_local
    by (cases "pf_variant p = []") (simp_all add: parse_spec_def Parse_platform_def contains_char_iff)
  then show ?thesis using assms(3) by (simp add: parse_normal_def)
qed


section \<open>Removing duplicates\<close>

abbreviation platform_key :: "host \<Rightarrow> platform \<Rightarrow> string" where
  "platform_key h p \<equiv> Format_platform (Normalize h p)"

lemma dedupe_from_set:
  "p \<in> set (dedupe_from h seen ps) \<Longrightarrow> \<exists>q \<in> set ps. p = Normalize h q \<and> platform_key h q \<notin> set seen"
  by (induction ps arbitrary: seen) (fastforce simp: Let_def split: if_splits)+

lemma dedupe_from_keys:
  "set (map Format_platform (dedupe_from h seen ps)) = platform_key h ` set ps - set seen"
  by (induction ps arbitrary: seen) (auto simp: Let_def)

lemma dedupe_from_distinct:
  "distinct (map Format_platform (dedupe_from h seen ps))"
proof (induction ps arbitrary: seen)
  case (Cons p ps)
  show ?case
    using Cons.IH[of seen] Cons.IH[of "platform_key h p # seen"] dedupe_from_keys[of h "platform_key h p # seen" ps]
    by (auto simp: Let_def)
qed simp

lemma dedupe_from_append:
  "dedupe_from h seen (ps @ qs) =
     dedupe_from h seen ps @ dedupe_from h (rev (map Format_platform (dedupe_from h seen ps)) @ seen) qs"
  by (induction ps arbitrary: seen) (simp_all add: Let_def)

lemma dedupe_from_id:
  assumes "host_wf h" "list_all (\<lambda>p. Normalize h p = p) ps" "distinct (map Format_platform ps)"
    "Format_platform ` set ps \<inter> set seen = {}"
  shows "dedupe_from h seen ps = ps"
  using assms by (induction ps arbitrary: seen) (auto simp: Let_def)

lemma format_group_eq:
  "format_group h first seen ps =
     (map (\<lambda>p. Format_platform p @ (if first then ''*'' else [])) (dedupe_from h seen ps),
      rev (map Format_platform (dedupe_from h seen ps)) @ seen)"
  by (induction ps arbitrary: seen) (simp_all add: Let_def)

lemma format_groups_later:
  "0 < i \<Longrightarrow> format_groups h i seen gs = map Format_platform (dedupe_from h seen (concat gs))"
  by (induction gs arbitrary: i seen) (simp_all add: format_group_eq dedupe_from_append)

lemma dedupe_from_cong:
  "set seen = set seen' \<Longrightarrow> dedupe_from h seen ps = dedupe_from h seen' ps"
proof (induction ps arbitrary: seen seen')
  case (Cons p ps)
  have "dedupe_from h (platform_key h p # seen) ps = dedupe_from h (platform_key h p # seen') ps"
    using Cons.prems by (intro Cons.IH) simp
  with Cons.IH[OF Cons.prems] Cons.prems show ?case by (simp add: Let_def)
qed simp

section \<open>Properties\<close>

text \<open>
  Commas in a platform argument are separators at any place: reading the arguments is
  reading all the parts one by one, in order, and putting each in normal form; the first bad
  part decides the error. The recursion of the reader on its own parts ends.
\<close>

theorem Parse_flat:
  "Parse h ss = map_res (\<lambda>s. and_then (parse_spec h s) (\<lambda>p. Ok (Normalize h p)))
     (concat (map (split_on CHR '','') ss))"
  unfolding Parse_eq parse_normal_def ..

text \<open>
  C37: The platforms that are read are in normal form, and what is printed for them reads
  back as the same platforms.
\<close>

theorem Parse_Format_roundtrip:
  assumes "host_wf h" and "Parse h ss = Ok ps"
  shows "list_all (\<lambda>p. Normalize h p = p) ps \<and> Parse h (Format ps) = Ok ps"
proof -
  have each: "platform_wf p \<and> Normalize h p = p" if p: "p \<in> set ps" for p
  proof -
    obtain s q where "parse_spec h s = Ok q" "p = Normalize h q"
      using assms(2) p
      by (auto simp: Parse_eq map_res_Inr_iff list_all2_conv_all_nth in_set_conv_nth parse_normal_def
          and_then_Inr_iff)
    then show ?thesis
      using parse_spec_wf[OF assms(1)] platform_wf_Normalize[OF assms(1)] Normalize_idem[OF assms(1)] by auto
  qed
  have "CHR '','' \<notin> set (Format_platform p)" if "platform_wf p" for p
    using that specifierRe_plain by (auto simp: Format_platform_eq[OF that] platform_wf_def)
  then have "concat (map (split_on CHR '','') (Format ps)) = Format ps"
    using each by (intro split_no_sep_again) (auto simp: Format_def)
  moreover have "map_res (parse_normal h) (Format ps) = Ok ps"
    using each parse_normal_Format[OF assms(1)]
    by (auto simp: map_res_Inr_iff Format_def list_all2_map1 list_all2_same)
  ultimately show ?thesis using each by (simp add: Parse_eq list_all_iff)
qed

definition linux_host :: host where
  "linux_host = \<lparr>h_goos = ''linux'', h_goarch = ''arm64'', h_cpu_variant = ''v8''\<rparr>"

theorem Parse_Format_roundtrip_witness:
  "\<exists>ps. Parse linux_host [''linux/amd64,Linux/ARMhf'', ''local''] = Ok ps \<and> length ps = 3 \<and>
     Parse linux_host (Format ps) = Ok ps"
proof -
  have h: "host_wf linux_host" by code_simp
  obtain ps where ps: "Parse linux_host [''linux/amd64,Linux/ARMhf'', ''local''] = Ok ps" "length ps = 3"
  proof -
    have "case map_res (parse_normal linux_host) [''linux/amd64'', ''Linux/ARMhf'', ''local''] of
        Inr ps \<Rightarrow> length ps = 3 | Inl _ \<Rightarrow> False"
      by code_simp
    then show ?thesis using that by (auto simp: Parse_eq split: sum.splits)
  qed
  from Parse_Format_roundtrip[OF h ps(1)] ps show ?thesis by auto
qed

text \<open>
  Removing duplicates keeps one platform for every printed name, in normal form, the
  first one first; doing it again changes nothing.
\<close>

theorem Dedupe_spec:
  assumes "host_wf h"
  shows "distinct (map Format_platform (Dedupe h ps)) \<and>
    Format_platform ` set (Dedupe h ps) = (\<lambda>p. Format_platform (Normalize h p)) ` set ps \<and>
    set (Dedupe h ps) \<subseteq> Normalize h ` set ps \<and> Dedupe h (Dedupe h ps) = Dedupe h ps"
proof -
  have "list_all (\<lambda>p. Normalize h p = p) (Dedupe h ps)"
    using Normalize_idem[OF assms] by (auto simp: list_all_iff Dedupe_def dest: dedupe_from_set)
  then have "Dedupe h (Dedupe h ps) = Dedupe h ps"
    unfolding Dedupe_def[of h "Dedupe h ps"] using assms
    by (intro dedupe_from_id) (simp_all add: Dedupe_def dedupe_from_distinct)
  then show ?thesis
    using dedupe_from_keys[of h "[]" ps] dedupe_from_distinct[of h "[]" ps]
    by (auto simp: Dedupe_def dest: dedupe_from_set)
qed

theorem Dedupe_spec_example:
  "distinct (map Format_platform (Dedupe linux_host [DefaultSpec linux_host, DefaultSpec linux_host]))"
proof -
  have "host_wf linux_host" by code_simp
  from Dedupe_spec[OF this] show ?thesis by blast
qed

text \<open>
  The list of platforms that \<open>ls\<close> shows names every platform of all groups once, and
  marks with a star exactly those of the first group.
\<close>

theorem FormatInGroups_spec:
  "FormatInGroups h (g # gs) =
     map (\<lambda>p. Format_platform p @ ''*'') (Dedupe h g) @
     map Format_platform (dedupe_from h (map Format_platform (Dedupe h g)) (concat gs)) \<and>
   FormatInGroups h [] = []"
  by (simp add: FormatInGroups_def Dedupe_def format_group_eq format_groups_later
      dedupe_from_cong[OF set_rev])


end
