(* ===== verification/DriverCore.thy ===== *)
theory DriverCore
  imports Progress Platforms
begin

text \<open>
  The drivers: \<open>pkg/driver\<close> (\<open>driver.go\<close>, \<open>manager.go\<close>, \<open>features.go\<close>) and the
  node of \<open>pkg/store\<close>. The Go interfaces \<open>Driver\<close> and \<open>Factory\<close> are records of
  operations; the registry of factories is the association list in the order in which a run
  visits the Go map. \<open>Boot\<close> is a \<open>loop\<close>.
\<close>

section \<open>Statuses and features\<close>

text \<open>\<open>Status\<close> is an \<open>int\<close> whose constants are numbered from 0.\<close>

type_synonym status = int

definition Inactive :: status where "Inactive = 0"
definition Starting :: status where "Starting = 1"
definition Running :: status where "Running = 2"
definition Stopping :: status where "Stopping = 3"
definition Stopped :: status where "Stopped = 4"

definition Status_String :: "status \<Rightarrow> string" where
  "Status_String s =
     (if s = Inactive then ''inactive''
      else if s = Starting then ''starting''
      else if s = Running then ''running''
      else if s = Stopping then ''stopping''
      else if s = Stopped then ''stopped''
      else ''unknown'')"

type_synonym feature = string

definition OCIExporter :: feature where "OCIExporter = ''OCI exporter''"
definition DockerExporter :: feature where "DockerExporter = ''Docker exporter''"
definition ContainerdExporter :: feature where "ContainerdExporter = ''Containerd exporter''"
definition CacheExport :: feature where "CacheExport = ''cache export''"
definition MultiPlatform :: feature where "MultiPlatform = ''multiple platforms''"

lemmas feature_defs =
  OCIExporter_def DockerExporter_def ContainerdExporter_def CacheExport_def MultiPlatform_def

section \<open>Nodes and clients\<close>

record store_node =
  sn_name :: string
  sn_endpoint :: string
  sn_platforms :: "platform list"
  sn_flags :: "string list"
  sn_config_file :: string
  sn_driver_opts :: "string \<rightharpoonup> string"

record info =
  in_status :: status
  in_nodes :: "store_node list"

record builder_node =
  bn_name :: string
  bn_status :: string
  bn_platforms :: "platform list"

record builder =
  b_name :: string
  b_driver :: string
  b_nodes :: "builder_node list"

text \<open>The BuildKit client is determined by the command that its connection runs in a
  container of a pod.\<close>

record exec_conn =
  x_namespace :: string
  x_pod :: string
  x_container :: string
  x_cmd :: "string list"

record node_client =
  nc_name :: string
  nc_addr :: string
  nc_client :: exec_conn

record builder_clients =
  bc_chosen :: node_client
  bc_others :: "node_client list"

section \<open>The interface of a driver\<close>

text \<open>A provider of credentials is determined by the name of the secret that it looks up;
  \<open>Factory().Name()\<close> is all that is asked of the factory.\<close>

record 'w driver =
  dr_Bootstrap :: "'w logger \<Rightarrow> 'w action"
  dr_Info :: "'w \<Rightarrow> info result \<times> 'w"
  dr_Stop :: "bool \<Rightarrow> 'w action"
  dr_Rm :: "bool \<Rightarrow> 'w action"
  dr_Clients :: "'w \<Rightarrow> builder_clients result \<times> 'w"
  dr_Features :: "'w \<Rightarrow> (feature \<rightharpoonup> bool) \<times> 'w"
  dr_List :: "'w \<Rightarrow> builder list result \<times> 'w"
  dr_RuntimeSockProxy :: "string \<Rightarrow> 'w \<Rightarrow> exec_conn result \<times> 'w"
  dr_GetVersion :: "'w \<Rightarrow> string result \<times> 'w"
  dr_GetAuthHintMessage :: "'w \<Rightarrow> string"
  dr_Factory_Name :: string
  dr_GetAuthProvider :: "string \<Rightarrow> 'w \<Rightarrow> string"
  dr_GetAuthWrapper :: "string \<Rightarrow> 'w \<Rightarrow> string"

section \<open>Booting\<close>

text \<open>\<open>RandSleep\<close>: a random time below the bound, or the bound when no random number is to
  be had (milliseconds).\<close>

definition RandSleep :: "'w sys \<Rightarrow> nat \<Rightarrow> 'w \<Rightarrow> 'w" where
  "RandSleep sys maxMS w =
     (case sys_draw sys maxMS w of
        (Inr ms, w) \<Rightarrow> sys_sleep sys ms w
      | (Inl _, w) \<Rightarrow> sys_sleep sys maxMS w)"

text \<open>The writer of the progress may be nil.\<close>

definition send_if :: "'w logger option \<Rightarrow> 'w logger" where
  "send_if pw s w = (case pw of Some send \<Rightarrow> send s w | None \<Rightarrow> w)"

text \<open>One round; the local is the error of the round before.\<close>

definition boot_round ::
  "'w sys \<Rightarrow> 'w driver \<Rightarrow> 'w logger option \<Rightarrow> go_error \<times> 'w \<Rightarrow>
     builder_clients result step \<times> go_error \<times> 'w" where
  "boot_round sys d pw = (\<lambda>(err, w).
     if sys_done sys w then
       (Return (Err (Wrapf err ''timed out trying to bootstrap builder'' [])), err, w)
     else
       case dr_Info d w of
         (Inl e, w) \<Rightarrow> (Return (Err e), e, w)
       | (Inr info, w) \<Rightarrow>
           (case (if in_status info \<noteq> Running then dr_Bootstrap d (send_if pw) w else (None, w)) of
              (Some e, w) \<Rightarrow> (Again, e, RandSleep sys 100 w)
            | (None, w) \<Rightarrow>
                (case dr_Clients d w of
                   (Inr results, w) \<Rightarrow> (Return (Ok results), err, w)
                 | (Inl e, w) \<Rightarrow> (Again, e, RandSleep sys 1000 w))))"

definition Boot ::
  "'w sys \<Rightarrow> 'w driver \<Rightarrow> 'w logger option \<Rightarrow> 'w \<Rightarrow> (builder_clients result \<times> 'w) option" where
  "Boot sys d pw w =
     (case loop (boot_round sys d pw) (Errorf ''timeout before starting'' [], w) of
        None \<Rightarrow> None
      | Some (r, _, w) \<Rightarrow> Some (r, w))"

section \<open>Factories\<close>

text \<open>What a client configuration of the Kubernetes library answers.\<close>

record kube_client_config =
  kc_namespace :: "string result"
  kc_client_config :: "unit result"

record init_config =
  ic_name :: string
  ic_kube :: "kube_client_config option"
  ic_flags :: "string list"
  ic_config_file :: string
  ic_driver_opts :: "(string \<times> string) list"
  ic_context_path_hash :: string

text \<open>\<open>'d\<close> is what the factory makes.\<close>

record 'd factory =
  fa_name :: string
  fa_usage :: string
  fa_priority :: int
  fa_allows_instances :: bool
  fa_new :: "init_config \<Rightarrow> 'd result"

type_synonym 'd registry = "(string \<times> 'd factory) list"

definition Register :: "'d factory \<Rightarrow> 'd registry \<Rightarrow> 'd registry" where
  "Register f drivers = AList.update (fa_name f) f drivers"

text \<open>\<open>sort.Slice\<close> leaves the order of equal priorities open; so does the order of the
  registry.\<close>

definition GetDefaultFactory :: "bool \<Rightarrow> 'd registry \<Rightarrow> 'd factory result" where
  "GetDefaultFactory instanceRequired drivers =
     (if drivers = [] then Err (Errorf ''no drivers available'' [])
      else
        let dd = filter (\<lambda>f. \<not> (instanceRequired \<and> \<not> fa_allows_instances f)) (map snd drivers)
        in case sort_key fa_priority dd of
             [] \<Rightarrow> Err (Panic ''index out of range'')
           | f # _ \<Rightarrow> Ok f)"

text \<open>\<open>validNames[i] = f.Name()\<close> after \<open>i++\<close>: \<open>len\<close> is the length of the slice.\<close>

fun find_factory :: "nat \<Rightarrow> string \<Rightarrow> bool \<Rightarrow> nat \<Rightarrow> 'd registry \<Rightarrow> 'd factory option result" where
  "find_factory len name instanceRequired i [] = Ok None"
| "find_factory len name instanceRequired i ((_, f) # fs) =
     (let i = i + 1 in
      if instanceRequired \<and> \<not> fa_allows_instances f then find_factory len name instanceRequired i fs
      else if fa_name f = name then Ok (Some f)
      else if i < len then find_factory len name instanceRequired i fs
      else Err (Panic ''index out of range''))"

definition GetFactory :: "string \<Rightarrow> bool \<Rightarrow> 'd registry \<Rightarrow> 'd factory option result" where
  "GetFactory name instanceRequired drivers =
     find_factory (length drivers) name instanceRequired 0 drivers"

definition GetFactories :: "'d registry \<Rightarrow> 'd registry" where
  "GetFactories drivers = drivers"

definition GetDriver ::
  "'d registry \<Rightarrow> string \<Rightarrow> 'd factory option \<Rightarrow> kube_client_config option \<Rightarrow> string list \<Rightarrow> string \<Rightarrow>
     (string \<times> string) list \<Rightarrow> string \<Rightarrow> 'd result" where
  "GetDriver drivers name f kube flags config do' contextPathHash =
     (let ic = \<lparr>ic_name = name, ic_kube = kube, ic_flags = flags, ic_config_file = config,
                ic_driver_opts = do', ic_context_path_hash = contextPathHash\<rparr> in
      and_then (case f of Some f \<Rightarrow> Ok f | None \<Rightarrow> GetDefaultFactory False drivers) (\<lambda>f. fa_new f ic))"

section \<open>Lemmas\<close>

text \<open>A world with a clock and a context with a deadline. Nothing turns the clock back.\<close>

definition timed_sys :: "('w \<Rightarrow> nat) \<Rightarrow> nat \<Rightarrow> 'w sys \<Rightarrow> bool" where
  "timed_sys clock deadline sys \<longleftrightarrow>
     (\<forall>w. sys_done sys w \<longleftrightarrow> deadline \<le> clock w) \<and>
     (\<forall>n w. clock w \<le> clock (sys_sleep sys n w)) \<and>
     (\<forall>n w. clock w \<le> clock (snd (sys_draw sys n w))) \<and>
     (\<forall>w. clock w \<le> clock (snd (sys_now sys w))) \<and>
     (\<forall>w. clock w \<le> clock (snd (sys_id sys w)))"

lemma clock_RandSleep: "timed_sys clock deadline sys \<Longrightarrow> clock w \<le> clock (RandSleep sys n w)"
  unfolding RandSleep_def timed_sys_def
  by (cases "sys_draw sys n w") (metis (mono_tags, lifting) case_prod_conv le_trans snd_conv sum.case sum.exhaust)

text \<open>What a round does, by its cases.\<close>

lemma boot_round_Again:
  assumes "boot_round sys d pw (err, w) = (Again, err', w')"
  obtains (bootstrap) i w1 w2 where "\<not> sys_done sys w" "dr_Info d w = (Ok i, w1)" "in_status i \<noteq> Running"
      "dr_Bootstrap d (send_if pw) w1 = (Some err', w2)" "w' = RandSleep sys 100 w2"
    | (clients) i w1 w2 w3 where "\<not> sys_done sys w" "dr_Info d w = (Ok i, w1)"
      "if in_status i = Running then w2 = w1 else dr_Bootstrap d (send_if pw) w1 = (None, w2)"
      "dr_Clients d w2 = (Err err', w3)" "w' = RandSleep sys 1000 w3"
proof -
  obtain ri w1 where i: "dr_Info d w = (ri, w1)" by fastforce
  obtain rb w2 where b: "(if (case ri of Inr i \<Rightarrow> in_status i \<noteq> Running | _ \<Rightarrow> False)
      then dr_Bootstrap d (send_if pw) w1 else (None, w1)) = (rb, w2)" by fastforce
  obtain rc w3 where c: "dr_Clients d w2 = (rc, w3)" by fastforce
  from assms i b c show thesis
    by (cases ri; cases rb; cases rc)
      (auto simp: boot_round_def split: if_splits intro: bootstrap clients)
qed

lemma boot_round_Return:
  assumes "boot_round sys d pw (err, w) = (Return r, err', w')"
  obtains (timeout) "sys_done sys w" "w' = w" "r = Err (Wrapf err ''timed out trying to bootstrap builder'' [])"
    | (info) e where "dr_Info d w = (Err e, w')" "r = Err e"
    | (clients) i w1 w2 cs where "\<not> sys_done sys w" "dr_Info d w = (Ok i, w1)"
      "if in_status i = Running then w2 = w1 else dr_Bootstrap d (send_if pw) w1 = (None, w2)"
      "dr_Clients d w2 = (Ok cs, w')" "r = Ok cs"
proof -
  obtain ri w1 where i: "dr_Info d w = (ri, w1)" by fastforce
  obtain rb w2 where b: "(if (case ri of Inr i \<Rightarrow> in_status i \<noteq> Running | _ \<Rightarrow> False)
      then dr_Bootstrap d (send_if pw) w1 else (None, w1)) = (rb, w2)" by fastforce
  obtain rc w3 where c: "dr_Clients d w2 = (rc, w3)" by fastforce
  from assms i b c show thesis
    by (cases ri; cases rb; cases rc)
      (auto simp: boot_round_def split: if_splits intro: timeout info clients)
qed

text \<open>Asking for the status takes time, and no call turns the clock back.\<close>

definition timed_driver :: "('w \<Rightarrow> nat) \<Rightarrow> 'w logger \<Rightarrow> 'w driver \<Rightarrow> bool" where
  "timed_driver clock l d \<longleftrightarrow>
     (\<forall>w. clock w < clock (snd (dr_Info d w))) \<and>
     (\<forall>w. clock w \<le> clock (snd (dr_Bootstrap d l w))) \<and>
     (\<forall>w. clock w \<le> clock (snd (dr_Clients d w)))"

lemma boot_round_clock:
  assumes "timed_sys clock deadline sys" and "timed_driver clock (send_if pw) d"
    and "boot_round sys d pw (err, w) = (Again, err', w')"
  shows "clock w < clock w' \<and> clock w < deadline"
proof -
  note time = assms(2)[unfolded timed_driver_def]
  from assms(3) show ?thesis
  proof (cases rule: boot_round_Again)
    case (bootstrap i w1 w2)
    have "clock w < clock w1" "clock w1 \<le> clock w2" "clock w2 \<le> clock w'"
      using time[THEN conjunct1, rule_format, of w] time[THEN conjunct2, THEN conjunct1, rule_format, of w1]
        clock_RandSleep[OF assms(1)] bootstrap by auto
    then show ?thesis using assms(1) bootstrap(1) by (auto simp: timed_sys_def)
  next
    case (clients i w1 w2 w3)
    have "clock w < clock w1" "clock w1 \<le> clock w2" "clock w2 \<le> clock w3" "clock w3 \<le> clock w'"
      using time[THEN conjunct1, rule_format, of w] time[THEN conjunct2, THEN conjunct1, rule_format, of w1]
        time[THEN conjunct2, THEN conjunct2, rule_format, of w2]
        clock_RandSleep[OF assms(1)] clients by (auto split: if_splits)
    then show ?thesis using assms(1) clients(1) by (auto simp: timed_sys_def)
  qed
qed

lemma find_factory_eq:
  "i + length fs = n \<Longrightarrow> find_factory n name inst i fs =
     (case find (\<lambda>(_, f). (inst \<longrightarrow> fa_allows_instances f) \<and> fa_name f = name) fs of
        Some (_, f) \<Rightarrow> Ok (Some f)
      | None \<Rightarrow>
          if fs \<noteq> [] \<and> (inst \<longrightarrow> fa_allows_instances (snd (last fs)))
          then Err (Panic ''index out of range'') else Ok None)"
proof (induction fs arbitrary: i)
  case (Cons kf fs)
  obtain k f where kf: "kf = (k, f)" by fastforce
  note IH = Cons.IH[of "i + 1"]
  consider "inst \<and> \<not> fa_allows_instances f" | "inst \<longrightarrow> fa_allows_instances f" "fa_name f = name"
    | "inst \<longrightarrow> fa_allows_instances f" "fa_name f \<noteq> name" by blast
  then show ?case
    using IH Cons.prems by cases (cases "fs = []"; force simp: kf)+
qed simp

lemma Boot_result:
  assumes "timed_sys clock deadline sys" and "timed_driver clock (send_if pw) d"
  shows "\<exists>r w'. Boot sys d pw w = Some (r, w') \<and>
    (case r of
       Inl e \<Rightarrow> (\<exists>w1. dr_Info d w1 = (Err e, w')) \<or>
              (\<exists>e'. e = Wrapf e' ''timed out trying to bootstrap builder'' [] \<and> deadline \<le> clock w')
     | Inr clients \<Rightarrow> \<exists>w1 w2 w3 i. clock w1 < deadline \<and> dr_Info d w1 = (Ok i, w2) \<and>
         (if in_status i = Running then w3 = w2 else dr_Bootstrap d (send_if pw) w2 = (None, w3)) \<and>
         dr_Clients d w3 = (Ok clients, w'))"
proof -
  let ?start = "(Errorf ''timeout before starting'' [], w)"
  have "\<exists>r s. loop (boot_round sys d pw) ?start = Some (r, s)"
  proof (rule loop_returns[where I = "\<lambda>_. True" and m = "\<lambda>(_, w). deadline - clock w"])
    fix s s' assume "boot_round sys d pw s = (Again, s')"
    then show "True \<and> (case s' of (_, w) \<Rightarrow> deadline - clock w) < (case s of (_, w) \<Rightarrow> deadline - clock w)"
      using boot_round_clock[OF assms] by (cases s; cases s') fastforce
  qed simp
  then obtain r e w' where run: "loop (boot_round sys d pw) ?start = Some (r, e, w')" by auto
  then obtain err w1 where last: "boot_round sys d pw (err, w1) = (Return r, e, w')"
    by (rule loop_last[where I = "\<lambda>_. True"]) auto
  then have "case r of
       Inl e \<Rightarrow> (\<exists>w1. dr_Info d w1 = (Err e, w')) \<or>
              (\<exists>e'. e = Wrapf e' ''timed out trying to bootstrap builder'' [] \<and> deadline \<le> clock w')
     | Inr clients \<Rightarrow> \<exists>w1 w2 w3 i. clock w1 < deadline \<and> dr_Info d w1 = (Ok i, w2) \<and>
         (if in_status i = Running then w3 = w2 else dr_Bootstrap d (send_if pw) w2 = (None, w3)) \<and>
         dr_Clients d w3 = (Ok clients, w')"
  proof (cases rule: boot_round_Return)
    case timeout
    then show ?thesis using assms(1) by (auto simp: timed_sys_def)
  next
    case (info e)
    then show ?thesis by auto
  next
    case (clients i w1' w2 cs)
    moreover have "clock w1 < deadline" using clients(1) assms(1) by (auto simp: timed_sys_def)
    ultimately show ?thesis unfolding clients(5) sum.case
      by (intro exI[of _ w1] exI[of _ w1'] exI[of _ w2] exI[of _ i] conjI) simp_all
  qed
  with run show ?thesis by (auto simp: Boot_def)
qed


section \<open>The interface of the features\<close>

text \<open>
  What a build relies on when it asks a driver for its features: the exporters and the cache
  that it always offers, and that a builder loads into one container runtime at most.
\<close>

locale feature_provider =
  fixes features :: "'w \<Rightarrow> (feature \<rightharpoonup> bool) \<times> 'w"
  assumes oci: "fst (features w) OCIExporter = Some True"
    and cache: "fst (features w) CacheExport = Some True"
    and multi: "fst (features w) MultiPlatform = Some True"
    and one_runtime: "\<not> (fst (features w) DockerExporter = Some True \<and> fst (features w) ContainerdExporter = Some True)"

section \<open>Properties\<close>


text \<open>A driver that is up on the second look, in a world that is a clock.\<close>

definition ticking_sys :: "nat \<Rightarrow> nat sys" where
  "ticking_sys deadline =
     \<lparr>sys_now = (\<lambda>t. (int t, t)), sys_id = (\<lambda>t. (''id'', t)), sys_draw = (\<lambda>n t. (Ok 0, t)),
      sys_sleep = (\<lambda>n t. t + n), sys_done = (\<lambda>t. deadline \<le> t), sys_text = (\<lambda>e. ''failed'')\<rparr>"

definition example_clients :: builder_clients where
  "example_clients =
     \<lparr>bc_chosen = \<lparr>nc_name = ''pod-0'', nc_addr = ''10.0.0.1'',
        nc_client = \<lparr>x_namespace = ''default'', x_pod = ''pod-0'', x_container = ''buildkitd'', x_cmd = []\<rparr>\<rparr>,
      bc_others = []\<rparr>"

definition slow_driver :: "nat driver" where
  "slow_driver =
     \<lparr>dr_Bootstrap = (\<lambda>l t. (None, t)), dr_Info = (\<lambda>t. (Ok \<lparr>in_status = Running, in_nodes = []\<rparr>, t + 1)),
      dr_Stop = (\<lambda>f t. (None, t)), dr_Rm = (\<lambda>f t. (None, t)),
      dr_Clients = (\<lambda>t. (if t < 10 then Err (External ''not yet'') else Ok example_clients, t + 5)),
      dr_Features = (\<lambda>t. (Map.empty, t)), dr_List = (\<lambda>t. (Ok [], t)),
      dr_RuntimeSockProxy = (\<lambda>n t. (Err (External ''none''), t)), dr_GetVersion = (\<lambda>t. (Ok ''v1'', t)),
      dr_GetAuthHintMessage = (\<lambda>t. []),
      dr_Factory_Name = ''slow'', dr_GetAuthProvider = (\<lambda>n t. n), dr_GetAuthWrapper = (\<lambda>n t. n)\<rparr>"

lemma ticking_timed: "timed_sys (\<lambda>t. t) deadline (ticking_sys deadline)"
  by (simp add: timed_sys_def ticking_sys_def)


text \<open>
  Looking up a driver by its name finds it, and nothing else, when it is registered and
  allowed; otherwise the code does not answer nil, as its caller expects: it panics with an
  index out of range, whenever the driver visited last is one that it looks at.
\<close>

theorem GetFactory_spec:
  "GetFactory name inst fs =
     (case find (\<lambda>(_, f). (inst \<longrightarrow> fa_allows_instances f) \<and> fa_name f = name) fs of
        Some (_, f) \<Rightarrow> Ok (Some f)
      | None \<Rightarrow>
          if fs \<noteq> [] \<and> (inst \<longrightarrow> fa_allows_instances (snd (last fs)))
          then Err (Panic ''index out of range'') else Ok None)"
  unfolding GetFactory_def by (rule find_factory_eq) simp

theorem GetFactory_spec_example:
  "GetFactory ''docker'' True [(''kubernetes'', \<lparr>fa_name = ''kubernetes'', fa_usage = [], fa_priority = 40,
     fa_allows_instances = True, fa_new = (\<lambda>_. Ok (0 :: nat))\<rparr>)] = Err (Panic ''index out of range'')"
  by (subst GetFactory_spec) simp

definition registry_wf :: "'d registry \<Rightarrow> bool" where
  "registry_wf fs \<longleftrightarrow> distinct (map fst fs) \<and> list_all (\<lambda>(k, f). k = fa_name f) fs"

text \<open>
  Registering keeps the registry sound (one factory for a name, under its own name), and
  the factory is then the one found under its name, in whatever order the drivers are visited.
\<close>

theorem Register_GetFactory:
  assumes "registry_wf fs" and "mset visited = mset (Register f fs)" and "inst \<longrightarrow> fa_allows_instances f"
  shows "registry_wf (Register f fs) \<and> GetFactory (fa_name f) inst visited = Ok (Some f)"
proof
  have dist: "distinct (map fst (Register f fs))"
    using assms(1) by (simp add: Register_def registry_wf_def distinct_update)
  have keys: "k = fa_name g" if "(k, g) \<in> set (Register f fs)" for k g
  proof (cases "k = fa_name f")
    case True
    then have "map_of (Register f fs) k = Some g" using dist that by (simp add: map_of_eq_Some_iff)
    then show ?thesis using True by (simp add: Register_def update_conv)
  next
    case False
    have "map_of (Register f fs) k = Some g" using dist that by (simp add: map_of_eq_Some_iff)
    then have "map_of fs k = Some g" using False by (simp add: Register_def update_conv)
    then have "(k, g) \<in> set fs" by (rule map_of_SomeD)
    then show ?thesis using assms(1) by (auto simp: registry_wf_def list_all_iff)
  qed
  show "registry_wf (Register f fs)" using dist keys by (auto simp: registry_wf_def list_all_iff)
  have vis: "set visited = set (Register f fs)" using assms(2) by (metis mset_eq_setD)
  have "map_of (Register f fs) (fa_name f) = Some f" by (simp add: Register_def update_conv)
  then have mem: "(fa_name f, f) \<in> set visited" unfolding vis by (rule map_of_SomeD)
  have only: "g = f" if "(k, g) \<in> set visited" "fa_name g = fa_name f" for k g
    using dist mem that keys unfolding vis by (metis map_of_eq_Some_iff option.inject)
  obtain k g where kg: "find (\<lambda>(_, g). (inst \<longrightarrow> fa_allows_instances g) \<and> fa_name g = fa_name f) visited = Some (k, g)"
    using mem assms(3) by (cases "find (\<lambda>(_, g). (inst \<longrightarrow> fa_allows_instances g) \<and> fa_name g = fa_name f) visited")
      (auto simp: find_None_iff)
  then have "(k, g) \<in> set visited" "fa_name g = fa_name f" by (auto simp: find_Some_iff in_set_conv_nth)
  then have "g = f" by (rule only)
  with kg show "GetFactory (fa_name f) inst visited = Ok (Some f)"
    unfolding GetFactory_def by (subst find_factory_eq) simp_all
qed

definition example_factory :: "string \<Rightarrow> int \<Rightarrow> nat factory" where
  "example_factory n p =
     \<lparr>fa_name = n, fa_usage = [], fa_priority = p, fa_allows_instances = True, fa_new = (\<lambda>_. Ok 0)\<rparr>"

theorem Register_GetFactory_example:
  "GetFactory ''b'' True [(''b'', example_factory ''b'' 2), (''a'', example_factory ''a'' 1)] =
     Ok (Some (example_factory ''b'' 2))"
  using Register_GetFactory[where fs = "[(''a'', example_factory ''a'' 1)]" and f = "example_factory ''b'' 2" and inst = True
      and visited = "[(''b'', example_factory ''b'' 2), (''a'', example_factory ''a'' 1)]"]
  by (simp add: registry_wf_def example_factory_def Register_def)

text \<open>
  The default driver is one of least priority among those allowed; there is none exactly
  when no driver is registered, and the code panics when drivers are registered but none is
  allowed.
\<close>

theorem GetDefaultFactory_spec:
  "case GetDefaultFactory inst fs of
     Inr f \<Rightarrow> f \<in> snd ` set fs \<and> (inst \<longrightarrow> fa_allows_instances f) \<and>
       list_all (\<lambda>(_, g). (inst \<longrightarrow> fa_allows_instances g) \<longrightarrow> fa_priority f \<le> fa_priority g) fs
   | Inl e \<Rightarrow> e = (if fs = [] then Errorf ''no drivers available'' [] else Panic ''index out of range'') \<and>
       list_all (\<lambda>(_, g). inst \<and> \<not> fa_allows_instances g) fs"
proof -
  let ?ok = "\<lambda>g. inst \<longrightarrow> fa_allows_instances g"
  let ?dd = "filter (\<lambda>f. \<not> (inst \<and> \<not> fa_allows_instances f)) (map snd fs)"
  have mem: "g \<in> set ?dd" if "(k, g) \<in> set fs" "?ok g" for k g
    using that by (auto intro: rev_image_eqI)
  have from_dd: "g \<in> snd ` set fs \<and> ?ok g" if "g \<in> set ?dd" for g using that by auto
  show ?thesis
  proof (cases "sort_key fa_priority ?dd")
    case Nil
    have "set (sort_key fa_priority ?dd) = {}" unfolding Nil by simp
    then have "set ?dd = {}" by (simp only: set_sort)
    then have "inst \<and> \<not> fa_allows_instances g" if "(k, g) \<in> set fs" for k g
      using mem[OF that(1)] by fastforce
    then have "list_all (\<lambda>(_, g). inst \<and> \<not> fa_allows_instances g) fs"
      unfolding list_all_iff by blast
    then show ?thesis using Nil by (simp add: GetDefaultFactory_def)
  next
    case (Cons f rest)
    have sorted: "sorted (map fa_priority (f # rest))" unfolding Cons[symmetric] by (rule sorted_sort_key)
    have members: "set (f # rest) = set ?dd" unfolding Cons[symmetric] by simp
    then have f: "f \<in> snd ` set fs" "?ok f" using from_dd[of f] by auto
    have "fa_priority f \<le> fa_priority g" if "(k, g) \<in> set fs" "?ok g" for k g
    proof -
      have "g \<in> set (f # rest)" unfolding members by (rule mem[OF that])
      then show ?thesis using sorted by auto
    qed
    moreover have "GetDefaultFactory inst fs = Ok f" using Cons f(1) by (auto simp: GetDefaultFactory_def)
    ultimately show ?thesis using f by (auto simp: list_all_iff)
  qed
qed

theorem GetDefaultFactory_spec_example:
  "\<exists>f. GetDefaultFactory True [(''a'', example_factory ''a'' 40), (''b'', example_factory ''b'' 10)] = Ok f \<and> fa_priority f \<le> 10"
proof -
  let ?fs = "[(''a'', example_factory ''a'' 40), (''b'', example_factory ''b'' 10)]"
  show ?thesis
    using GetDefaultFactory_spec[where inst = True and fs = "?fs"]
    by (cases "GetDefaultFactory True ?fs") (auto simp: example_factory_def)
qed

end
