(* ===== verification/HashRing.thy ===== *)
theory HashRing
  imports GoStrings
begin

text \<open>
  The consistent-hash ring that sticky load balancing rests on:
  \<open>vendor/github.com/serialx/hashring/hashring.go\<close>, the operations \<open>New\<close> and
  \<open>GetNode\<close>. The MD5 digest is a parameter (any function from strings to bytes).
  The interface \<open>node_ring\<close> states what the pod chooser needs of a ring, and is
  interpreted on this ring at the end.
\<close>

unbundle bit_operations_syntax

section \<open>The ring\<close>

type_synonym hash_key = "32 word"
type_synonym digest_fun = "string \<Rightarrow> 8 word list"

record hash_ring =
  hr_ring :: "hash_key \<rightharpoonup> string"
  hr_sorted_keys :: "hash_key list"
  hr_nodes :: "string list"
  hr_weights :: "string \<rightharpoonup> nat"

definition hashVal :: "8 word list \<Rightarrow> hash_key" where
  "hashVal b =
     push_bit 24 (ucast (b ! 3)) OR push_bit 16 (ucast (b ! 2)) OR push_bit 8 (ucast (b ! 1)) OR ucast (b ! 0)"

definition GenKey :: "digest_fun \<Rightarrow> string \<Rightarrow> hash_key" where
  "GenKey md5 key = hashVal (take 4 (md5 key))"

text \<open>The three points that one replica \<open>j\<close> of a node puts on the circle.\<close>

definition replica_keys :: "digest_fun \<Rightarrow> string \<Rightarrow> nat \<Rightarrow> hash_key list" where
  "replica_keys md5 node j =
     (let b = md5 (node @ ''-'' @ nat_digits j) in
      map (\<lambda>i. hashVal (take 4 (drop (i * 4) b))) [0..<3])"

definition node_keys :: "digest_fun \<Rightarrow> string \<Rightarrow> nat \<Rightarrow> hash_key list" where
  "node_keys md5 node factor = concat (map (replica_keys md5 node) [0..<factor])"

text \<open>The first loop of \<open>generateCircle\<close>: the total weight; a node without one gets 1.\<close>

fun total_weights :: "string list \<Rightarrow> nat \<Rightarrow> (string \<rightharpoonup> nat) \<Rightarrow> nat \<times> (string \<rightharpoonup> nat)" where
  "total_weights [] tot w = (tot, w)"
| "total_weights (n # ns) tot w =
     (case w n of
        Some x \<Rightarrow> total_weights ns (tot + x) w
      | None \<Rightarrow> total_weights ns (tot + 1) (w(n \<mapsto> 1)))"

text \<open>The second loop: the points of every node, a later node overwriting an earlier one.\<close>

definition ring_factor :: "nat \<Rightarrow> nat \<Rightarrow> nat \<Rightarrow> nat" where
  "ring_factor len weight tot = (40 * len * weight) div tot"

fun place_keys :: "string \<Rightarrow> hash_key list \<Rightarrow> (hash_key \<rightharpoonup> string) \<Rightarrow> hash_key \<rightharpoonup> string" where
  "place_keys n [] ring = ring"
| "place_keys n (k # ks) ring = place_keys n ks (ring(k \<mapsto> n))"

fun place_nodes ::
  "digest_fun \<Rightarrow> (string \<Rightarrow> nat) \<Rightarrow> string list \<Rightarrow> (hash_key \<rightharpoonup> string) \<times> hash_key list \<Rightarrow>
     (hash_key \<rightharpoonup> string) \<times> hash_key list" where
  "place_nodes md5 factor [] (ring, keys) = (ring, keys)"
| "place_nodes md5 factor (n # ns) (ring, keys) =
     (let ks = node_keys md5 n (factor n)
      in place_nodes md5 factor ns (place_keys n ks ring, keys @ ks))"

definition generateCircle :: "digest_fun \<Rightarrow> hash_ring \<Rightarrow> hash_ring" where
  "generateCircle md5 h =
     (let (tot, w) = total_weights (hr_nodes h) 0 (hr_weights h);
          factor = (\<lambda>n. ring_factor (length (hr_nodes h)) (case w n of Some x \<Rightarrow> x | None \<Rightarrow> 0) tot);
          (ring, keys) = place_nodes md5 factor (hr_nodes h) (hr_ring h, hr_sorted_keys h)
      in h\<lparr>hr_ring := ring, hr_sorted_keys := sort keys, hr_weights := w\<rparr>)"

definition New :: "digest_fun \<Rightarrow> string list \<Rightarrow> hash_ring" where
  "New md5 nodes =
     generateCircle md5 \<lparr>hr_ring = Map.empty, hr_sorted_keys = [], hr_nodes = nodes, hr_weights = Map.empty\<rparr>"

text \<open>\<open>sort.Search\<close> on the sorted keys: the first position with a key beyond \<open>k\<close>.\<close>

definition search_keys :: "hash_key list \<Rightarrow> hash_key \<Rightarrow> nat" where
  "search_keys keys k = length (takeWhile (\<lambda>x. \<not> x > k) keys)"

definition GetNodePos :: "digest_fun \<Rightarrow> hash_ring \<Rightarrow> string \<Rightarrow> nat option" where
  "GetNodePos md5 h s =
     (if hr_ring h = Map.empty then None
      else let pos = search_keys (hr_sorted_keys h) (GenKey md5 s)
           in if pos = length (hr_sorted_keys h) then Some 0 else Some pos)"

definition GetNode :: "digest_fun \<Rightarrow> hash_ring \<Rightarrow> string \<Rightarrow> string option" where
  "GetNode md5 h s =
     (case GetNodePos md5 h s of
        None \<Rightarrow> None
      | Some pos \<Rightarrow> Some (case hr_ring h (hr_sorted_keys h ! pos) of Some n \<Rightarrow> n | None \<Rightarrow> []))"

text \<open>The one way in which the program uses the ring.\<close>

definition ring_get :: "digest_fun \<Rightarrow> string list \<Rightarrow> string \<Rightarrow> string option" where
  "ring_get md5 nodes key = GetNode md5 (New md5 nodes) key"

section \<open>The ring of \<open>New\<close>\<close>

text \<open>Every node has weight 1, so it puts 40 replicas on the circle, however many nodes
  there are.\<close>

lemma total_weights_unit:
  assumes "\<forall>n x. w n = Some x \<longrightarrow> x = 1"
  shows "fst (total_weights ns t w) = t + length ns \<and>
    (\<forall>n \<in> set ns. snd (total_weights ns t w) n = Some 1) \<and>
    (\<forall>n. w n \<noteq> None \<longrightarrow> snd (total_weights ns t w) n = Some 1)"
  using assms
proof (induction ns arbitrary: t w)
  case Nil
  then show ?case by auto
next
  case (Cons m ns)
  show ?case
  proof (cases "w m")
    case None
    have "\<forall>n x. (w(m \<mapsto> 1)) n = Some x \<longrightarrow> x = 1" using Cons.prems by simp
    then have "fst (total_weights ns (t + 1) (w(m \<mapsto> 1))) = (t + 1) + length ns \<and>
      (\<forall>n \<in> set ns. snd (total_weights ns (t + 1) (w(m \<mapsto> 1))) n = Some 1) \<and>
      (\<forall>n. (w(m \<mapsto> 1)) n \<noteq> None \<longrightarrow> snd (total_weights ns (t + 1) (w(m \<mapsto> 1))) n = Some 1)"
      by (rule Cons.IH)
    with None show ?thesis by (auto simp del: not_None_eq)
  next
    case (Some x)
    then have "x = 1" using Cons.prems by blast
    with Cons.IH[OF Cons.prems, where t = "t + 1"] Some show ?thesis by simp
  qed
qed

lemma New_factor:
  assumes "total_weights ns 0 Map.empty = (tot, w)" and "n \<in> set ns"
  shows "ring_factor (length ns) (case w n of Some x \<Rightarrow> x | None \<Rightarrow> 0) tot = 40"
proof -
  have "tot = length ns" "w n = Some 1"
    using total_weights_unit[of Map.empty ns 0] assms by auto
  moreover have "0 < length ns" using assms(2) by (rule length_pos_if_in_set)
  ultimately show ?thesis by (simp add: ring_factor_def)
qed

lemma place_nodes_cong:
  "(\<And>n. n \<in> set ns \<Longrightarrow> f n = g n) \<Longrightarrow> place_nodes md5 f ns rk = place_nodes md5 g ns rk"
  by (induction ns arbitrary: rk) (auto simp: Let_def)

abbreviation points :: "digest_fun \<Rightarrow> string \<Rightarrow> hash_key list" where
  "points md5 n \<equiv> node_keys md5 n 40"

lemma New_eq:
  "New md5 ns =
     (let (ring, keys) = place_nodes md5 (\<lambda>_. 40) ns (Map.empty, []) in
      \<lparr>hr_ring = ring, hr_sorted_keys = sort keys, hr_nodes = ns,
       hr_weights = snd (total_weights ns 0 Map.empty)\<rparr>)"
proof -
  obtain tot w where tw: "total_weights ns 0 Map.empty = (tot, w)" by fastforce
  have "place_nodes md5 (\<lambda>n. ring_factor (length ns) (case w n of Some x \<Rightarrow> x | None \<Rightarrow> 0) tot) ns (Map.empty, [])
    = place_nodes md5 (\<lambda>_. 40) ns (Map.empty, [])"
    by (rule place_nodes_cong) (rule New_factor[OF tw])
  then show ?thesis by (simp add: New_def generateCircle_def tw split: prod.splits)
qed

lemma place_keys_eq: "place_keys n ks ring = (\<lambda>k. if k \<in> set ks then Some n else ring k)"
  by (induction ks arbitrary: ring) (auto simp: fun_eq_iff)

lemma place_nodes_keys:
  "snd (place_nodes md5 f ns (ring, keys)) = keys @ concat (map (\<lambda>n. node_keys md5 n (f n)) ns)"
  by (induction ns arbitrary: ring keys) (auto simp: Let_def)

text \<open>A point belongs to the last node, in the order of the list, that has it.\<close>

lemma place_nodes_ring:
  "fst (place_nodes md5 f ns (ring, keys)) k =
     (case filter (\<lambda>n. k \<in> set (node_keys md5 n (f n))) ns of
        [] \<Rightarrow> ring k | ms \<Rightarrow> Some (last ms))"
  by (induction ns arbitrary: ring keys)
    (auto simp: Let_def place_keys_eq split: list.splits)

definition ring_keys :: "digest_fun \<Rightarrow> string list \<Rightarrow> hash_key set" where
  "ring_keys md5 ns = (\<Union>n \<in> set ns. set (points md5 n))"

lemma points_not_Nil [simp]: "points md5 n \<noteq> []"
proof -
  have "replica_keys md5 n 0 \<noteq> []" by (simp add: replica_keys_def Let_def)
  then show ?thesis unfolding node_keys_def by fastforce
qed

lemma ring_keys_finite [simp]: "finite (ring_keys md5 ns)"
  by (simp add: ring_keys_def)

lemma ring_keys_empty_iff [simp]: "ring_keys md5 ns = {} \<longleftrightarrow> ns = []"
  by (cases ns) (auto simp: ring_keys_def)

lemma New_sel:
  "set (hr_sorted_keys (New md5 ns)) = ring_keys md5 ns"
  "sorted (hr_sorted_keys (New md5 ns))"
  "hr_ring (New md5 ns) k =
     (case filter (\<lambda>n. k \<in> set (points md5 n)) ns of [] \<Rightarrow> None | ms \<Rightarrow> Some (last ms))"
  using place_nodes_keys[of md5 "\<lambda>_. 40" ns Map.empty "[]"]
    place_nodes_ring[of md5 "\<lambda>_. 40" ns Map.empty "[]" k]
  by (auto simp: New_eq ring_keys_def split: prod.splits)

section \<open>The owner of a key\<close>

text \<open>Clockwise successor on the circle: the least point beyond the key, else the least.\<close>

definition successor :: "hash_key set \<Rightarrow> hash_key \<Rightarrow> hash_key" where
  "successor S k = (if \<exists>q \<in> S. q > k then Min {q \<in> S. q > k} else Min S)"

lemma successor_in: "finite S \<Longrightarrow> S \<noteq> {} \<Longrightarrow> successor S k \<in> S"
proof (cases "\<exists>q \<in> S. q > k")
  case True
  assume "finite S"
  then have "Min {q \<in> S. q > k} \<in> {q \<in> S. q > k}" using True by (intro Min_in) auto
  with True show ?thesis by (simp add: successor_def)
qed (simp add: successor_def)

text \<open>Removing other points does not move the successor.\<close>

lemma successor_subset:
  assumes "finite S" "T \<subseteq> S" "successor S k \<in> T"
  shows "successor T k = successor S k"
proof -
  have T: "finite T" "T \<noteq> {}" using assms finite_subset by auto
  show ?thesis
  proof (cases "\<exists>q \<in> S. q > k")
    case True
    let ?m = "Min {q \<in> S. q > k}"
    have "?m \<in> {q \<in> S. q > k}" using True assms(1) by (intro Min_in) auto
    then have m: "?m \<in> T" "?m > k" using assms(3) True by (auto simp: successor_def)
    have "Min {q \<in> T. q > k} = ?m"
    proof (rule Min_eqI)
      show "finite {q \<in> T. q > k}" using T by simp
      show "?m \<le> y" if "y \<in> {q \<in> T. q > k}" for y using that assms by (intro Min_le) auto
      show "?m \<in> {q \<in> T. q > k}" using m by simp
    qed
    then show ?thesis using True m by (auto simp: successor_def)
  next
    case False
    then have "Min S \<in> T" using assms(3) by (simp add: successor_def)
    then have "Min T = Min S" using T assms by (intro Min_eqI) auto
    moreover have "\<not> (\<exists>q \<in> T. q > k)" using False assms(2) by blast
    ultimately show ?thesis using False by (simp add: successor_def)
  qed
qed

lemma sorted_search:
  assumes "sorted ks" "ks \<noteq> []"
  shows "ks ! (let p = search_keys ks k in if p = length ks then 0 else p) = successor (set ks) k"
proof (cases "search_keys ks k = length ks")
  case True
  then have "takeWhile (\<lambda>x. \<not> x > k) ks = ks"
    unfolding search_keys_def by (metis takeWhile_eq_take take_all order_refl)
  then have "\<not> (\<exists>q \<in> set ks. q > k)" by (metis set_takeWhileD)
  moreover have "Min (set ks) = ks ! 0"
    using assms by (intro Min_eqI) (auto simp: sorted_iff_nth_mono in_set_conv_nth)
  ultimately show ?thesis using True by (simp add: successor_def)
next
  case False
  let ?p = "search_keys ks k"
  have p: "?p < length ks" using False length_takeWhile_le[of "\<lambda>x. \<not> x > k" ks]
    by (simp add: search_keys_def)
  then have gt: "ks ! ?p > k"
    using nth_length_takeWhile[of "\<lambda>x. \<not> x > k" ks] by (simp add: search_keys_def)
  have "Min {q \<in> set ks. q > k} = ks ! ?p"
  proof (rule Min_eqI)
    show "finite {q \<in> set ks. q > k}" by simp
    show "ks ! ?p \<in> {q \<in> set ks. q > k}" using p gt by simp
    show "ks ! ?p \<le> y" if "y \<in> {q \<in> set ks. q > k}" for y
    proof -
      from that obtain i where i: "i < length ks" "ks ! i = y" "y > k" by (auto simp: in_set_conv_nth)
      have "\<not> i < ?p"
      proof
        assume "i < ?p"
        then have "ks ! i \<in> set (takeWhile (\<lambda>x. \<not> x > k) ks)"
          unfolding search_keys_def by (metis nth_mem takeWhile_nth)
        then show False using i by (auto dest: set_takeWhileD)
      qed
      then show ?thesis using assms(1) i by (auto simp: sorted_iff_nth_mono)
    qed
  qed
  with p gt show ?thesis by (auto simp: successor_def Let_def)
qed

lemma ring_get_Nil [simp]: "ring_get md5 [] key = None"
  by (simp add: ring_get_def GetNode_def GetNodePos_def New_eq)

lemma ring_get_eq:
  assumes "ns \<noteq> []"
  shows "ring_get md5 ns key =
    Some (last (filter (\<lambda>n. successor (ring_keys md5 ns) (GenKey md5 key) \<in> set (points md5 n)) ns))"
proof -
  let ?h = "New md5 ns" and ?k = "GenKey md5 key"
  let ?s = "successor (ring_keys md5 ns) ?k"
  have "?s \<in> ring_keys md5 ns" using assms by (intro successor_in) simp_all
  then obtain m where m: "m \<in> set ns" "?s \<in> set (points md5 m)" by (auto simp: ring_keys_def)
  then have ne: "filter (\<lambda>n. ?s \<in> set (points md5 n)) ns \<noteq> []" by (auto simp: filter_empty_conv)
  then have owner: "hr_ring ?h ?s = Some (last (filter (\<lambda>n. ?s \<in> set (points md5 n)) ns))"
    by (simp add: New_sel split: list.splits)
  then have ring: "hr_ring ?h \<noteq> Map.empty" by auto
  have "set (hr_sorted_keys ?h) \<noteq> {}" using assms by (simp add: New_sel)
  then have keys: "hr_sorted_keys ?h \<noteq> []" by simp
  have "hr_sorted_keys ?h ! (let p = search_keys (hr_sorted_keys ?h) ?k in if p = length (hr_sorted_keys ?h) then 0 else p) = ?s"
    using sorted_search[OF New_sel(2) keys] by (simp add: New_sel)
  then show ?thesis
    using ring owner by (simp add: ring_get_def GetNode_def GetNodePos_def Let_def split: if_splits)
qed

section \<open>The interface of a ring, and its provider\<close>

text \<open>
  What a client of a ring relies on: a non-empty ring answers with one of its nodes, and
  taking another node off the ring does not change the answer.
\<close>

locale node_ring =
  fixes get_node :: "string list \<Rightarrow> string \<Rightarrow> string option"
  assumes get_empty: "get_node [] k = None"
    and get_member: "ns \<noteq> [] \<Longrightarrow> \<exists>n \<in> set ns. get_node ns k = Some n"
    and get_stable: "get_node ns k = Some n \<Longrightarrow> x \<noteq> n \<Longrightarrow> get_node (filter (\<lambda>m. m \<noteq> x) ns) k = Some n"
begin

text \<open>The same law read the other way: a node that joins takes keys only for itself.\<close>

lemma get_join:
  assumes "get_node (filter (\<lambda>m. m \<noteq> x) ns) k = Some n"
  shows "get_node ns k = Some n \<or> get_node ns k = Some x"
proof -
  have "ns \<noteq> []" using assms get_empty by auto
  then obtain m where m: "get_node ns k = Some m" using get_member[of ns k] by auto
  show ?thesis
  proof (cases "m = x")
    case False
    have "get_node (filter (\<lambda>m. m \<noteq> x) ns) k = Some m" by (rule get_stable[OF m False[symmetric]])
    with assms m show ?thesis by simp
  next
    case True
    with m show ?thesis by simp
  qed
qed

end

lemma ring_get_stable:
  assumes "ring_get md5 ns k = Some n" and "x \<noteq> n"
  shows "ring_get md5 (filter (\<lambda>m. m \<noteq> x) ns) k = Some n"
proof -
  let ?T = "filter (\<lambda>m. m \<noteq> x) ns" and ?k = "GenKey md5 k"
  let ?has = "\<lambda>s n. s \<in> set (points md5 n)"
  have ns: "ns \<noteq> []" using assms(1) by auto
  let ?s = "successor (ring_keys md5 ns) ?k"
  let ?owners = "filter (?has ?s) ns"
  have "?s \<in> ring_keys md5 ns" using ns by (intro successor_in) simp_all
  then have "?owners \<noteq> []" by (auto simp: ring_keys_def filter_empty_conv)
  moreover have last: "last ?owners = n" using assms(1) ring_get_eq[OF ns] by simp
  ultimately have n: "n \<in> set ?owners" by (metis last_in_set)
  then have nT: "n \<in> set ?T" "?has ?s n" using assms(2) by auto
  have "successor (ring_keys md5 ?T) ?k = ?s"
  proof (rule successor_subset)
    show "ring_keys md5 ?T \<subseteq> ring_keys md5 ns" by (auto simp: ring_keys_def)
    show "?s \<in> ring_keys md5 ?T" using nT by (auto simp: ring_keys_def)
  qed simp
  moreover have "last (filter (?has ?s) ?T) = n"
  proof -
    obtain us where "?owners = us @ [n]"
      using last n by (metis append_butlast_last_id empty_iff empty_set)
    then have "filter (\<lambda>m. m \<noteq> x) ?owners = filter (\<lambda>m. m \<noteq> x) us @ [n]"
      using assms(2) by simp
    moreover have "filter (?has ?s) ?T = filter (\<lambda>m. m \<noteq> x) ?owners"
      by (simp add: conj_commute)
    ultimately show ?thesis by simp
  qed
  moreover have "?T \<noteq> []" using nT(1) by (metis empty_iff empty_set)
  ultimately show ?thesis by (simp add: ring_get_eq)
qed

interpretation ring: node_ring "ring_get md5" for md5
proof unfold_locales
  fix k ns n x
  show "ring_get md5 [] k = None" by simp
  show "\<exists>n \<in> set ns. ring_get md5 ns k = Some n" if "ns \<noteq> []"
  proof -
    let ?s = "successor (ring_keys md5 ns) (GenKey md5 k)"
    have "?s \<in> ring_keys md5 ns" using that by (intro successor_in) simp_all
    then have "filter (\<lambda>n. ?s \<in> set (points md5 n)) ns \<noteq> []"
      by (auto simp: ring_keys_def filter_empty_conv)
    then have "last (filter (\<lambda>n. ?s \<in> set (points md5 n)) ns) \<in> set ns"
      by (metis filter_is_subset last_in_set subsetD)
    then show ?thesis using ring_get_eq[OF that] by simp
  qed
  show "ring_get md5 (filter (\<lambda>m. m \<noteq> x) ns) k = Some n"
    if "ring_get md5 ns k = Some n" "x \<noteq> n"
    using that by (rule ring_get_stable)
qed

end
