(* ===== verification/Manifest.thy ===== *)
theory Manifest
  imports GoStrings
begin

text \<open>
  The Kubernetes objects that the program creates:
  \<open>pkg/driver/kubernetes/manifest/manifest.go\<close> with the version strings of
  \<open>version/version.go\<close>. The API types (\<open>Deployment\<close>, \<open>ConfigMap\<close> and what they
  hold) are records with the members that the program reads or writes; the members that
  only the API server fills in (UIDs, resource versions, status) are there for the driver.
  A Go \<open>int32\<close> is a \<open>32 word\<close>.
\<close>

section \<open>Version strings (version.go)\<close>

text \<open>The linker replaces \<open>Version\<close> in a release build; this is the source's value.\<close>

definition Version :: string where
  "Version = ''v0.0.0+unknown''"

definition DefaultImage :: string where
  "DefaultImage = ''docker.io/moby/buildkit:buildx-stable-1''"

definition DefaultRootlessImage :: string where
  "DefaultRootlessImage = ''docker.io/moby/buildkit:buildx-stable-1-rootless''"

definition GetVersionString :: string where
  "GetVersionString = Version"

section \<open>API objects\<close>

datatype host_path_type = HostPathSocket | HostPathDirectory | HostPathDirectoryOrCreate

datatype volume_source = FromConfigMap string | FromHostPath string host_path_type

record volume =
  vol_name :: string
  vol_source :: volume_source

record volume_mount =
  vm_name :: string
  vm_path :: string
  vm_bidirectional :: bool

text \<open>\<open>c_privileged = None\<close> is a nil \<open>SecurityContext\<close>.\<close>

record container =
  c_name :: string
  c_image :: string
  c_args :: "string list"
  c_privileged :: "bool option"
  c_probe :: "string list"
  c_mounts :: "volume_mount list"
  c_env :: "(string \<times> string) list"

record anti_affinity =
  aa_match :: "string \<rightharpoonup> string"
  aa_topology :: string

record deployment =
  d_api_version :: string
  d_kind :: string
  d_namespace :: string
  d_name :: string
  d_labels :: "string \<rightharpoonup> string"
  d_annotations :: "string \<rightharpoonup> string"
  d_replicas :: "32 word"
  d_selector :: "string \<rightharpoonup> string"
  d_pod_labels :: "string \<rightharpoonup> string"
  d_pod_annotations :: "string \<rightharpoonup> string"
  d_containers :: "container list"
  d_volumes :: "volume list"
  d_affinity :: "anti_affinity list"
  d_uid :: string
  d_resource_version :: string
  d_ready_replicas :: "32 word"

record config_map =
  cm_api_version :: string
  cm_kind :: string
  cm_namespace :: string
  cm_name :: string
  cm_labels :: "string \<rightharpoonup> string"
  cm_annotations :: "string \<rightharpoonup> string"
  cm_data :: "string \<rightharpoonup> string"

section \<open>Building the objects (manifest.go)\<close>

record deployment_opt =
  o_namespace :: string
  o_name :: string
  o_image :: string
  o_replicas :: int
  o_flags :: "string list"
  o_rootless :: bool
  o_worker :: string
  o_containerd_namespace :: string
  o_containerd_sock :: string
  o_docker_sock :: string
  o_runtime :: string
  o_custom_config :: string
  o_env :: "(string \<times> string) list"

definition containerName :: string where
  "containerName = ''buildkitd''"

definition AnnotationKey :: string where
  "AnnotationKey = ''buildkit.mobyproject.org/builder''"

definition labels_of :: "deployment_opt \<Rightarrow> string \<rightharpoonup> string" where
  "labels_of opt =
     [''app'' \<mapsto> o_name opt, ''runtime'' \<mapsto> o_runtime opt, ''worker'' \<mapsto> o_worker opt,
      ''rootless'' \<mapsto> format_bool (o_rootless opt)]"

definition annotations_of :: "deployment_opt \<Rightarrow> string \<rightharpoonup> string" where
  "annotations_of opt = [AnnotationKey \<mapsto> GetVersionString]"

text \<open>The environment is a Go map: the list is the order in which this run visits it.\<close>

definition environments_of :: "deployment_opt \<Rightarrow> (string \<times> string) list" where
  "environments_of opt = o_env opt"

definition mount :: "string \<Rightarrow> string \<Rightarrow> bool \<Rightarrow> volume_mount" where
  "mount n p b = \<lparr>vm_name = n, vm_path = p, vm_bidirectional = b\<rparr>"

definition host_volume :: "string \<Rightarrow> string \<Rightarrow> host_path_type \<Rightarrow> volume" where
  "host_volume n p t = \<lparr>vol_name = n, vol_source = FromHostPath p t\<rparr>"

definition config_volume :: "string \<Rightarrow> string \<Rightarrow> volume" where
  "config_volume n cm = \<lparr>vol_name = n, vol_source = FromConfigMap cm\<rparr>"

text \<open>\<open>d.Spec.Template.Spec.Containers[0].F = ...\<close>: an index error when there is none.\<close>

definition update_container0 :: "(container \<Rightarrow> container) \<Rightarrow> deployment \<Rightarrow> deployment result" where
  "update_container0 f d =
     (case d_containers d of
        [] \<Rightarrow> Err (Panic ''index out of range'')
      | c # cs \<Rightarrow> Ok (d\<lparr>d_containers := f c # cs\<rparr>))"

definition spread_out :: "deployment_opt \<Rightarrow> deployment \<Rightarrow> deployment" where
  "spread_out opt d =
     d\<lparr>d_affinity := [\<lparr>aa_match = labels_of opt, aa_topology = ''kubernetes.io/hostname''\<rparr>]\<rparr>"

definition toRootless :: "deployment \<Rightarrow> deployment result" where
  "toRootless d =
     and_then (update_container0 (\<lambda>c. c\<lparr>c_args := c_args c @ [''--oci-worker-no-process-sandbox''],
                                       c_privileged := None\<rparr>) d) (\<lambda>d.
       Ok (d\<lparr>d_pod_annotations := (d_pod_annotations d)
         (''container.apparmor.security.beta.kubernetes.io/'' @ containerName \<mapsto> ''unconfined'',
          ''container.seccomp.security.alpha.kubernetes.io/'' @ containerName \<mapsto> ''unconfined'')\<rparr>))"

definition containerd_mounts :: "string \<Rightarrow> volume_mount list" where
  "containerd_mounts root =
     [mount ''containerd-sock'' ''/run/containerd/containerd.sock'' False,
      mount ''var-lib-buildkit'' root True,
      mount ''var-lib-containerd'' ''/var/lib/containerd'' True,
      mount ''run-containerd'' ''/run/containerd'' True,
      mount ''var-log'' ''/var/log'' True,
      mount ''tmp'' ''/tmp'' True]"

definition containerd_volumes :: "deployment_opt \<Rightarrow> string \<Rightarrow> volume list" where
  "containerd_volumes opt root =
     [host_volume ''containerd-sock'' (o_containerd_sock opt) HostPathSocket,
      host_volume ''var-lib-buildkit'' root HostPathDirectoryOrCreate,
      host_volume ''var-lib-containerd'' ''/var/lib/containerd'' HostPathDirectory,
      host_volume ''run-containerd'' ''/run/containerd'' HostPathDirectory,
      host_volume ''var-log'' ''/var/log'' HostPathDirectory,
      host_volume ''tmp'' ''/tmp'' HostPathDirectory]"

definition toContainerdWorker :: "deployment \<Rightarrow> deployment_opt \<Rightarrow> deployment result" where
  "toContainerdWorker d opt =
     (let root = ''/var/lib/buildkit/'' @ o_name opt in
      and_then (update_container0 (\<lambda>c. c
           \<lparr>c_args := c_args c @ [''--oci-worker=false'', ''--containerd-worker=true'', ''--root'', root],
            c_mounts := c_mounts c @ containerd_mounts root\<rparr>) d) (\<lambda>d.
        Ok (spread_out opt (d\<lparr>d_volumes := d_volumes d @ containerd_volumes opt root\<rparr>))))"

definition addDockerSockMount :: "deployment \<Rightarrow> deployment_opt \<Rightarrow> deployment result" where
  "addDockerSockMount d opt =
     and_then (update_container0 (\<lambda>c. c
          \<lparr>c_mounts := c_mounts c @ [mount ''docker-sock'' ''/run/docker.sock'' False]\<rparr>) d) (\<lambda>d.
       Ok (spread_out opt (d\<lparr>d_volumes := d_volumes d @
         [host_volume ''docker-sock'' (o_docker_sock opt) HostPathSocket]\<rparr>)))"

definition addCustomConfigMount :: "deployment \<Rightarrow> deployment_opt \<Rightarrow> deployment result" where
  "addCustomConfigMount d opt =
     and_then (update_container0 (\<lambda>c. c
          \<lparr>c_mounts := c_mounts c @ [mount ''custom-config'' ''/etc/config/'' False]\<rparr>) d) (\<lambda>d.
       Ok (d\<lparr>d_volumes := d_volumes d @ [config_volume ''custom-config'' (o_custom_config opt)]\<rparr>))"

definition base_deployment :: "deployment_opt \<Rightarrow> deployment" where
  "base_deployment opt =
     \<lparr>d_api_version = ''apps/v1'', d_kind = ''Deployment'',
      d_namespace = o_namespace opt, d_name = o_name opt,
      d_labels = labels_of opt, d_annotations = annotations_of opt,
      d_replicas = word_of_int (o_replicas opt),
      d_selector = [''app'' \<mapsto> lookup_str (labels_of opt) ''app''],
      d_pod_labels = labels_of opt, d_pod_annotations = Map.empty,
      d_containers =
        [\<lparr>c_name = containerName, c_image = o_image opt, c_args = o_flags opt,
          c_privileged = Some True, c_probe = [''buildctl'', ''debug'', ''workers''],
          c_mounts = [mount ''buildkitd-config'' ''/etc/buildkit/'' False],
          c_env = environments_of opt\<rparr>],
      d_volumes = [config_volume ''buildkitd-config'' (o_name opt)],
      d_affinity = [], d_uid = [], d_resource_version = [], d_ready_replicas = 0\<rparr>"

definition NewDeployment :: "deployment_opt \<Rightarrow> deployment result" where
  "NewDeployment opt =
     and_then (if o_rootless opt then toRootless (base_deployment opt) else Ok (base_deployment opt)) (\<lambda>d.
     and_then (if o_worker opt = ''containerd'' then toContainerdWorker d opt else Ok d) (\<lambda>d.
     and_then (if o_runtime opt = ''docker'' \<and> \<not> o_rootless opt then addDockerSockMount d opt else Ok d) (\<lambda>d.
     if o_custom_config opt \<noteq> [] then addCustomConfigMount d opt else Ok d)))"

definition NewConfigMap :: "deployment_opt \<Rightarrow> string \<Rightarrow> config_map" where
  "NewConfigMap opt contents =
     \<lparr>cm_api_version = ''apps/v1'', cm_kind = ''ConfigMap'',
      cm_namespace = o_namespace opt, cm_name = o_name opt,
      cm_labels = labels_of opt, cm_annotations = annotations_of opt,
      cm_data = [''buildkitd.toml'' \<mapsto> contents]\<rparr>"

section \<open>What the objects satisfy\<close>

text \<open>
  The rules by which the API server and the kubelet accept a deployment: the selector
  selects the pods of its own template, volume names and mount paths are unique, and every
  mount names a volume.
\<close>

definition deployment_wf :: "deployment \<Rightarrow> bool" where
  "deployment_wf d \<longleftrightarrow>
     d_selector d \<subseteq>\<^sub>m d_pod_labels d \<and>
     distinct (map vol_name (d_volumes d)) \<and>
     (\<exists>c. d_containers d = [c] \<and>
        distinct (map vm_path (c_mounts c)) \<and>
        list_all (\<lambda>m. vm_name m \<in> set (map vol_name (d_volumes d))) (c_mounts c))"

definition host_volumes :: "deployment \<Rightarrow> volume list" where
  "host_volumes d = filter (\<lambda>v. case vol_source v of FromHostPath _ _ \<Rightarrow> True | _ \<Rightarrow> False) (d_volumes d)"

text \<open>What \<open>NewDeployment\<close> computes, member by member; every fact about the built object
  follows from this one.\<close>

lemma NewDeployment_eq:
  "NewDeployment opt = Ok ((base_deployment opt)
     \<lparr>d_pod_annotations := (if o_rootless opt then
         [''container.apparmor.security.beta.kubernetes.io/'' @ containerName \<mapsto> ''unconfined'',
          ''container.seccomp.security.alpha.kubernetes.io/'' @ containerName \<mapsto> ''unconfined'']
         else Map.empty),
      d_containers :=
        [\<lparr>c_name = containerName, c_image = o_image opt,
          c_args = o_flags opt
            @ (if o_rootless opt then [''--oci-worker-no-process-sandbox''] else [])
            @ (if o_worker opt = ''containerd''
               then [''--oci-worker=false'', ''--containerd-worker=true'', ''--root'',
                     ''/var/lib/buildkit/'' @ o_name opt] else []),
          c_privileged = (if o_rootless opt then None else Some True),
          c_probe = [''buildctl'', ''debug'', ''workers''],
          c_mounts = [mount ''buildkitd-config'' ''/etc/buildkit/'' False]
            @ (if o_worker opt = ''containerd''
               then containerd_mounts (''/var/lib/buildkit/'' @ o_name opt) else [])
            @ (if o_runtime opt = ''docker'' \<and> \<not> o_rootless opt
               then [mount ''docker-sock'' ''/run/docker.sock'' False] else [])
            @ (if o_custom_config opt \<noteq> []
               then [mount ''custom-config'' ''/etc/config/'' False] else []),
          c_env = environments_of opt\<rparr>],
      d_volumes := [config_volume ''buildkitd-config'' (o_name opt)]
        @ (if o_worker opt = ''containerd''
           then containerd_volumes opt (''/var/lib/buildkit/'' @ o_name opt) else [])
        @ (if o_runtime opt = ''docker'' \<and> \<not> o_rootless opt
           then [host_volume ''docker-sock'' (o_docker_sock opt) HostPathSocket] else [])
        @ (if o_custom_config opt \<noteq> []
           then [config_volume ''custom-config'' (o_custom_config opt)] else []),
      d_affinity := (if o_worker opt = ''containerd'' \<or> o_runtime opt = ''docker'' \<and> \<not> o_rootless opt
        then [\<lparr>aa_match = labels_of opt, aa_topology = ''kubernetes.io/hostname''\<rparr>] else [])\<rparr>)"
  by (simp add: NewDeployment_def toRootless_def toContainerdWorker_def addDockerSockMount_def
      addCustomConfigMount_def update_container0_def base_deployment_def spread_out_def Let_def)

lemma buildkit_root_fresh:
  "''/var/lib/buildkit/'' @ n \<noteq> ''/run/containerd/containerd.sock''"
  "''/var/lib/buildkit/'' @ n \<noteq> ''/var/lib/containerd''"
  "''/var/lib/buildkit/'' @ n \<noteq> ''/run/containerd''"
  "''/var/lib/buildkit/'' @ n \<noteq> ''/var/log''"
  "''/var/lib/buildkit/'' @ n \<noteq> ''/tmp''"
  "''/var/lib/buildkit/'' @ n \<noteq> ''/run/docker.sock''"
  "''/var/lib/buildkit/'' @ n \<noteq> ''/etc/config/''"
  "''/var/lib/buildkit/'' @ n \<noteq> ''/etc/buildkit/''"
  by simp_all

lemma NewDeployment_Ok_wf: "NewDeployment opt = Ok d \<Longrightarrow> deployment_wf d"
proof -
  assume d: "NewDeployment opt = Ok d"
  have sel: "[''app'' \<mapsto> lookup_str (labels_of opt) ''app''] \<subseteq>\<^sub>m labels_of opt"
    by (simp add: map_le_def labels_of_def lookup_str_def)
  have "\<exists>d. NewDeployment opt = Ok d \<and> deployment_wf d"
    using sel
    by (cases "o_worker opt = ''containerd''"; cases "o_runtime opt = ''docker''";
        cases "o_rootless opt"; cases "o_custom_config opt = []")
      (simp_all add: NewDeployment_eq deployment_wf_def base_deployment_def containerd_mounts_def
        containerd_volumes_def mount_def host_volume_def config_volume_def)
  with d show ?thesis by simp
qed

lemma NewDeployment_Ok_sel:
  assumes "NewDeployment opt = Ok d"
  shows "d_name d = o_name opt" "d_labels d = labels_of opt" "d_pod_labels d = labels_of opt"
    "d_replicas d = word_of_int (o_replicas opt)" "d_annotations d = annotations_of opt"
  using assms by (auto simp: NewDeployment_eq base_deployment_def)

text \<open>
  C31: Building the deployment never fails, for any option, and the object is one that
  Kubernetes accepts: its selector matches its own pod template, volume names and mount
  paths are unique, and every mount of the single container names a declared volume.
\<close>

theorem NewDeployment_wf: "\<exists>d. NewDeployment opt = Ok d \<and> deployment_wf d"
  using NewDeployment_Ok_wf by (simp add: NewDeployment_eq)

text \<open>
  C32: What a builder pod may reach of its node follows from the options alone. A rootless
  builder has no security context (never privileged), a builder with root is privileged.
  The host's files are mounted exactly for the containerd worker and, without rootless
  mode, for the docker runtime; the only host path of the latter is the docker socket.
\<close>

theorem NewDeployment_host_access:
  "\<exists>d c. NewDeployment opt = Ok d \<and> d_containers d = [c] \<and>
     c_privileged c = (if o_rootless opt then None else Some True) \<and>
     (host_volumes d \<noteq> [] \<longleftrightarrow>
        o_worker opt = ''containerd'' \<or> o_runtime opt = ''docker'' \<and> \<not> o_rootless opt) \<and>
     (o_worker opt = ''containerd'' \<or>
        set (map vol_source (host_volumes d)) \<subseteq> {FromHostPath (o_docker_sock opt) HostPathSocket})"
  by (auto simp: NewDeployment_eq host_volumes_def containerd_volumes_def host_volume_def
      config_volume_def base_deployment_def)

text \<open>
  The replica count is cut down to 32 bits on its way into the deployment: the object
  asks for the configured number exactly when that number fits into an int32.
\<close>

theorem NewDeployment_replicas:
  "\<exists>d. NewDeployment opt = Ok d \<and>
     (sint (d_replicas d) = o_replicas opt \<longleftrightarrow>
        - (2 ^ 31) \<le> o_replicas opt \<and> o_replicas opt < 2 ^ 31)"
proof -
  have "sint (word_of_int i :: 32 word) = i \<longleftrightarrow> - (2 ^ 31) \<le> i \<and> i < 2 ^ 31" for i
    by (simp add: sint_sbintrunc' signed_take_bit_int_eq_self_iff)
  then show ?thesis by (simp add: NewDeployment_eq base_deployment_def)
qed

end
