(* ===== verification/PodChooser.thy ===== *)
theory PodChooser
  imports HashRing Manifest
begin

text \<open>
  Which builder pod gets the build:
  \<open>pkg/driver/kubernetes/podchooser/podchooser.go\<close>. The pod list comes from the API
  server (a parameter); the random number is a parameter; the sticky chooser uses the
  hash ring of \<open>HashRing\<close> through its interface. The Go interface \<open>PodChooser\<close> is
  the locale \<open>pod_chooser\<close>.
\<close>

record pod =
  p_name :: string
  p_namespace :: string
  p_labels :: "string \<rightharpoonup> string"
  p_containers :: "string list"
  p_phase :: string
  p_message :: string
  p_ip :: string
  p_uid :: string
  p_kind :: string
  p_owners :: "string list"

section \<open>Listing the running pods\<close>

text \<open>
  The two calls into the client library: \<open>metav1.LabelSelectorAsSelector\<close> for one
  label (it fails for a value that is no label), and \<open>PodInterface.List\<close>.
\<close>

record pod_api =
  selector_of :: "string \<Rightarrow> string \<Rightarrow> string result"
  pods_list :: "string \<Rightarrow> pod list result"

text \<open>\<open>sort.Slice\<close> is not stable; the names of pods in one namespace are distinct, so
  the order is determined.\<close>

definition ListRunningPods :: "pod_api \<Rightarrow> deployment \<Rightarrow> pod list result" where
  "ListRunningPods api depl =
     (let name = (if d_name depl = [] then ''buildkit'' else d_name depl) in
      and_then (selector_of api ''app'' name) (\<lambda>selector.
      and_then (pods_list api selector) (\<lambda>items.
        Ok (sort_key p_name (filter (\<lambda>p. p_phase p = ''Running'') items)))))"

section \<open>The random chooser\<close>

definition no_pods_error :: go_error where
  "no_pods_error = Errorf ''no builder pods are running'' []"

text \<open>
  \<open>append(pods[0:n], pods[n+1:]...)\<close> writes into the array of \<open>pods\<close>: the slice that
  it returns and what the array holds afterwards (its last cell keeps its old value).
\<close>

definition append_without :: "nat \<Rightarrow> 'a list \<Rightarrow> 'a list \<times> 'a list" where
  "append_without n xs =
     (let rest = take n xs @ drop (Suc n) xs in (rest, rest @ [last xs]))"

text \<open>
  \<open>return pods[n], append(pods[0:n], pods[n+1:]...), nil\<close>: the Go specification does not
  say whether \<open>pods[n]\<close> is read before or after the call of \<open>append\<close>.
  \<open>index_first\<close> is the choice of the compiler.
\<close>

definition RandomChoosePod :: "bool \<Rightarrow> nat \<Rightarrow> pod list \<Rightarrow> (pod \<times> pod option list) result" where
  "RandomChoosePod index_first rnd pods =
     (if pods = [] then Err no_pods_error
      else
        let n = rnd mod length pods;
            (rest, array) = append_without n pods
        in Ok (if index_first then pods ! n else array ! n, map Some rest))"

section \<open>The sticky chooser\<close>

text \<open>\<open>podMap\<close>: a later pod of the same name overwrites an earlier one.\<close>

definition pod_map :: "pod list \<Rightarrow> string \<rightharpoonup> pod" where
  "pod_map pods = map_of (rev (map (\<lambda>p. (p_name p, p)) pods))"

text \<open>\<open>make([]*corev1.Pod, len(pods)-1)\<close> and the loop that fills it: an unfilled cell is a
  nil pointer, a pod too many an index error.\<close>

definition other_pods :: "pod \<Rightarrow> pod list \<Rightarrow> pod option list result" where
  "other_pods chosen pods =
     (let others = filter (\<lambda>p. p_name p \<noteq> p_name chosen) pods; n = length pods - 1 in
      if length others > n then Err (Panic ''index out of range'')
      else Ok (map Some others @ replicate (n - length others) None))"

definition StickyChoosePod ::
  "(string list \<Rightarrow> string \<Rightarrow> string option) \<Rightarrow> (pod \<times> pod option list) result \<Rightarrow> string \<Rightarrow>
     pod list \<Rightarrow> (pod \<times> pod option list) result" where
  "StickyChoosePod get_node random_choice key pods =
     (if pods = [] then Err no_pods_error
      else
        case get_node (map p_name pods) key of
          None \<Rightarrow> random_choice
        | Some chosen \<Rightarrow>
            (case pod_map pods chosen of
               None \<Rightarrow> Err (Panic ''nil pointer dereference'')
             | Some chosenPod \<Rightarrow>
                 and_then (other_pods chosenPod pods) (\<lambda>others. Ok (chosenPod, others))))"

text \<open>The two choosers as the driver builds them.\<close>

definition sticky_choice ::
  "digest_fun \<Rightarrow> string \<Rightarrow> bool \<Rightarrow> nat \<Rightarrow> pod list \<Rightarrow> (pod \<times> pod option list) result" where
  "sticky_choice md5 key index_first rnd pods =
     StickyChoosePod (ring_get md5) (RandomChoosePod index_first rnd pods) key pods"

section \<open>The interface of a chooser\<close>

text \<open>
  What the driver relies on: no pods is an error, and of pods with distinct names one is
  chosen and the others are handed back, each exactly once.
\<close>

locale pod_chooser =
  fixes pick :: "pod list \<Rightarrow> (pod \<times> pod option list) result"
  assumes choose_empty: "pick [] = Err no_pods_error"
    and choose_split: "distinct (map p_name pods) \<Longrightarrow> pods \<noteq> [] \<Longrightarrow>
      \<exists>p others. pick pods = Ok (p, map Some others) \<and> mset (p # others) = mset pods"
begin

lemma chosen_in:
  assumes "distinct (map p_name pods)" and "pick pods = Ok (p, others)"
  shows "p \<in> set pods \<and> (\<forall>q \<in> set others. \<exists>r. q = Some r \<and> r \<in> set pods \<and> p_name r \<noteq> p_name p)"
proof -
  have "pods \<noteq> []" using assms(2) choose_empty by auto
  then obtain p' os where c: "pick pods = Ok (p', map Some os)" "mset (p' # os) = mset pods"
    using choose_split assms(1) by blast
  with assms(2) have p: "p' = p" "others = map Some os" by auto
  have "set (p # os) = set pods" using c(2) p by (metis mset_eq_setD)
  moreover have "distinct (map p_name (p # os))"
    using assms(1) c(2) p by (metis mset_eq_imp_distinct_iff mset_map)
  ultimately show ?thesis using p by (auto simp: image_iff)
qed

lemma split_of:
  assumes "distinct (map p_name pods)" and "pick pods = Ok (p, others)"
  shows "\<exists>os. others = map Some os \<and> mset (p # os) = mset pods"
proof -
  have "pods \<noteq> []" using assms(2) choose_empty by auto
  from choose_split[OF assms(1) this] assms(2) show ?thesis by auto
qed

lemma choice_exists:
  assumes "distinct (map p_name pods)"
  shows "(\<exists>p others. pick pods = Ok (p, others)) \<longleftrightarrow> pods \<noteq> []"
proof (cases "pods = []")
  case True
  then show ?thesis using choose_empty by simp
next
  case False
  then show ?thesis using choose_split[OF assms] by blast
qed

end

text \<open>The random chooser keeps the interface when the pod is read first.\<close>

lemma append_without_mset:
  "n < length xs \<Longrightarrow> mset (xs ! n # fst (append_without n xs)) = mset xs"
  by (metis (no_types, lifting) append_without_def fst_conv id_take_nth_drop mset.simps(2) mset_append
      union_mset_add_mset_right)

interpretation random: pod_chooser "RandomChoosePod True rnd" for rnd
proof unfold_locales
  show "RandomChoosePod True rnd [] = Err no_pods_error" by (simp add: RandomChoosePod_def)
next
  fix pods :: "pod list"
  assume "pods \<noteq> []"
  then have n: "rnd mod length pods < length pods" by simp
  have "RandomChoosePod True rnd pods =
      Ok (pods ! (rnd mod length pods), map Some (fst (append_without (rnd mod length pods) pods)))"
    using \<open>pods \<noteq> []\<close> by (simp add: RandomChoosePod_def Let_def split: prod.splits)
  then show "\<exists>p others. RandomChoosePod True rnd pods = Ok (p, map Some others) \<and> mset (p # others) = mset pods"
    using append_without_mset[OF n] by blast
qed

text \<open>So does the sticky chooser, over every ring that keeps the interface of a ring.\<close>

lemma pod_map_eq:
  assumes "distinct (map p_name pods)"
  shows "pod_map pods n = Some p \<longleftrightarrow> p \<in> set pods \<and> p_name p = n"
proof -
  let ?kvs = "rev (map (\<lambda>p. (p_name p, p)) pods)"
  have "map fst ?kvs = rev (map p_name pods)" by (simp add: rev_map comp_def)
  then have "distinct (map fst ?kvs)" using assms by simp
  then have "map_of ?kvs n = Some p \<longleftrightarrow> (n, p) \<in> set ?kvs" by (rule map_of_eq_Some_iff)
  then show ?thesis by (auto simp: pod_map_def)
qed

lemma distinct_names_others:
  assumes "distinct (map p_name pods)" and "p \<in> set pods"
  shows "mset (p # filter (\<lambda>q. p_name q \<noteq> p_name p) pods) = mset pods"
proof -
  obtain us vs where pods: "pods = us @ p # vs" using assms(2) by (meson split_list)
  then have "p_name p \<notin> p_name ` set us" "p_name p \<notin> p_name ` set vs" using assms(1) by auto
  then have "filter (\<lambda>q. p_name q \<noteq> p_name p) us = us" "filter (\<lambda>q. p_name q \<noteq> p_name p) vs = vs"
    by (metis (mono_tags, lifting) filter_True imageI)+
  then show ?thesis using pods by simp
qed

lemma length_names_others:
  assumes "distinct (map p_name pods)" and "p \<in> set pods"
  shows "length (filter (\<lambda>q. p_name q \<noteq> p_name p) pods) = length pods - 1"
  using arg_cong[OF distinct_names_others[OF assms], of size] by (simp flip: size_mset mset_filter)

context node_ring
begin

lemma sticky_eq:
  assumes "distinct (map p_name pods)" and "pods \<noteq> []"
  shows "\<exists>p \<in> set pods. get_node (map p_name pods) key = Some (p_name p) \<and>
    StickyChoosePod get_node r key pods = Ok (p, map Some (filter (\<lambda>q. p_name q \<noteq> p_name p) pods))"
proof -
  obtain n where n: "get_node (map p_name pods) key = Some n" "n \<in> set (map p_name pods)"
    using get_member[of "map p_name pods" key] assms(2) by auto
  then obtain p where p: "p \<in> set pods" "p_name p = n" by auto
  then have "pod_map pods n = Some p" using pod_map_eq[OF assms(1)] by simp
  moreover note length_names_others[OF assms(1) p(1)]
  ultimately show ?thesis using n p assms(2)
    by (intro bexI[of _ p]) (auto simp: StickyChoosePod_def other_pods_def)
qed

end

sublocale node_ring \<subseteq> sticky: pod_chooser "StickyChoosePod get_node r key" for r key
proof unfold_locales
  show "StickyChoosePod get_node r key [] = Err no_pods_error" by (simp add: StickyChoosePod_def)
next
  fix pods :: "pod list"
  assume pods: "distinct (map p_name pods)" "pods \<noteq> []"
  from sticky_eq[OF this, of key r] distinct_names_others[OF pods(1)]
  show "\<exists>p others. StickyChoosePod get_node r key pods = Ok (p, map Some others) \<and>
      mset (p # others) = mset pods" by blast
qed

section \<open>Properties\<close>

text \<open>
  C28: Sticky load balancing is sticky: when another pod goes away, the same build context
  still gets the same pod (whatever the random fallback would do).
\<close>

theorem sticky_choice_stable:
  assumes "distinct (map p_name pods)"
    and "sticky_choice md5 key f r pods = Ok (p, others)"
    and "gone \<noteq> p_name p"
  shows "\<exists>others'. sticky_choice md5 key f' r' (filter (\<lambda>q. p_name q \<noteq> gone) pods) = Ok (p, others')"
proof -
  let ?left = "filter (\<lambda>q. p_name q \<noteq> gone) pods"
  have ne: "pods \<noteq> []" using assms(2) by (auto simp: sticky_choice_def StickyChoosePod_def)
  have p: "p \<in> set pods" "ring_get md5 (map p_name pods) key = Some (p_name p)"
    using ring.sticky_eq[OF assms(1) ne, of md5 key "RandomChoosePod f r pods"] assms(2)
    by (auto simp: sticky_choice_def)
  then have left: "?left \<noteq> []" using assms(3) by (metis (mono_tags, lifting) filter_empty_conv)
  have names: "map p_name ?left = filter (\<lambda>n. n \<noteq> gone) (map p_name pods)"
    by (simp add: filter_map comp_def)
  then have "distinct (map p_name ?left)" using assms(1) by simp
  from ring.sticky_eq[OF this left, of md5 key "RandomChoosePod f' r' ?left"] obtain p' where
    p': "p' \<in> set ?left" "ring_get md5 (map p_name ?left) key = Some (p_name p')"
    "sticky_choice md5 key f' r' ?left = Ok (p', map Some (filter (\<lambda>q. p_name q \<noteq> p_name p') ?left))"
    by (auto simp: sticky_choice_def)
  have "p_name p' = p_name p" using p' names ring.get_stable[OF p(2) assms(3)] by simp
  then have "p' = p" using assms(1) p(1) p'(1) by (auto simp: distinct_map dest: inj_onD)
  with p'(3) show ?thesis by blast
qed

definition example_deployment :: deployment where
  "example_deployment =
     \<lparr>d_api_version = ''apps/v1'', d_kind = ''Deployment'', d_namespace = ''default'', d_name = ''ci'',
      d_labels = [''app'' \<mapsto> ''ci''], d_annotations = Map.empty, d_replicas = 1,
      d_selector = [''app'' \<mapsto> ''ci''], d_pod_labels = [''app'' \<mapsto> ''ci''],
      d_pod_annotations = Map.empty, d_containers = [], d_volumes = [],
      d_affinity = [], d_uid = ''1'', d_resource_version = ''1'', d_ready_replicas = 1\<rparr>"

definition example_pod :: "string \<Rightarrow> pod" where
  "example_pod n = \<lparr>p_name = n, p_namespace = ''default'', p_labels = [''app'' \<mapsto> ''buildkit''],
     p_containers = [''buildkitd''], p_phase = ''Running'', p_message = [], p_ip = ''10.0.0.1'',
     p_uid = n, p_kind = [], p_owners = []\<rparr>"

theorem sticky_choice_stable_witness:
  "\<exists>p others. sticky_choice (\<lambda>_. [1, 2, 3, 4]) ''/src'' True 0
     (filter (\<lambda>q. p_name q \<noteq> ''a'') [example_pod ''a'', example_pod ''b'']) = Ok (p, others)"
proof -
  let ?pods = "[example_pod ''a'', example_pod ''b'']" and ?md5 = "\<lambda>_. [1, 2, 3, 4] :: 8 word list"
  have d: "distinct (map p_name ?pods)" by (simp add: example_pod_def)
  have owner: "ring_get ?md5 (map p_name ?pods) ''/src'' = Some ''b''"
  proof -
    let ?ns = "map p_name ?pods"
    let ?s = "successor (ring_keys ?md5 ?ns) (GenKey ?md5 ''/src'')"
    have "replica_keys ?md5 n = replica_keys ?md5 m" for n m
      by (simp add: replica_keys_def Let_def fun_eq_iff)
    then have same: "points ?md5 n = points ?md5 m" for n m
      unfolding node_keys_def by (metis (no_types))
    have "?s \<in> ring_keys ?md5 ?ns" by (intro successor_in) simp_all
    then obtain n where "?s \<in> set (points ?md5 n)" unfolding ring_keys_def by blast
    then have "?s \<in> set (points ?md5 ''b'')" by (metis same)
    then show ?thesis by (simp add: ring_get_eq example_pod_def)
  qed
  then obtain p others where p: "sticky_choice ?md5 ''/src'' True 0 ?pods = Ok (p, others)" "p_name p = ''b''"
    using ring.sticky_eq[OF d, of ?md5 "''/src''" "RandomChoosePod True 0 ?pods"]
    by (auto simp: sticky_choice_def)
  then have "''a'' \<noteq> p_name p" by simp
  from sticky_choice_stable[OF d p(1) this] show ?thesis by blast
qed

text \<open>
  The sticky chooser picks a pod whenever one runs, and hands back every other pod
  exactly once, with no nil pointer and no index error.
\<close>

theorem sticky_choice_split:
  assumes "distinct (map p_name pods)"
  shows "if pods = [] then sticky_choice md5 key f r pods = Err no_pods_error
    else \<exists>p others. sticky_choice md5 key f r pods = Ok (p, map Some others) \<and> mset (p # others) = mset pods"
  using ring.sticky.choose_empty[of md5] ring.sticky.choose_split[OF assms, of md5]
  by (simp add: sticky_choice_def)

theorem sticky_choice_split_example:
  "\<exists>p others. sticky_choice (\<lambda>_. []) ''/src'' False 7 [example_pod ''a'', example_pod ''b''] = Ok (p, map Some others)
     \<and> mset (p # others) = mset [example_pod ''a'', example_pod ''b'']"
proof -
  have "distinct (map p_name [example_pod ''a'', example_pod ''b''])" by (simp add: example_pod_def)
  from sticky_choice_split[OF this] show ?thesis by simp
qed

text \<open>
  The random chooser is correct only for one of the two evaluation orders that Go
  allows. If \<open>pods[n]\<close> is read before the call of append, the pods are split properly; if it
  is read after, then for every choice but the last the pod after the drawn one is chosen, it
  is also among the others, and the drawn pod is lost.
\<close>

theorem RandomChoosePod_order:
  assumes "distinct pods" and "Suc (rnd mod length pods) < length pods"
  shows "(\<exists>p others. RandomChoosePod True rnd pods = Ok (p, map Some others) \<and> mset (p # others) = mset pods) \<and>
    (\<exists>p others. RandomChoosePod False rnd pods = Ok (p, map Some others) \<and>
       p = pods ! Suc (rnd mod length pods) \<and> p \<in> set others \<and>
       pods ! (rnd mod length pods) \<notin> set (p # others))"
proof
  let ?n = "rnd mod length pods"
  let ?rest = "take ?n pods @ drop (Suc ?n) pods"
  have ne: "pods \<noteq> []" using assms(2) by auto
  then show "\<exists>p others. RandomChoosePod True rnd pods = Ok (p, map Some others) \<and> mset (p # others) = mset pods"
    using append_without_mset[of ?n pods] assms(2)
    by (auto simp: RandomChoosePod_def Let_def split: prod.splits)
  have "(?rest @ [last pods]) ! ?n = pods ! Suc ?n" using assms(2) by (simp add: nth_append)
  then have "RandomChoosePod False rnd pods = Ok (pods ! Suc ?n, map Some ?rest)"
    using ne by (simp add: RandomChoosePod_def append_without_def Let_def)
  moreover have "pods ! Suc ?n \<in> set ?rest"
    using assms(2) by (metis Cons_nth_drop_Suc Un_iff list.set_intros(1) set_append)
  moreover have "distinct (pods ! ?n # ?rest)"
    using assms append_without_mset[of ?n pods]
    by (metis Suc_lessD append_without_def fst_conv mset_eq_imp_distinct_iff)
  ultimately show "\<exists>p others. RandomChoosePod False rnd pods = Ok (p, map Some others) \<and>
       p = pods ! Suc ?n \<and> p \<in> set others \<and> pods ! ?n \<notin> set (p # others)"
    by (intro exI[of _ "pods ! Suc ?n"] exI[of _ ?rest]) auto
qed

theorem RandomChoosePod_order_example:
  "RandomChoosePod False 0 [example_pod ''a'', example_pod ''b''] =
     Ok (example_pod ''b'', [Some (example_pod ''b'')])"
proof -
  let ?pods = "[example_pod ''a'', example_pod ''b'']"
  have "distinct ?pods" "Suc (0 mod length ?pods) < length ?pods" by (simp_all add: example_pod_def)
  from RandomChoosePod_order[OF this] show ?thesis
    by (simp add: RandomChoosePod_def append_without_def)
qed

text \<open>
  When the API server answers, listing the pods of a builder gives exactly the running
  ones, in the order of their names.
\<close>

theorem ListRunningPods_spec:
  assumes "selector_of api ''app'' (if d_name depl = [] then ''buildkit'' else d_name depl) = Ok sel"
    and "pods_list api sel = Ok items"
  shows "\<exists>pods. ListRunningPods api depl = Ok pods \<and> sorted (map p_name pods) \<and>
    mset pods = {#p \<in># mset items. p_phase p = ''Running''#}"
  using assms by (simp add: ListRunningPods_def Let_def)

theorem ListRunningPods_spec_example:
  "\<exists>pods. ListRunningPods \<lparr>selector_of = (\<lambda>k v. Ok (k @ ''='' @ v)),
       pods_list = (\<lambda>_. Ok [example_pod ''b'', (example_pod ''c'')\<lparr>p_phase := ''Pending''\<rparr>, example_pod ''a''])\<rparr>
       example_deployment = Ok pods \<and> sorted (map p_name pods) \<and>
     mset pods = {#example_pod ''a'', example_pod ''b''#}"
  (is "\<exists>pods. ListRunningPods ?api _ = _ \<and> _")
proof -
  have "selector_of ?api ''app'' (if d_name example_deployment = [] then ''buildkit'' else d_name example_deployment)
      = Ok ''app=ci''"
    by (simp add: example_deployment_def)
  moreover have "pods_list ?api ''app=ci''
      = Ok [example_pod ''b'', (example_pod ''c'')\<lparr>p_phase := ''Pending''\<rparr>, example_pod ''a'']"
    by simp
  ultimately show ?thesis
    using ListRunningPods_spec[of ?api example_deployment "''app=ci''"]
    by (simp add: example_pod_def add_mset_commute)
qed

end
