(* ===== verification/KubeFactory.thy ===== *)
theory KubeFactory
  imports DriverCore PodChooser
begin

text \<open>
  The factory of the Kubernetes driver: \<open>pkg/driver/kubernetes/factory.go\<close>, and the
  \<open>Driver\<close> struct of \<open>driver.go\<close>. The driver options are a Go map, an association
  list here in the order in which a run visits it. The file system, the order in which
  \<open>NewDeployment\<close> visits the environment map, and the constructor of the Kubernetes
  client set are the record \<open>factory_env\<close>.
\<close>

section \<open>The driver\<close>

definition DriverName :: string where "DriverName = ''kubernetes''"
definition LoadbalanceRandom :: string where "LoadbalanceRandom = ''random''"
definition LoadbalanceSticky :: string where "LoadbalanceSticky = ''sticky''"
definition WorkerContainerd :: string where "WorkerContainerd = ''containerd''"
definition WorkerRunc :: string where "WorkerRunc = ''runc''"
definition DefaultContainerdNamespace :: string where "DefaultContainerdNamespace = ''k8s.io''"
definition DefaultContainerdSockPath :: string where
  "DefaultContainerdSockPath = ''/run/containerd/containerd.sock''"
definition DefaultDockerSockPath :: string where "DefaultDockerSockPath = ''/var/run/docker.sock''"
definition DefaultContainerRuntime :: string where "DefaultContainerRuntime = ''docker''"

lemmas kube_const_defs = DriverName_def LoadbalanceRandom_def LoadbalanceSticky_def
  WorkerContainerd_def WorkerRunc_def DefaultContainerdNamespace_def DefaultContainerdSockPath_def
  DefaultDockerSockPath_def DefaultContainerRuntime_def

text \<open>The template of the default configuration around its one action, executed.\<close>

definition default_config :: "string \<Rightarrow> string" where
  "default_config containerd_namespace =
     ''# Default buildkitd configuration.  Use --config <path/to/file> to override during create'' @ [CHR 10] @
     ''debug = false'' @ [CHR 10] @
     ''[worker.containerd]'' @ [CHR 10] @
     ''  namespace = '' @ [CHR 34] @ containerd_namespace @ [CHR 34, CHR 10]"

datatype chooser = StickyChooser string deployment | RandomChooser deployment

text \<open>\<open>kd_chooser = None\<close> is a nil chooser.\<close>

record kube_driver =
  kd_config :: init_config
  kd_min_replicas :: int
  kd_deployment :: deployment
  kd_config_map :: config_map
  kd_chooser :: "chooser option"
  kd_user_runtime :: bool
  kd_user_config :: bool
  kd_namespace :: string
  kd_loadbalance :: string
  kd_auth_hint :: string

definition buildxNameToDeploymentName :: "string \<Rightarrow> string" where
  "buildxNameToDeploymentName bx = (if bx = [] then ''buildkit'' else bx)"

section \<open>Options\<close>

record init_state =
  is_driver :: kube_driver
  is_opt :: deployment_opt
  is_image :: string

definition add_env_item :: "(string \<times> string) list \<Rightarrow> string \<Rightarrow> (string \<times> string) list" where
  "add_env_item env item =
     (case splitn2 CHR ''='' item of [k, v] \<Rightarrow> AList.update k v env | _ \<Rightarrow> env)"

definition default_opt :: "init_config \<Rightarrow> deployment_opt" where
  "default_opt cfg =
     \<lparr>o_namespace = [], o_name = buildxNameToDeploymentName (ic_name cfg), o_image = DefaultImage,
      o_replicas = 1, o_flags = ic_flags cfg, o_rootless = False, o_worker = [],
      o_containerd_namespace = DefaultContainerdNamespace,
      o_containerd_sock = DefaultContainerdSockPath, o_docker_sock = DefaultDockerSockPath,
      o_runtime = DefaultContainerRuntime, o_custom_config = [], o_env = []\<rparr>"

text \<open>The body of the loop over the options.\<close>

definition set_option :: "string \<Rightarrow> string \<Rightarrow> init_state \<Rightarrow> init_state result" where
  "set_option k v st =
     (let d = is_driver st; opt = is_opt st in
      if k = ''image'' then Ok (st\<lparr>is_image := v\<rparr>)
      else if k = ''namespace'' then Ok (st\<lparr>is_driver := d\<lparr>kd_namespace := v\<rparr>\<rparr>)
      else if k = ''replicas'' then
        and_then (atoi v) (\<lambda>n. Ok (st\<lparr>is_opt := opt\<lparr>o_replicas := n\<rparr>\<rparr>))
      else if k = ''rootless'' then
        and_then (parse_bool v) (\<lambda>b.
          let opt = opt\<lparr>o_rootless := b\<rparr>
          in Ok (st\<lparr>is_opt := (if b then opt\<lparr>o_image := DefaultRootlessImage\<rparr> else opt)\<rparr>))
      else if k = ''loadbalance'' then
        if v = LoadbalanceSticky \<or> v = LoadbalanceRandom then Ok (st\<lparr>is_driver := d\<lparr>kd_loadbalance := v\<rparr>\<rparr>)
        else Err (Errorf ''invalid loadbalance %q'' [v])
      else if k = ''worker'' then
        if v = ''auto'' \<or> v = WorkerContainerd \<or> v = WorkerRunc then Ok (st\<lparr>is_opt := opt\<lparr>o_worker := v\<rparr>\<rparr>)
        else Err (Errorf ''invalid worker %q'' [v])
      else if k = ''containerd-namespace'' then Ok (st\<lparr>is_opt := opt\<lparr>o_containerd_namespace := v\<rparr>\<rparr>)
      else if k = ''containerd-sock'' then Ok (st\<lparr>is_opt := opt\<lparr>o_containerd_sock := v\<rparr>\<rparr>)
      else if k = ''docker-sock'' then Ok (st\<lparr>is_opt := opt\<lparr>o_docker_sock := v\<rparr>\<rparr>)
      else if k = ''runtime'' then
        if v = ''auto'' \<or> v = ''docker'' \<or> v = ''containerd'' then
          Ok (st\<lparr>is_driver := d\<lparr>kd_user_runtime := (v \<noteq> ''auto'')\<rparr>, is_opt := opt\<lparr>o_runtime := v\<rparr>\<rparr>)
        else Err (Errorf ''invalid runtime %q'' [v])
      else if k = ''custom-config'' then Ok (st\<lparr>is_opt := opt\<lparr>o_custom_config := v\<rparr>\<rparr>)
      else if k = ''env'' then
        Ok (st\<lparr>is_opt := opt\<lparr>o_env := foldl add_env_item (o_env opt) (split_on CHR '';'' v)\<rparr>\<rparr>)
      else Err (Errorf ''invalid driver option %s for driver %s'' [k, DriverName]))"

text \<open>The loop: an error leaves the driver as the options before it have made it.\<close>

fun set_options :: "(string \<times> string) list \<Rightarrow> init_state \<Rightarrow> go_error option \<times> init_state" where
  "set_options [] st = (None, st)"
| "set_options ((k, v) # kvs) st =
     (case set_option k v st of
        Inl e \<Rightarrow> (Some e, st)
      | Inr st \<Rightarrow> set_options kvs st)"

section \<open>Initialising the driver\<close>

record factory_env =
  fe_read_file :: "string \<Rightarrow> string result"
  fe_visit :: "(string \<times> string) list \<Rightarrow> (string \<times> string) list"
  fe_new_for_config :: "unit result"

text \<open>The defaults that depend on the chosen runtime.\<close>

definition resolve_runtime :: "deployment_opt \<Rightarrow> deployment_opt" where
  "resolve_runtime opt =
     (let opt = (if o_runtime opt = ''auto'' then opt\<lparr>o_runtime := DefaultContainerRuntime\<rparr> else opt);
          opt = (if o_runtime opt = ''containerd'' \<and> o_worker opt = ''auto'' then opt\<lparr>o_worker := WorkerContainerd\<rparr> else opt)
      in if o_runtime opt = ''docker'' \<and> o_worker opt = ''auto'' then opt\<lparr>o_worker := WorkerRunc\<rparr> else opt)"

definition load_config :: "factory_env \<Rightarrow> deployment_opt \<Rightarrow> kube_driver \<Rightarrow> go_error option \<times> kube_driver" where
  "load_config fe opt d =
     (let file = ic_config_file (kd_config d) in
      if file = [] then
        (None, d\<lparr>kd_config_map := NewConfigMap opt (default_config (o_containerd_namespace opt))\<rparr>)
      else
        case fe_read_file fe file of
          Inl e \<Rightarrow> (Some (Wrapf e ''failed to load config file: %w'' []), d)
        | Inr data \<Rightarrow> (None, d\<lparr>kd_config_map := NewConfigMap opt data, kd_user_config := True\<rparr>))"

text \<open>The second half of \<open>initDriverFromConfig\<close>, after the loop.\<close>

definition finish_init :: "factory_env \<Rightarrow> init_state \<Rightarrow> go_error option \<times> kube_driver" where
  "finish_init fe st =
     (let d = is_driver st; opt = resolve_runtime (is_opt st) in
      if o_rootless opt \<and> o_worker opt = WorkerContainerd then
        (Some (Errorf ''containerd worker does not support rootless mode - use 'runc' worker'' []), d)
      else
        let opt = (if is_image st \<noteq> [] then opt\<lparr>o_image := is_image st\<rparr> else opt) in
        case NewDeployment (opt\<lparr>o_env := fe_visit fe (o_env opt)\<rparr>) of
          Inl e \<Rightarrow> (Some e, d)
        | Inr depl \<Rightarrow>
            load_config fe opt (d\<lparr>kd_deployment := depl, kd_min_replicas := o_replicas opt\<rparr>))"

definition initDriverFromConfig :: "factory_env \<Rightarrow> kube_driver \<Rightarrow> go_error option \<times> kube_driver" where
  "initDriverFromConfig fe d =
     (let cfg = kd_config d in
      case set_options (ic_driver_opts cfg) \<lparr>is_driver = d, is_opt = default_opt cfg, is_image = []\<rparr> of
        (Some e, st) \<Rightarrow> (Some e, is_driver st)
      | (None, st) \<Rightarrow> finish_init fe st)"

section \<open>The factory\<close>

text \<open>The zero values of the API objects, before the driver has any.\<close>

definition no_deployment :: deployment where
  "no_deployment =
     \<lparr>d_api_version = [], d_kind = [], d_namespace = [], d_name = [], d_labels = Map.empty,
      d_annotations = Map.empty, d_replicas = 0, d_selector = Map.empty, d_pod_labels = Map.empty,
      d_pod_annotations = Map.empty, d_containers = [], d_volumes = [], d_affinity = [], d_uid = [],
      d_resource_version = [], d_ready_replicas = 0\<rparr>"

definition no_config_map :: config_map where
  "no_config_map =
     \<lparr>cm_api_version = [], cm_kind = [], cm_namespace = [], cm_name = [], cm_labels = Map.empty,
      cm_annotations = Map.empty, cm_data = Map.empty\<rparr>"

definition pod_chooser_for :: "init_config \<Rightarrow> kube_driver \<Rightarrow> chooser option" where
  "pod_chooser_for cfg d =
     (if kd_loadbalance d = LoadbalanceSticky then Some (StickyChooser (ic_context_path_hash cfg) (kd_deployment d))
      else if kd_loadbalance d = LoadbalanceRandom then Some (RandomChooser (kd_deployment d))
      else None)"

definition factory_New :: "factory_env \<Rightarrow> init_config \<Rightarrow> kube_driver result" where
  "factory_New fe cfg =
     (case ic_kube cfg of
        None \<Rightarrow> Err (Errorf ''%s driver requires kubernetes API access'' [DriverName])
      | Some kube \<Rightarrow>
          (case kc_namespace kube of
             Inl e \<Rightarrow> Err (Wrapf e ''cannot determine Kubernetes namespace, specify manually'' [])
           | Inr namespace \<Rightarrow>
               and_then (kc_client_config kube) (\<lambda>_.
               and_then (fe_new_for_config fe) (\<lambda>_.
                 let d = \<lparr>kd_config = cfg, kd_min_replicas = 0, kd_deployment = no_deployment,
                          kd_config_map = no_config_map, kd_chooser = None, kd_user_runtime = False,
                          kd_user_config = False, kd_namespace = namespace,
                          kd_loadbalance = LoadbalanceSticky, kd_auth_hint = []\<rparr>
                 in case initDriverFromConfig fe d of
                      (Some e, _) \<Rightarrow> Err e
                    | (None, d) \<Rightarrow> Ok (d\<lparr>kd_chooser := pod_chooser_for cfg d\<rparr>)))))"

definition factory_Usage :: string where
  "factory_Usage =
     ''  kubernetes driver usage:'' @ [CHR 10] @
     ''    Builtkitd configuration is stored in a ConfigMap by the same name as the builder'' @ [CHR 10] @
     ''    If no '--config' is specified, a default config will be generated'' @ [CHR 10] @
     ''    When containerd worker is used, host mounts to support containerd are added'' @ [CHR 10]"

definition kubernetes_factory :: "factory_env \<Rightarrow> kube_driver factory" where
  "kubernetes_factory fe =
     \<lparr>fa_name = DriverName, fa_usage = factory_Usage, fa_priority = 40, fa_allows_instances = True,
      fa_new = factory_New fe\<rparr>"

text \<open>The registry after the package is initialised.\<close>

definition drivers :: "factory_env \<Rightarrow> kube_driver registry" where
  "drivers fe = Register (kubernetes_factory fe) []"

section \<open>The options do not depend on their order\<close>

text \<open>What the options ask for, read off the finished map.\<close>

definition option_or :: "'a \<Rightarrow> (string \<Rightarrow> 'a) \<Rightarrow> string option \<Rightarrow> 'a" where
  "option_or x f o' = (case o' of None \<Rightarrow> x | Some v \<Rightarrow> f v)"

lemma option_or_simps [simp]: "option_or x f None = x" "option_or x f (Some v) = f v"
  by (simp_all add: option_or_def)

definition atoi_or_0 :: "string \<Rightarrow> int" where
  "atoi_or_0 s = (case atoi s of Inl _ \<Rightarrow> 0 | Inr n \<Rightarrow> n)"

definition configured :: "(string \<rightharpoonup> string) \<Rightarrow> init_state \<Rightarrow> init_state" where
  "configured m st =
     (let d = is_driver st; opt = is_opt st;
          rootless = option_or (o_rootless opt) parse_bool_or_false (m ''rootless'') in
      \<lparr>is_driver = d
         \<lparr>kd_namespace := option_or (kd_namespace d) id (m ''namespace''),
          kd_loadbalance := option_or (kd_loadbalance d) id (m ''loadbalance''),
          kd_user_runtime := option_or (kd_user_runtime d) (\<lambda>v. v \<noteq> ''auto'') (m ''runtime'')\<rparr>,
       is_opt = opt
         \<lparr>o_replicas := option_or (o_replicas opt) atoi_or_0 (m ''replicas''),
          o_rootless := rootless,
          o_image := option_or (o_image opt) (\<lambda>v. if parse_bool_or_false v then DefaultRootlessImage else o_image opt) (m ''rootless''),
          o_worker := option_or (o_worker opt) id (m ''worker''),
          o_containerd_namespace := option_or (o_containerd_namespace opt) id (m ''containerd-namespace''),
          o_containerd_sock := option_or (o_containerd_sock opt) id (m ''containerd-sock''),
          o_docker_sock := option_or (o_docker_sock opt) id (m ''docker-sock''),
          o_runtime := option_or (o_runtime opt) id (m ''runtime''),
          o_custom_config := option_or (o_custom_config opt) id (m ''custom-config''),
          o_env := option_or (o_env opt) (\<lambda>v. foldl add_env_item (o_env opt) (split_on CHR '';'' v)) (m ''env'')\<rparr>,
       is_image = option_or (is_image st) id (m ''image'')\<rparr>)"

definition option_valid :: "string \<Rightarrow> string \<Rightarrow> bool" where
  "option_valid k v \<longleftrightarrow>
     k \<in> set [''image'', ''namespace'', ''containerd-namespace'', ''containerd-sock'', ''docker-sock'',
            ''custom-config'', ''env''] \<or>
     k = ''replicas'' \<and> (\<exists>n. atoi v = Ok n) \<or>
     k = ''rootless'' \<and> (\<exists>b. parse_bool v = Ok b) \<or>
     k = ''loadbalance'' \<and> v \<in> set [LoadbalanceSticky, LoadbalanceRandom] \<or>
     k = ''worker'' \<and> v \<in> set [''auto'', WorkerContainerd, WorkerRunc] \<or>
     k = ''runtime'' \<and> v \<in> set [''auto'', ''docker'', ''containerd'']"

lemma set_option_simps:
  "set_option ''image'' v st = Ok (st\<lparr>is_image := v\<rparr>)"
  "set_option ''namespace'' v st = Ok (st\<lparr>is_driver := (is_driver st)\<lparr>kd_namespace := v\<rparr>\<rparr>)"
  "set_option ''replicas'' v st = and_then (atoi v) (\<lambda>n. Ok (st\<lparr>is_opt := (is_opt st)\<lparr>o_replicas := n\<rparr>\<rparr>))"
  "set_option ''rootless'' v st = and_then (parse_bool v) (\<lambda>b. Ok (st\<lparr>is_opt :=
     if b then (is_opt st)\<lparr>o_rootless := True, o_image := DefaultRootlessImage\<rparr>
     else (is_opt st)\<lparr>o_rootless := False\<rparr>\<rparr>))"
  "set_option ''loadbalance'' v st =
     (if v = LoadbalanceSticky \<or> v = LoadbalanceRandom then Ok (st\<lparr>is_driver := (is_driver st)\<lparr>kd_loadbalance := v\<rparr>\<rparr>)
      else Err (Errorf ''invalid loadbalance %q'' [v]))"
  "set_option ''worker'' v st =
     (if v = ''auto'' \<or> v = WorkerContainerd \<or> v = WorkerRunc then Ok (st\<lparr>is_opt := (is_opt st)\<lparr>o_worker := v\<rparr>\<rparr>)
      else Err (Errorf ''invalid worker %q'' [v]))"
  "set_option ''containerd-namespace'' v st = Ok (st\<lparr>is_opt := (is_opt st)\<lparr>o_containerd_namespace := v\<rparr>\<rparr>)"
  "set_option ''containerd-sock'' v st = Ok (st\<lparr>is_opt := (is_opt st)\<lparr>o_containerd_sock := v\<rparr>\<rparr>)"
  "set_option ''docker-sock'' v st = Ok (st\<lparr>is_opt := (is_opt st)\<lparr>o_docker_sock := v\<rparr>\<rparr>)"
  "set_option ''runtime'' v st =
     (if v = ''auto'' \<or> v = ''docker'' \<or> v = ''containerd'' then
        Ok (st\<lparr>is_driver := (is_driver st)\<lparr>kd_user_runtime := (v \<noteq> ''auto'')\<rparr>,
               is_opt := (is_opt st)\<lparr>o_runtime := v\<rparr>\<rparr>)
      else Err (Errorf ''invalid runtime %q'' [v]))"
  "set_option ''custom-config'' v st = Ok (st\<lparr>is_opt := (is_opt st)\<lparr>o_custom_config := v\<rparr>\<rparr>)"
  "set_option ''env'' v st = Ok (st\<lparr>is_opt := (is_opt st)
     \<lparr>o_env := foldl add_env_item (o_env (is_opt st)) (split_on CHR '';'' v)\<rparr>\<rparr>)"
  by (simp_all add: set_option_def Let_def cong: if_cong)

lemma option_keys:
  obtains "k = ''image''" | "k = ''namespace''" | "k = ''containerd-namespace''" | "k = ''containerd-sock''"
    | "k = ''docker-sock''" | "k = ''custom-config''" | "k = ''env''" | "k = ''replicas''" | "k = ''rootless''"
    | "k = ''loadbalance''" | "k = ''worker''" | "k = ''runtime''"
    | "\<not> option_valid k v" "\<And>st. set_option k v st = Err (Errorf ''invalid driver option %s for driver %s'' [k, DriverName])"
proof (cases "k \<in> set [''image'', ''namespace'', ''containerd-namespace'', ''containerd-sock'', ''docker-sock'',
    ''custom-config'', ''env'', ''replicas'', ''rootless'', ''loadbalance'', ''worker'', ''runtime'']")
  case True
  then show thesis unfolding list.set by (elim insertE emptyE) (fact that)+
next
  case False
  then have "\<not> option_valid k v" by (auto simp: option_valid_def)
  moreover have "set_option k v st = Err (Errorf ''invalid driver option %s for driver %s'' [k, DriverName])" for st
    using False by (simp add: set_option_def Let_def)
  ultimately show thesis by (rule that(13))
qed

lemma set_option_valid: "(\<exists>st'. set_option k v st = Ok st') \<longleftrightarrow> option_valid k v"
  by (rule option_keys[where k = k and v = v]) (simp_all add: set_option_simps option_valid_def and_then_Inr_iff)

text \<open>One valid option, and then the others.\<close>

lemma configured_one:
  assumes "set_option k v st = Ok st'" and "m k = None"
  shows "configured m st' = configured (m(k \<mapsto> v)) st"
proof -
  note simps = set_option_simps and_then_Inr_iff
  note conf = configured_def Let_def parse_bool_or_false_def atoi_or_0_def
  show ?thesis
    by (rule option_keys[where k = k and v = v]; cases "parse_bool v";
        use assms in \<open>clarsimp simp: simps split: if_splits\<close>;
        (simp add: conf cong: if_cong)?)
qed

lemma configured_empty [simp]: "configured Map.empty st = st"
  by (simp add: configured_def Let_def)

lemma set_options_configured:
  assumes "distinct (map fst kvs)"
  shows "set_options kvs st = (None, st') \<longleftrightarrow>
    list_all (\<lambda>(k, v). option_valid k v) kvs \<and> st' = configured (map_of kvs) st"
  using assms
proof (induction kvs arbitrary: st)
  case Nil
  then show ?case by auto
next
  case (Cons kv kvs)
  obtain k v where kv: "kv = (k, v)" by fastforce
  show ?case
  proof (cases "set_option k v st")
    case (Inl e)
    then show ?thesis using set_option_valid[of k v st] kv by auto
  next
    case (Inr st1)
    moreover have "map_of kvs k = None" using Cons.prems kv by (simp add: map_of_eq_None_iff)
    ultimately show ?thesis
      using Cons configured_one[of k v st st1 "map_of kvs"] set_option_valid[of k v st] kv
      by (auto simp: fun_upd_def)
  qed
qed

text \<open>Nothing of the initialisation writes the configuration, and only its file is read.\<close>

definition with_config :: "init_config \<Rightarrow> init_state \<Rightarrow> init_state" where
  "with_config c st = st\<lparr>is_driver := (is_driver st)\<lparr>kd_config := c\<rparr>\<rparr>"

lemma configured_with_config: "configured m (with_config c st) = with_config c (configured m st)"
  by (simp add: configured_def with_config_def Let_def)

lemma kd_config_configured [simp]: "kd_config (is_driver (configured m st)) = kd_config (is_driver st)"
  by (simp add: configured_def Let_def)

lemma finish_init_with_config:
  assumes "ic_config_file c = ic_config_file (kd_config (is_driver st))"
  shows "finish_init fe (with_config c st) = (case finish_init fe st of (e, d) \<Rightarrow> (e, d\<lparr>kd_config := c\<rparr>))"
proof -
  have load: "load_config fe opt (d\<lparr>kd_config := c, kd_deployment := x, kd_min_replicas := n\<rparr>) =
      (case load_config fe opt (d\<lparr>kd_deployment := x, kd_min_replicas := n\<rparr>) of (e, d) \<Rightarrow> (e, d\<lparr>kd_config := c\<rparr>))"
    if "ic_config_file c = ic_config_file (kd_config d)" for opt x n d
    using that by (simp add: load_config_def Let_def split: sum.splits)
  show ?thesis
    using load[of "is_driver st"] assms
    by (simp add: finish_init_def with_config_def Let_def split: sum.splits)
qed

lemma initDriver_Ok_iff:
  assumes "distinct (map fst (ic_driver_opts (kd_config d)))"
  shows "initDriverFromConfig fe d = (None, d') \<longleftrightarrow>
    list_all (\<lambda>(k, v). option_valid k v) (ic_driver_opts (kd_config d)) \<and>
    finish_init fe (configured (map_of (ic_driver_opts (kd_config d)))
      \<lparr>is_driver = d, is_opt = default_opt (kd_config d), is_image = []\<rparr>) = (None, d')"
  (is "_ \<longleftrightarrow> _ \<and> finish_init fe (configured ?m ?st) = _")
proof (cases "set_options (ic_driver_opts (kd_config d)) ?st")
  case (Pair e st)
  then show ?thesis
    using set_options_configured[OF assms, of ?st st] set_options_configured[OF assms, of ?st "configured ?m ?st"]
    by (cases e) (auto simp: initDriverFromConfig_def Let_def)
qed

lemma initDriver_order:
  assumes "distinct (map fst (ic_driver_opts (kd_config d)))" and "mset opts = mset (ic_driver_opts (kd_config d))"
    and "initDriverFromConfig fe d = (None, d')"
  shows "initDriverFromConfig fe (d\<lparr>kd_config := (kd_config d)\<lparr>ic_driver_opts := opts\<rparr>\<rparr>) =
    (None, d'\<lparr>kd_config := (kd_config d)\<lparr>ic_driver_opts := opts\<rparr>\<rparr>)"
proof -
  let ?c = "(kd_config d)\<lparr>ic_driver_opts := opts\<rparr>"
  let ?st = "\<lparr>is_driver = d, is_opt = default_opt (kd_config d), is_image = []\<rparr>"
  have dist: "distinct (map fst opts)" using assms(1,2) by (metis mset_eq_imp_distinct_iff mset_map)
  have m: "map_of opts = map_of (ic_driver_opts (kd_config d))" using map_of_perm[OF dist assms(2)] .
  have s: "set opts = set (ic_driver_opts (kd_config d))" using assms(2) by (rule mset_eq_setD)
  have opt: "default_opt ?c = default_opt (kd_config d)" by (simp add: default_opt_def)
  have start: "\<lparr>is_driver = d\<lparr>kd_config := ?c\<rparr>, is_opt = default_opt ?c, is_image = []\<rparr> = with_config ?c ?st"
    by (simp add: with_config_def opt)
  note ok = initDriver_Ok_iff[OF assms(1), of fe d', THEN iffD1, OF assms(3)]
  then have "finish_init fe (configured (map_of opts) (with_config ?c ?st)) = (None, d'\<lparr>kd_config := ?c\<rparr>)"
    unfolding configured_with_config by (simp add: finish_init_with_config m)
  moreover have "list_all (\<lambda>(k, v). option_valid k v) opts" using ok s by (simp add: list_all_iff)
  ultimately show ?thesis
    using initDriver_Ok_iff[of "d\<lparr>kd_config := ?c\<rparr>" fe "d'\<lparr>kd_config := ?c\<rparr>"] dist
    unfolding start[symmetric] by simp
qed


section \<open>What the options become\<close>

lemma resolve_runtime_sel:
  "o_rootless (resolve_runtime opt) = o_rootless opt" "o_name (resolve_runtime opt) = o_name opt"
  "o_replicas (resolve_runtime opt) = o_replicas opt"
  "o_runtime (resolve_runtime opt) = (if o_runtime opt = ''auto'' then ''docker'' else o_runtime opt)"
  "o_worker (resolve_runtime opt) =
     (if o_worker opt = ''auto'' \<and> o_runtime opt \<in> set [''auto'', ''docker''] then ''runc''
      else if o_worker opt = ''auto'' \<and> o_runtime opt = ''containerd'' then ''containerd'' else o_worker opt)"
  by (auto simp add: resolve_runtime_def kube_const_defs Let_def)

text \<open>What a finished driver looks like, in terms of the resolved options.\<close>

definition driver_for :: "deployment_opt \<Rightarrow> kube_driver \<Rightarrow> bool" where
  "driver_for opt d \<longleftrightarrow>
     deployment_wf (kd_deployment d) \<and>
     d_name (kd_deployment d) = o_name opt \<and> cm_name (kd_config_map d) = o_name opt \<and>
     d_labels (kd_deployment d) = labels_of opt \<and>
     d_replicas (kd_deployment d) = word_of_int (kd_min_replicas d) \<and>
     \<not> (o_rootless opt \<and> o_worker opt = ''containerd'')"

lemma finish_init_Ok:
  assumes "finish_init fe st = (None, d)"
  shows "\<exists>opt. o_runtime opt = o_runtime (resolve_runtime (is_opt st)) \<and>
    o_worker opt = o_worker (resolve_runtime (is_opt st)) \<and> o_rootless opt = o_rootless (is_opt st) \<and>
    o_name opt = o_name (is_opt st) \<and> driver_for opt d \<and>
    kd_config d = kd_config (is_driver st) \<and> kd_loadbalance d = kd_loadbalance (is_driver st) \<and>
    kd_min_replicas d = o_replicas (is_opt st) \<and> kd_namespace d = kd_namespace (is_driver st) \<and>
    kd_user_runtime d = kd_user_runtime (is_driver st)"
proof -
  let ?r = "resolve_runtime (is_opt st)"
  let ?opt = "if is_image st \<noteq> [] then ?r\<lparr>o_image := is_image st\<rparr> else ?r"
  let ?vopt = "?opt\<lparr>o_env := fe_visit fe (o_env ?opt)\<rparr>"
  have ok: "\<not> (o_rootless ?r \<and> o_worker ?r = ''containerd'')"
    using assms by (auto simp: finish_init_def Let_def WorkerContainerd_def split: if_splits)
  obtain depl where depl: "NewDeployment ?vopt = Ok depl" by (simp add: NewDeployment_eq)
  have load: "load_config fe ?opt ((is_driver st)\<lparr>kd_deployment := depl, kd_min_replicas := o_replicas ?opt\<rparr>) = (None, d)"
    using assms ok depl unfolding finish_init_def Let_def WorkerContainerd_def if_not_P[OF ok] by simp
  have wf: "deployment_wf depl" "d_name depl = o_name ?r" "d_labels depl = labels_of ?vopt"
    "d_replicas depl = word_of_int (o_replicas ?r)"
    using NewDeployment_Ok_wf[OF depl] NewDeployment_Ok_sel[OF depl] by auto
  show ?thesis
    using load wf ok
    by (intro exI[of _ ?vopt])
      (auto simp: load_config_def driver_for_def NewConfigMap_def Let_def resolve_runtime_sel(1,2,3)
        split: if_splits sum.splits)
qed

lemma configured_resolved:
  assumes "\<And>k v. m k = Some v \<Longrightarrow> option_valid k v" and "is_opt st = default_opt cfg"
    and "kd_loadbalance (is_driver st) = LoadbalanceSticky"
  shows "o_runtime (resolve_runtime (is_opt (configured m st))) \<in> set [''docker'', ''containerd'']"
    "o_worker (resolve_runtime (is_opt (configured m st))) \<in> set [[], ''containerd'', ''runc'']"
    "o_name (is_opt (configured m st)) = buildxNameToDeploymentName (ic_name cfg)"
    "kd_loadbalance (is_driver (configured m st)) \<in> set [LoadbalanceSticky, LoadbalanceRandom]"
proof -
  have rt: "v \<in> set [''auto'', ''docker'', ''containerd'']" if "m ''runtime'' = Some v" for v
    using assms(1)[OF that] by (simp add: option_valid_def)
  have wk: "v \<in> set [''auto'', ''containerd'', ''runc'']" if "m ''worker'' = Some v" for v
    using assms(1)[OF that] by (simp add: option_valid_def kube_const_defs)
  have lb: "v \<in> set [LoadbalanceSticky, LoadbalanceRandom]" if "m ''loadbalance'' = Some v" for v
    using assms(1)[OF that] by (simp add: option_valid_def)
  have r: "o_runtime (is_opt (configured m st)) \<in> set [''auto'', ''docker'', ''containerd'']"
    using rt assms(2)
    by (cases "m ''runtime''") (simp_all add: configured_def Let_def default_opt_def DefaultContainerRuntime_def)
  have w: "o_worker (is_opt (configured m st)) \<in> set [[], ''auto'', ''containerd'', ''runc'']"
    using wk assms(2) by (cases "m ''worker''") (simp_all add: configured_def Let_def default_opt_def)
  show "o_runtime (resolve_runtime (is_opt (configured m st))) \<in> set [''docker'', ''containerd'']"
    using r unfolding resolve_runtime_sel by auto
  show "o_worker (resolve_runtime (is_opt (configured m st))) \<in> set [[], ''containerd'', ''runc'']"
    using r w unfolding resolve_runtime_sel by auto
  show "o_name (is_opt (configured m st)) = buildxNameToDeploymentName (ic_name cfg)"
    using assms(2) by (simp add: configured_def Let_def default_opt_def)
  show "kd_loadbalance (is_driver (configured m st)) \<in> set [LoadbalanceSticky, LoadbalanceRandom]"
    using lb assms(3) by (cases "m ''loadbalance''") (simp_all add: configured_def Let_def)
qed


lemma factory_New_Ok_iff:
  "factory_New fe cfg = Ok d \<longleftrightarrow>
     (\<exists>kube ns d'. ic_kube cfg = Some kube \<and> kc_namespace kube = Ok ns \<and> kc_client_config kube = Ok () \<and>
        fe_new_for_config fe = Ok () \<and>
        initDriverFromConfig fe
          \<lparr>kd_config = cfg, kd_min_replicas = 0, kd_deployment = no_deployment, kd_config_map = no_config_map,
           kd_chooser = None, kd_user_runtime = False, kd_user_config = False, kd_namespace = ns,
           kd_loadbalance = LoadbalanceSticky, kd_auth_hint = []\<rparr> = (None, d') \<and>
        d = d'\<lparr>kd_chooser := pod_chooser_for cfg d'\<rparr>)"
  by (auto simp: factory_New_def and_then_Inr_iff split: option.splits sum.splits prod.splits)

section \<open>Properties\<close>

text \<open>
  C30: The driver that is made does not depend on the order in which the map of options is
  visited: if one order makes a driver, every order makes the same one.
\<close>

theorem factory_New_order:
  assumes "distinct (map fst (ic_driver_opts cfg))" and "mset opts = mset (ic_driver_opts cfg)"
    and "factory_New fe cfg = Ok d"
  shows "factory_New fe (cfg\<lparr>ic_driver_opts := opts\<rparr>) = Ok (d\<lparr>kd_config := cfg\<lparr>ic_driver_opts := opts\<rparr>\<rparr>)"
proof -
  from assms(3) obtain kube ns d' where d': "ic_kube cfg = Some kube" "kc_namespace kube = Ok ns"
    "kc_client_config kube = Ok ()" "fe_new_for_config fe = Ok ()"
    "initDriverFromConfig fe
          \<lparr>kd_config = cfg, kd_min_replicas = 0, kd_deployment = no_deployment, kd_config_map = no_config_map,
           kd_chooser = None, kd_user_runtime = False, kd_user_config = False, kd_namespace = ns,
           kd_loadbalance = LoadbalanceSticky, kd_auth_hint = []\<rparr> = (None, d')"
    "d = d'\<lparr>kd_chooser := pod_chooser_for cfg d'\<rparr>"
    unfolding factory_New_Ok_iff by blast
  from initDriver_order[OF _ _ d'(5), of opts] assms(1,2) d'(1-4,6) show ?thesis
    unfolding factory_New_Ok_iff by (simp add: pod_chooser_for_def)
qed

definition example_env :: factory_env where
  "example_env = \<lparr>fe_read_file = (\<lambda>_. Err (External ''no such file'')), fe_visit = id, fe_new_for_config = Ok ()\<rparr>"

definition example_config :: init_config where
  "example_config =
     \<lparr>ic_name = ''ci'', ic_kube = Some \<lparr>kc_namespace = Ok ''default'', kc_client_config = Ok ()\<rparr>,
      ic_flags = [], ic_config_file = [],
      ic_driver_opts = [(''rootless'', ''true''), (''image'', ''my/buildkit''), (''worker'', ''auto'')],
      ic_context_path_hash = ''/src''\<rparr>"

lemma example_factory_New: "\<exists>d. factory_New example_env example_config = Ok d"
proof -
  have "list_all (\<lambda>(k, v). option_valid k v) (ic_driver_opts example_config)"
    by (auto simp add: example_config_def option_valid_def parse_bool_def)
  then show ?thesis
    unfolding factory_New_Ok_iff
    by (subst initDriver_Ok_iff)
      (auto simp: example_config_def example_env_def finish_init_def configured_def Let_def
        default_opt_def resolve_runtime_def kube_const_defs parse_bool_or_false_def parse_bool_def
        NewDeployment_eq load_config_def)
qed

theorem factory_New_order_witness:
  "\<exists>d. factory_New example_env (example_config\<lparr>ic_driver_opts :=
      [(''worker'', ''auto''), (''image'', ''my/buildkit''), (''rootless'', ''true'')]\<rparr>) = Ok d"
proof -
  obtain d where d: "factory_New example_env example_config = Ok d" using example_factory_New ..
  have "distinct (map fst (ic_driver_opts example_config))"
    "mset [(''worker'', ''auto''), (''image'', ''my/buildkit''), (''rootless'', ''true'')] = mset (ic_driver_opts example_config)"
    by (simp_all add: example_config_def)
  from factory_New_order[OF this d] show ?thesis by blast
qed




end
