(* ===== verification/KubeCreation.thy ===== *)
theory KubeCreation
  imports KubeFactory
begin

text \<open>
  Bringing a builder up: \<open>pkg/driver/kubernetes/creation.go\<close> with \<open>wait\<close>,
  \<open>isChildOf\<close> and \<open>Bootstrap\<close> of \<open>driver.go\<close>. The API server and the client library
  are the record \<open>kube\<close> of operations on an outside world \<open>'w\<close>; what the code assumes
  of them is stated where a theorem needs it. The driver is passed along, because a retry
  with the other container runtime initialises it anew.
\<close>

section \<open>The API server\<close>

record event =
  ev_uid :: string
  ev_type :: string
  ev_reason :: string
  ev_message :: string

record replica_set =
  rs_name :: string
  rs_namespace :: string
  rs_uid :: string
  rs_kind :: string
  rs_owners :: "string list"

text \<open>
  The namespaced clients. \<open>k_selector\<close> is \<open>LabelSelectorAsSelector\<close> of one label, rendered;
  \<open>k_field_selector\<close> is \<open>GetFieldSelector\<close>, rendered; \<open>k_client_config\<close> is the
  \<open>ClientConfig\<close> of the configuration; \<open>k_executor\<close> is \<open>NewSPDYExecutor\<close> for a
  command in a container; \<open>k_stream\<close> runs one and gives what it wrote to its output.
\<close>

record 'w kube =
  k_sys :: "'w sys"
  k_selector :: "string \<Rightarrow> string \<Rightarrow> string result"
  k_field_selector :: "string \<Rightarrow> string \<Rightarrow> string option \<Rightarrow> string option \<Rightarrow> string"
  k_client_config :: "unit result"
  k_depl_get :: "string \<Rightarrow> 'w \<Rightarrow> deployment result \<times> 'w"
  k_depl_create :: "deployment \<Rightarrow> 'w \<Rightarrow> deployment result \<times> 'w"
  k_depl_update :: "deployment \<Rightarrow> 'w \<Rightarrow> deployment result \<times> 'w"
  k_depl_delete :: "string \<Rightarrow> 'w action"
  k_depl_list :: "'w \<Rightarrow> deployment list result \<times> 'w"
  k_rs_list :: "string \<Rightarrow> 'w \<Rightarrow> replica_set list result \<times> 'w"
  k_rs_delete :: "string \<Rightarrow> 'w action"
  k_pod_list :: "string \<Rightarrow> 'w \<Rightarrow> pod list result \<times> 'w"
  k_pod_delete :: "string \<Rightarrow> 'w action"
  k_event_list :: "string \<Rightarrow> 'w \<Rightarrow> event list result \<times> 'w"
  k_cm_get :: "string \<Rightarrow> 'w \<Rightarrow> config_map result \<times> 'w"
  k_cm_create :: "config_map \<Rightarrow> 'w \<Rightarrow> config_map result \<times> 'w"
  k_cm_update :: "config_map \<Rightarrow> 'w \<Rightarrow> config_map result \<times> 'w"
  k_cm_delete :: "string \<Rightarrow> 'w action"
  k_secret_get :: "string \<Rightarrow> 'w \<Rightarrow> (string \<rightharpoonup> string) result \<times> 'w"
  k_executor :: "exec_conn \<Rightarrow> unit result"
  k_stream :: "exec_conn \<Rightarrow> 'w \<Rightarrow> (go_error option \<times> string) \<times> 'w"

definition IsNotFound :: "go_error \<Rightarrow> bool" where
  "IsNotFound e = (case e of NotFound _ \<Rightarrow> True | _ \<Rightarrow> False)"

definition isChildOf :: "string list \<Rightarrow> string \<Rightarrow> bool" where
  "isChildOf owner_uids parentUID = list_ex (\<lambda>uid. uid = parentUID) owner_uids"

text \<open>\<open>errors.Wrap\<close> and \<open>errors.Wrapf\<close> of a nil error are nil.\<close>

definition wrap_opt :: "go_error option \<Rightarrow> string \<Rightarrow> string list \<Rightarrow> go_error option" where
  "wrap_opt err msg args = (case err of None \<Rightarrow> None | Some e \<Rightarrow> Some (Wrapf e msg args))"

definition err_of :: "'a result \<Rightarrow> go_error option" where
  "err_of r = (case r of Inl e \<Rightarrow> Some e | Inr _ \<Rightarrow> None)"

text \<open>A logger of one progress step, as the functions below use it.\<close>

type_synonym 'w line_logger = "string \<Rightarrow> 'w \<Rightarrow> 'w"

section \<open>The config map\<close>

text \<open>One round; the locals are the latest error and the verb of the latest attempt.\<close>

definition config_map_round ::
  "'w kube \<Rightarrow> kube_driver \<Rightarrow> 'w line_logger \<Rightarrow> go_error option \<times> string \<times> 'w \<Rightarrow>
     go_error option step \<times> go_error option \<times> string \<times> 'w" where
  "config_map_round K d log = (\<lambda>(err, latestVerb, w).
     if sys_done (k_sys K) w then (Return err, err, latestVerb, w)
     else
       case k_cm_get K (cm_name (kd_config_map d)) w of
         (Inl e, w) \<Rightarrow>
           if IsNotFound e then
             (case k_cm_create K (kd_config_map d) w of
                (Inr _, w) \<Rightarrow> (Return None, None, ''create'', w)
              | (Inl e, w) \<Rightarrow>
                  (Again, Some e, ''create'', RandSleep (k_sys K) 1000
                     (log (''Warning '' @ [CHR 9] @ ''failed to '' @ ''create'' @ '' configmap ''
                        @ sys_text (k_sys K) e @ '' - retrying...'' @ [CHR 10]) w)))
           else (Again, Some e, latestVerb, RandSleep (k_sys K) 1000 w)
       | (Inr _, w) \<Rightarrow>
           if kd_user_config d then
             (case k_cm_update K (kd_config_map d) w of
                (Inr _, w) \<Rightarrow> (Return None, None, ''update'', w)
              | (Inl e, w) \<Rightarrow>
                  (Again, Some e, ''update'', RandSleep (k_sys K) 1000
                     (log (''Warning '' @ [CHR 9] @ ''failed to '' @ ''update'' @ '' configmap ''
                        @ sys_text (k_sys K) e @ '' - retrying...'' @ [CHR 10]) w)))
           else (Return None, None, latestVerb, w))"

definition createConfigMap :: "'w kube \<Rightarrow> kube_driver \<Rightarrow> 'w line_logger \<Rightarrow> 'w \<Rightarrow> (go_error option \<times> 'w) option" where
  "createConfigMap K d log w =
     (case loop (config_map_round K d log) (Some (Errorf ''timeout before first attempt'' []), [], w) of
        None \<Rightarrow> None
      | Some (r, _, _, w) \<Rightarrow> Some (r, w))"

section \<open>What the deployment owns\<close>

definition getReplicaSets :: "'w kube \<Rightarrow> kube_driver \<Rightarrow> deployment \<Rightarrow> 'w \<Rightarrow> replica_set list result \<times> 'w" where
  "getReplicaSets K d depl w =
     (case k_selector K ''app'' (d_name (kd_deployment d)) of
        Inl e \<Rightarrow> (Err e, w)
      | Inr selector \<Rightarrow>
          (case k_rs_list K selector w of
             (Inl e, w) \<Rightarrow> (Err (Wrapf e ''list on replicaset %v failed'' [selector]), w)
           | (Inr items, w) \<Rightarrow> (Ok (filter (\<lambda>r. isChildOf (rs_owners r) (d_uid depl)) items), w)))"

definition non_empty :: "string \<Rightarrow> string option" where
  "non_empty s = (if s = [] then None else Some s)"

definition getReplicaEvents :: "'w kube \<Rightarrow> replica_set \<Rightarrow> 'w \<Rightarrow> event list result \<times> 'w" where
  "getReplicaEvents K r w =
     k_event_list K (k_field_selector K (rs_name r) (rs_namespace r) (non_empty (rs_kind r)) (non_empty (rs_uid r))) w"

section \<open>The builder\<close>

text \<open>The locals of \<open>createBuilder\<close> that live across rounds or are written by its closures,
  and the driver.\<close>

record builder_state =
  cb_driver :: kube_driver
  cb_err :: "go_error option"
  cb_depl :: deployment
  cb_ref_uid :: "string option"
  cb_ref_kind :: "string option"
  cb_reported :: "string list"

type_synonym 'w cb = "builder_state \<times> 'w"

definition event_line :: "event \<Rightarrow> string \<Rightarrow> string" where
  "event_line ev resource =
     ev_type ev @ '' '' @ [CHR 9] @ resource @ '' '' @ [CHR 9] @ ev_reason ev @ '' '' @ [CHR 9]
     @ ev_message ev @ [CHR 10]"

fun logEvents ::
  "'w line_logger \<Rightarrow> string \<Rightarrow> string \<Rightarrow> (event \<Rightarrow> 'w cb \<Rightarrow> go_error option \<times> 'w cb) \<Rightarrow> event list \<Rightarrow>
     'w cb \<Rightarrow> go_error option \<times> 'w cb" where
  "logEvents log resource originUID callback [] s = (None, s)"
| "logEvents log resource originUID callback (ev # evs) (st, w) =
     (let msg = event_line ev resource in
      if ev_uid ev \<noteq> originUID \<or> msg \<in> set (cb_reported st)
      then logEvents log resource originUID callback evs (st, w)
      else
        let s = (st\<lparr>cb_reported := msg # cb_reported st\<rparr>, log msg w) in
        if ev_type ev = ''Normal'' then logEvents log resource originUID callback evs s
        else
          case callback ev s of
            (Some e, s) \<Rightarrow> (Some e, s)
          | (None, s) \<Rightarrow> logEvents log resource originUID callback evs s)"

text \<open>Deleting the pods of the stale replica set; errors are logged only.\<close>

definition log_failure :: "'w kube \<Rightarrow> 'w line_logger \<Rightarrow> string \<Rightarrow> go_error option \<Rightarrow> 'w \<Rightarrow> 'w" where
  "log_failure K log what err w =
     (case err of
        Some e \<Rightarrow>
          if IsNotFound e then w
          else log (''Warning '' @ [CHR 9] @ what @ '' deletion failed '' @ sys_text (k_sys K) e @ [CHR 10]) w
      | None \<Rightarrow> w)"

fun delete_pods :: "'w kube \<Rightarrow> 'w line_logger \<Rightarrow> string \<Rightarrow> pod list \<Rightarrow> 'w \<Rightarrow> 'w" where
  "delete_pods K log replicaUID [] w = w"
| "delete_pods K log replicaUID (p # ps) w =
     (if \<not> isChildOf (p_owners p) replicaUID then delete_pods K log replicaUID ps w
      else
        let (err, w) = k_pod_delete K (p_name p) w
        in delete_pods K log replicaUID ps (log_failure K log ''pod'' err w))"

text \<open>The other container runtime, as the switch of the source has it.\<close>

definition other_runtime :: "string \<Rightarrow> string result" where
  "other_runtime attempted =
     (if attempted = ''containerd'' then Ok ''docker''
      else if attempted = ''docker'' then Ok ''containerd''
      else Err (Errorf ''unexpected runtime: %s'' [attempted]))"

definition socket_failure :: "event \<Rightarrow> bool" where
  "socket_failure ev \<longleftrightarrow> ev_reason ev = ''FailedMount'' \<and> contains_str (ev_message ev) ''is not a socket file''"

definition set_runtime :: "string \<Rightarrow> kube_driver \<Rightarrow> kube_driver" where
  "set_runtime runtime d =
     d\<lparr>kd_config := (kd_config d)\<lparr>ic_driver_opts :=
        AList.update ''worker'' ''auto'' (AList.update ''runtime'' runtime (ic_driver_opts (kd_config d)))\<rparr>\<rparr>"

text \<open>The callback on an event of a pod: deploy again for the other runtime, once.\<close>

definition switch_runtime ::
  "'w kube \<Rightarrow> factory_env \<Rightarrow> 'w line_logger \<Rightarrow> replica_set \<Rightarrow> pod list \<Rightarrow> event \<Rightarrow>
     'w cb \<Rightarrow> go_error option \<times> 'w cb" where
  "switch_runtime K fe log replica pods ev = (\<lambda>(st, w).
     if \<not> socket_failure ev then (None, (st, w))
     else if kd_user_runtime (cb_driver st) then
       (Some (Errorf ''pod failed to initialize - did you pick the correct runtime? - %s'' [ev_message ev]), (st, w))
     else
       case other_runtime DefaultContainerRuntime of
         Inl e \<Rightarrow> (Some e, (st, w))
       | Inr runtime \<Rightarrow>
           let w = log (''Warning '' @ [CHR 9] @ ''initial attempt to deploy configured for the ''
                 @ DefaultContainerRuntime @ '' runtime failed, retrying with '' @ runtime @ [CHR 10]) w
           in case initDriverFromConfig fe (set_runtime runtime (cb_driver st)) of
                (Some e, d) \<Rightarrow> (Some e, (st\<lparr>cb_driver := d\<rparr>, w))
              | (None, d) \<Rightarrow>
                  let depl = (kd_deployment d)\<lparr>d_resource_version := d_resource_version (cb_depl st)\<rparr>;
                      st = st\<lparr>cb_driver := d\<lparr>kd_deployment := depl\<rparr>\<rparr>
                  in case k_depl_update K depl w of
                       (Inl e, w) \<Rightarrow>
                         (Some (Wrapf e ''error while calling deploymentClient.Update for %q'' [d_name depl]), (st, w))
                     | (Inr depl2, w) \<Rightarrow>
                         let (err, w) = k_rs_delete K (rs_name replica) w;
                             w = log_failure K log ''replicaset'' err w;
                             w = delete_pods K log (rs_uid replica) pods w
                         in (None, (st\<lparr>cb_depl := depl2\<rparr>, RandSleep (k_sys K) 2000 w)))"

text \<open>
  The loop over the pods of a replica set. The errors that it meets are assigned to the
  variable that \<open>selector, err :=\<close> declares in the enclosing loop body, which nothing
  reads afterwards; so the loop only has a new state.
\<close>

fun inspect_pods ::
  "'w kube \<Rightarrow> factory_env \<Rightarrow> 'w line_logger \<Rightarrow> replica_set \<Rightarrow> pod list \<Rightarrow> pod list \<Rightarrow> 'w cb \<Rightarrow> 'w cb" where
  "inspect_pods K fe log replica all [] s = s"
| "inspect_pods K fe log replica all (p # ps) (st, w) =
     (if \<not> isChildOf (p_owners p) (rs_uid replica) then inspect_pods K fe log replica all ps (st, w)
      else
        let st = st\<lparr>cb_ref_uid := (if p_uid p = [] then cb_ref_uid st else Some (p_uid p)),
                    cb_ref_kind := (if p_kind p = [] then cb_ref_kind st else Some (p_kind p))\<rparr>;
            selector = k_field_selector K (p_name p) (p_namespace p) (cb_ref_kind st) (cb_ref_uid st)
        in case k_event_list K selector w of
             (Inl _, w) \<Rightarrow> (st, RandSleep (k_sys K) 1000 w)
           | (Inr events, w) \<Rightarrow>
               let (_, s) = logEvents log (p_name p) (p_uid p) (switch_runtime K fe log replica all) events (st, w)
               in inspect_pods K fe log replica all ps s)"

text \<open>
  The loop over the replica sets. \<open>Some e\<close> is the early return of \<open>createBuilder\<close>; a failed
  \<open>getReplicaEvents\<close> sets the error of the round and breaks off.
\<close>

fun inspect_replicas ::
  "'w kube \<Rightarrow> factory_env \<Rightarrow> 'w line_logger \<Rightarrow> replica_set list \<Rightarrow> 'w cb \<Rightarrow> go_error option \<times> 'w cb" where
  "inspect_replicas K fe log [] s = (None, s)"
| "inspect_replicas K fe log (r # rs) (st, w) =
     (case getReplicaEvents K r w of
        (Inl e, w) \<Rightarrow>
          (None, (st\<lparr>cb_err := Some (Wrapf e ''failed to retrieve replicaset for deployment %s'' [d_name (cb_depl st)])\<rparr>, w))
      | (Inr events, w) \<Rightarrow>
          let (_, st, w) = logEvents log (rs_name r) (rs_uid r) (\<lambda>_ s. (None, s)) events (st, w) in
          (case k_selector K ''app'' (d_name (kd_deployment (cb_driver st))) of
             Inl e \<Rightarrow> (Some e, (st, w))
           | Inr selector \<Rightarrow>
               (case k_pod_list K selector w of
                  (Inl _, w) \<Rightarrow> inspect_replicas K fe log rs (st, RandSleep (k_sys K) 1000 w)
                | (Inr pods, w) \<Rightarrow> inspect_replicas K fe log rs (inspect_pods K fe log r pods pods (st, w)))))"

text \<open>The comparison \<open>depl.Status.ReadyReplicas >= int32(d.minReplicas)\<close>.\<close>

definition all_ready :: "kube_driver \<Rightarrow> deployment \<Rightarrow> bool" where
  "all_ready d depl \<longleftrightarrow> sint (word_of_int (kd_min_replicas d) :: 32 word) \<le> sint (d_ready_replicas depl)"

definition builder_round ::
  "'w kube \<Rightarrow> factory_env \<Rightarrow> 'w line_logger \<Rightarrow> 'w cb \<Rightarrow> go_error option step \<times> 'w cb" where
  "builder_round K fe log = (\<lambda>(st, w).
     if sys_done (k_sys K) w then
       (Return (wrap_opt (cb_err st) ''timed out waiting for builder to become ready'' []), (st, w))
     else
       let d = cb_driver st;
           (got, w) = k_depl_get K (d_name (kd_deployment d)) w;
           (got, w) = (case got of
              Inl e \<Rightarrow> if IsNotFound e then k_depl_create K (kd_deployment d) w else (got, w)
            | Inr _ \<Rightarrow> (got, w))
       in case got of
            Inl e \<Rightarrow> (Again, (st\<lparr>cb_err := Some e\<rparr>, RandSleep (k_sys K) 1000 w))
          | Inr depl \<Rightarrow>
              let st = st\<lparr>cb_err := None, cb_depl := depl\<rparr> in
              if all_ready d depl then
                (Return None, (st, log (''All '' @ itoa (kd_min_replicas d) @ '' replicas for ''
                   @ d_name (kd_deployment d) @ '' online'' @ [CHR 10]) w))
              else
                case getReplicaSets K d depl w of
                  (Inl e, w) \<Rightarrow>
                    (Again, (st\<lparr>cb_err := Some (Wrapf e ''failed to retrieve replicaset for deployment %s'' [d_name depl])\<rparr>,
                       RandSleep (k_sys K) 1000 w))
                | (Inr replicas, w) \<Rightarrow>
                    (case inspect_replicas K fe log replicas (st, w) of
                       (Some e, s) \<Rightarrow> (Return (Some e), s)
                     | (None, (st, w)) \<Rightarrow> (Again, (st, sys_sleep (k_sys K) 500 w))))"

definition createBuilder ::
  "'w kube \<Rightarrow> factory_env \<Rightarrow> 'w line_logger \<Rightarrow> kube_driver \<times> 'w \<Rightarrow> (go_error option \<times> kube_driver \<times> 'w) option" where
  "createBuilder K fe log = (\<lambda>(d, w).
     case loop (builder_round K fe log)
       (\<lparr>cb_driver = d, cb_err = None, cb_depl = no_deployment, cb_ref_uid = None, cb_ref_kind = None,
         cb_reported = []\<rparr>, w) of
       None \<Rightarrow> None
     | Some (r, st, w) \<Rightarrow> Some (r, cb_driver st, w))"

text \<open>\<open>wait\<close> (driver.go): the config map, then the builder.\<close>

definition wait_builder ::
  "'w kube \<Rightarrow> factory_env \<Rightarrow> 'w line_logger \<Rightarrow> kube_driver \<times> 'w \<Rightarrow> (go_error option \<times> kube_driver \<times> 'w) option" where
  "wait_builder K fe log = (\<lambda>(d, w).
     case createConfigMap K d log w of
       None \<Rightarrow> None
     | Some (Some e, w) \<Rightarrow> Some (Some e, d, w)
     | Some (None, w) \<Rightarrow> createBuilder K fe log (d, w))"


section \<open>Time passes\<close>

text \<open>A world with a clock: no call turns it back, and the reads that start a round take time.\<close>

definition timed_kube :: "('w \<Rightarrow> nat) \<Rightarrow> nat \<Rightarrow> 'w kube \<Rightarrow> 'w line_logger \<Rightarrow> bool" where
  "timed_kube clock deadline K log \<longleftrightarrow>
     timed_sys clock deadline (k_sys K) \<and>
     (\<forall>s w. clock w \<le> clock (log s w)) \<and>
     (\<forall>n w. clock w < clock (snd (k_depl_get K n w))) \<and>
     (\<forall>n w. clock w < clock (snd (k_cm_get K n w))) \<and>
     (\<forall>d w. clock w \<le> clock (snd (k_depl_create K d w))) \<and>
     (\<forall>d w. clock w \<le> clock (snd (k_depl_update K d w))) \<and>
     (\<forall>c w. clock w \<le> clock (snd (k_cm_create K c w))) \<and>
     (\<forall>c w. clock w \<le> clock (snd (k_cm_update K c w))) \<and>
     (\<forall>s w. clock w \<le> clock (snd (k_rs_list K s w))) \<and>
     (\<forall>n w. clock w \<le> clock (snd (k_rs_delete K n w))) \<and>
     (\<forall>s w. clock w \<le> clock (snd (k_pod_list K s w))) \<and>
     (\<forall>n w. clock w \<le> clock (snd (k_pod_delete K n w))) \<and>
     (\<forall>s w. clock w \<le> clock (snd (k_event_list K s w)))"

lemma timed_kube_sys: "timed_kube clock deadline K log \<Longrightarrow> timed_sys clock deadline (k_sys K)"
  by (simp add: timed_kube_def)

lemma timed_kube_done: "timed_kube clock deadline K log \<Longrightarrow> sys_done (k_sys K) w \<longleftrightarrow> deadline \<le> clock w"
  by (simp add: timed_kube_def timed_sys_def)

text \<open>The clock rules: each for one call, as what is left of the call's result.\<close>

lemma clock_strict:
  assumes "timed_kube clock deadline K log"
  shows "k_depl_get K n w = (rd, w') \<Longrightarrow> clock w < clock w'" "k_cm_get K n w = (rc, w') \<Longrightarrow> clock w < clock w'"
  using assms unfolding timed_kube_def by (metis snd_conv)+

lemma clock_calls:
  assumes "timed_kube clock deadline K log"
  shows "clock w \<le> clock (log s w)" "clock w \<le> clock (RandSleep (k_sys K) m w)" "clock w \<le> clock (sys_sleep (k_sys K) m w)"
    "k_depl_create K d w = (rd, w') \<Longrightarrow> clock w \<le> clock w'" "k_depl_update K d w = (rd, w') \<Longrightarrow> clock w \<le> clock w'"
    "k_cm_create K c w = (rc, w') \<Longrightarrow> clock w \<le> clock w'" "k_cm_update K c w = (rc, w') \<Longrightarrow> clock w \<le> clock w'"
    "k_rs_list K s w = (rr, w') \<Longrightarrow> clock w \<le> clock w'" "k_rs_delete K n w = (e, w') \<Longrightarrow> clock w \<le> clock w'"
    "k_pod_list K s w = (rp, w') \<Longrightarrow> clock w \<le> clock w'" "k_pod_delete K n w = (e, w') \<Longrightarrow> clock w \<le> clock w'"
    "k_event_list K s w = (re, w') \<Longrightarrow> clock w \<le> clock w'"
  using assms clock_RandSleep[OF timed_kube_sys[OF assms]] timed_kube_sys[OF assms]
  unfolding timed_kube_def timed_sys_def by (metis snd_conv)+

section \<open>The config map comes to be\<close>

lemma config_map_round_Again:
  assumes "timed_kube clock deadline K log"
    and "config_map_round K d log (err, verb, w) = (Again, err', verb', w')"
  shows "clock w < clock w' \<and> clock w < deadline"
proof -
  note calls = clock_calls[OF assms(1)] and strict = clock_strict[OF assms(1)]
  have live: "clock w < deadline"
    using assms(2) timed_kube_done[OF assms(1)] by (auto simp: config_map_round_def not_le split: if_splits)
  obtain rg w1 where g: "k_cm_get K (cm_name (kd_config_map d)) w = (rg, w1)" by fastforce
  obtain rc w2 where c: "k_cm_create K (kd_config_map d) w1 = (rc, w2)" by fastforce
  obtain ru w3 where u: "k_cm_update K (kd_config_map d) w1 = (ru, w3)" by fastforce
  have "clock w < clock w1" using strict(2)[OF g] .
  moreover have "clock w1 \<le> clock w'"
    using assms(2) g c u calls(6)[OF c] calls(7)[OF u]
      calls(1,2)[THEN le_trans[rotated]]
    by (cases rg; cases rc; cases ru)
      (auto simp: config_map_round_def split: if_splits intro: calls(2) le_trans[OF _ le_trans[OF calls(1) calls(2)]])
  ultimately show ?thesis using live by simp
qed


text \<open>What the server promises of the config maps that it stores (\<open>cms\<close>).\<close>

definition config_map_store :: "('w \<Rightarrow> string \<rightharpoonup> config_map) \<Rightarrow> 'w kube \<Rightarrow> bool" where
  "config_map_store cms K \<longleftrightarrow>
     (\<forall>n w cm w'. k_cm_get K n w = (Ok cm, w') \<longrightarrow> cms w' n = Some cm) \<and>
     (\<forall>cm w r w'. k_cm_create K cm w = (Ok r, w') \<longrightarrow> cms w' (cm_name cm) = Some cm) \<and>
     (\<forall>cm w r w'. k_cm_update K cm w = (Ok r, w') \<longrightarrow> cms w' (cm_name cm) = Some cm)"

lemma config_map_round_Return:
  assumes "config_map_store cms K" and "config_map_round K d log (err, verb, w) = (Return r, err', verb', w')"
  shows "(sys_done (k_sys K) w \<and> r = err \<and> w' = w) \<or>
    (r = None \<and> (\<exists>cm. cms w' (cm_name (kd_config_map d)) = Some cm \<and> (kd_user_config d \<longrightarrow> cm = kd_config_map d)))"
proof (cases "sys_done (k_sys K) w")
  case True
  then show ?thesis using assms(2) by (simp add: config_map_round_def)
next
  case False
  obtain rg w1 where g: "k_cm_get K (cm_name (kd_config_map d)) w = (rg, w1)" by fastforce
  obtain rc w2 where c: "k_cm_create K (kd_config_map d) w1 = (rc, w2)" by fastforce
  obtain ru w3 where u: "k_cm_update K (kd_config_map d) w1 = (ru, w3)" by fastforce
  have "cms w1 (cm_name (kd_config_map d)) = Some cm" if "rg = Ok cm" for cm
    using assms(1) g that by (auto simp: config_map_store_def)
  moreover have "cms w2 (cm_name (kd_config_map d)) = Some (kd_config_map d)" if "rc = Ok cm" for cm
    using assms(1) c that by (auto simp: config_map_store_def)
  moreover have "cms w3 (cm_name (kd_config_map d)) = Some (kd_config_map d)" if "ru = Ok cm" for cm
    using assms(1) u that by (auto simp: config_map_store_def)
  ultimately show ?thesis using assms(2) False g c u
    by (cases rg; cases rc; cases ru) (auto simp: config_map_round_def split: if_splits)
qed

text \<open>The error of a round that goes on; \<open>None\<close> never goes round.\<close>

lemma config_map_round_err:
  "config_map_round K d log (err, verb, w) = (Again, err', verb', w') \<Longrightarrow> err' \<noteq> None"
  by (auto simp: config_map_round_def split: if_splits prod.splits sum.splits)

lemma createConfigMap_result:
  assumes "timed_kube clock deadline K log" and "config_map_store cms K"
  shows "\<exists>r w'. createConfigMap K d log w = Some (r, w') \<and>
    (case r of
       None \<Rightarrow> \<exists>cm. cms w' (cm_name (kd_config_map d)) = Some cm \<and> (kd_user_config d \<longrightarrow> cm = kd_config_map d)
     | Some e \<Rightarrow> deadline \<le> clock w')"
proof -
  let ?start = "(Some (Errorf ''timeout before first attempt'' []), [], w)"
  have "\<exists>r s. loop (config_map_round K d log) ?start = Some (r, s)"
  proof (rule loop_returns[where I = "\<lambda>_. True" and m = "\<lambda>(_, _, w). deadline - clock w"])
    fix s s' assume "config_map_round K d log s = (Again, s')"
    then show "True \<and> (case s' of (_, _, w) \<Rightarrow> deadline - clock w) < (case s of (_, _, w) \<Rightarrow> deadline - clock w)"
      using config_map_round_Again[OF assms(1)] by (cases s; cases s') fastforce
  qed simp
  then obtain r e v w' where run: "loop (config_map_round K d log) ?start = Some (r, e, v, w')" by auto
  then obtain s where s: "fst s \<noteq> None" "config_map_round K d log s = (Return r, e, v, w')"
    by (rule loop_last[where I = "\<lambda>s. fst s \<noteq> None"])
      (auto dest: config_map_round_err)
  obtain err verb w1 where "s = (err, verb, w1)" by (cases s) auto
  then show ?thesis
    using config_map_round_Return[OF assms(2), of d log err verb w1 r e v w'] s run
      timed_kube_done[OF assms(1)]
    by (auto simp: createConfigMap_def split: option.splits)
qed


section \<open>A round of the builder takes time\<close>

text \<open>A callback that never turns the clock back.\<close>

definition monotone_step :: "('w \<Rightarrow> nat) \<Rightarrow> ('w cb \<Rightarrow> 'x \<times> 'w cb) \<Rightarrow> bool" where
  "monotone_step clock f \<longleftrightarrow> (\<forall>s. clock (snd s) \<le> clock (snd (snd (f s))))"

lemma clock_logEvents:
  assumes "timed_kube clock deadline K log" and "\<And>ev. monotone_step clock (callback ev)"
  shows "clock (snd s) \<le> clock (snd (snd (logEvents log resource uid callback evs s)))"
proof (induction evs arbitrary: s)
  case (Cons ev evs)
  obtain st w where s: "s = (st, w)" by fastforce
  let ?s = "(st\<lparr>cb_reported := event_line ev resource # cb_reported st\<rparr>, log (event_line ev resource) w)"
  obtain r s2 where c: "callback ev ?s = (r, s2)" by (rule prod.exhaust)
  have "clock w \<le> clock (snd ?s)" using clock_calls(1)[OF assms(1)] by simp
  moreover have "clock (snd ?s) \<le> clock (snd s2)" using assms(2)[of ev] c unfolding monotone_step_def by (metis snd_conv)
  ultimately show ?case
    using Cons[of s] Cons[of ?s] Cons[of s2] c s by (auto simp: Let_def split: option.splits)
qed simp

lemma clock_log_failure:
  assumes "timed_kube clock deadline K log"
  shows "clock w \<le> clock (log_failure K log what err w)"
  using clock_calls(1)[OF assms] by (simp add: log_failure_def split: option.splits)

lemma clock_delete_pods:
  assumes "timed_kube clock deadline K log"
  shows "clock w \<le> clock (delete_pods K log uid ps w)"
proof (induction ps arbitrary: w)
  case (Cons p ps)
  obtain e w1 where d: "k_pod_delete K (p_name p) w = (e, w1)" by fastforce
  have "clock w \<le> clock (log_failure K log ''pod'' e w1)"
    using clock_calls(11)[OF assms d] clock_log_failure[OF assms] le_trans by blast
  then show ?case using Cons[of w] Cons[of "log_failure K log ''pod'' e w1"] d
    by (simp del: log_failure_def)
qed simp

lemma clock_switch_runtime:
  assumes "timed_kube clock deadline K log"
  shows "monotone_step clock (switch_runtime K fe log replica pods ev)"
  unfolding monotone_step_def
proof
  fix s :: "builder_state \<times> 'a"
  obtain st w where s: "s = (st, w)" by fastforce
  note calls = clock_calls[OF assms]
  have "clock w \<le> clock (snd st')" if "switch_runtime K fe log replica pods ev (st, w) = (r, st')" for r st'
  proof (cases "socket_failure ev \<and> \<not> kd_user_runtime (cb_driver st)")
    case False
    then show ?thesis using that by (auto simp: switch_runtime_def split: if_splits)
  next
    case True
    obtain rt where rt: "other_runtime DefaultContainerRuntime = Ok rt"
      by (simp add: other_runtime_def DefaultContainerRuntime_def)
    let ?w1 = "log (''Warning '' @ [CHR 9] @ ''initial attempt to deploy configured for the ''
                 @ DefaultContainerRuntime @ '' runtime failed, retrying with '' @ rt @ [CHR 10]) w"
    obtain re d where init: "initDriverFromConfig fe (set_runtime rt (cb_driver st)) = (re, d)" by fastforce
    let ?depl = "(kd_deployment d)\<lparr>d_resource_version := d_resource_version (cb_depl st)\<rparr>"
    obtain ru w2 where upd: "k_depl_update K ?depl ?w1 = (ru, w2)" by fastforce
    obtain e w3 where del: "k_rs_delete K (rs_name replica) w2 = (e, w3)" by fastforce
    let ?w4 = "log_failure K log ''replicaset'' e w3"
    let ?w5 = "delete_pods K log (rs_uid replica) pods ?w4"
    have order: "clock w \<le> clock ?w1" "clock ?w1 \<le> clock w2" "clock w2 \<le> clock w3" "clock w3 \<le> clock ?w4"
      "clock ?w4 \<le> clock ?w5" "clock ?w5 \<le> clock (RandSleep (k_sys K) 2000 ?w5)"
      using calls(1) calls(5)[OF upd] calls(9)[OF del] clock_log_failure[OF assms] clock_delete_pods[OF assms] calls(2)
      by blast+
    then show ?thesis using that True rt init upd del
      by (cases re; cases ru) (auto simp: switch_runtime_def Let_def simp del: delete_pods.simps)
  qed
  then show "clock (snd s) \<le> clock (snd (snd (switch_runtime K fe log replica pods ev s)))"
    by (metis prod.collapse s snd_conv)
qed

lemma clock_inspect_pods:
  assumes "timed_kube clock deadline K log"
  shows "clock (snd s) \<le> clock (snd (inspect_pods K fe log replica all ps s))"
proof (induction ps arbitrary: s)
  case (Cons p ps)
  obtain st w where s: "s = (st, w)" by fastforce
  let ?st = "st\<lparr>cb_ref_uid := (if p_uid p = [] then cb_ref_uid st else Some (p_uid p)),
                    cb_ref_kind := (if p_kind p = [] then cb_ref_kind st else Some (p_kind p))\<rparr>"
  let ?sel = "k_field_selector K (p_name p) (p_namespace p) (cb_ref_kind ?st) (cb_ref_uid ?st)"
  obtain re w1 where ev: "k_event_list K ?sel w = (re, w1)" by fastforce
  have w1: "clock w \<le> clock w1" using clock_calls(12)[OF assms ev] .
  show ?case
  proof (cases "\<not> isChildOf (p_owners p) (rs_uid replica)")
    case True
    then show ?thesis using Cons[of s] s by simp
  next
    case child: False
    show ?thesis
    proof (cases re)
      case (Inl e)
      then show ?thesis using child s ev le_trans[OF w1 clock_calls(2)[OF assms]] by (simp add: Let_def)
    next
      case (Inr events)
      obtain r s2 where l: "logEvents log (p_name p) (p_uid p) (switch_runtime K fe log replica all) events (?st, w1) = (r, s2)"
        by (rule prod.exhaust)
      have "clock w1 \<le> clock (snd s2)"
        using clock_logEvents[OF assms, where callback = "switch_runtime K fe log replica all" and s = "(?st, w1)" and resource = "p_name p" and uid = "p_uid p" and evs = events]
          clock_switch_runtime[OF assms] l
        by simp
      then show ?thesis using child s ev Inr l Cons[of s2] w1 by (simp add: Let_def)
    qed
  qed
qed simp


lemma clock_inspect_replicas:
  assumes "timed_kube clock deadline K log"
  shows "clock (snd s) \<le> clock (snd (snd (inspect_replicas K fe log rs s)))"
proof (induction rs arbitrary: s)
  case (Cons r rs)
  obtain st w where s: "s = (st, w)" by fastforce
  obtain re w1 where ev: "getReplicaEvents K r w = (re, w1)" by fastforce
  then have w1: "clock w \<le> clock w1" using clock_calls(12)[OF assms] unfolding getReplicaEvents_def by blast
  show ?case
  proof (cases re)
    case (Inl e)
    then show ?thesis using s ev w1 by simp
  next
    case (Inr events)
    obtain q st2 w2 where l: "logEvents log (rs_name r) (rs_uid r) (\<lambda>_ s. (None, s)) events (st, w1) = (q, st2, w2)"
      by (metis prod.exhaust)
    have w2: "clock w1 \<le> clock w2"
      using clock_logEvents[OF assms, where callback = "\<lambda>_ s. (None, s)" and s = "(st, w1)"
          and resource = "rs_name r" and uid = "rs_uid r" and evs = events] l
      by (simp add: monotone_step_def)
    show ?thesis
    proof (cases "k_selector K ''app'' (d_name (kd_deployment (cb_driver st2)))")
      case (Inl e)
      then show ?thesis using s ev \<open>re = Inr events\<close> l w1 w2 by simp
    next
      case (Inr sel)
      obtain rp w3 where p: "k_pod_list K sel w2 = (rp, w3)" by fastforce
      have w3: "clock w2 \<le> clock w3" using clock_calls(10)[OF assms p] .
      show ?thesis
      proof (cases rp)
        case (Inl e)
        then show ?thesis using s ev \<open>re = Inr events\<close> l \<open>k_selector K _ _ = Inr sel\<close> p w1 w2 w3
            Cons[of "(st2, RandSleep (k_sys K) 1000 w3)"] clock_calls(2)[OF assms, of w3 1000]
          by simp
      next
        case (Inr pods)
        then show ?thesis using s ev \<open>re = Inr events\<close> l \<open>k_selector K _ _ = Inr sel\<close> p w1 w2 w3
            Cons[of "inspect_pods K fe log r pods pods (st2, w3)"]
            clock_inspect_pods[OF assms, of "(st2, w3)" fe r pods pods]
          by simp
      qed
    qed
  qed
qed simp

text \<open>The first two calls of a round: the deployment is read, and made when there is none.\<close>

definition get_or_create :: "'w kube \<Rightarrow> deployment \<Rightarrow> 'w \<Rightarrow> deployment result \<times> 'w" where
  "get_or_create K depl w =
     (case k_depl_get K (d_name depl) w of
        (Inl e, w) \<Rightarrow> if IsNotFound e then k_depl_create K depl w else (Inl e, w)
      | (Inr x, w) \<Rightarrow> (Inr x, w))"

lemma builder_round_eq:
  "builder_round K fe log (st, w) =
     (if sys_done (k_sys K) w then
        (Return (wrap_opt (cb_err st) ''timed out waiting for builder to become ready'' []), (st, w))
      else case get_or_create K (kd_deployment (cb_driver st)) w of
          (Inl e, w) \<Rightarrow> (Again, (st\<lparr>cb_err := Some e\<rparr>, RandSleep (k_sys K) 1000 w))
        | (Inr depl, w) \<Rightarrow>
            let d = cb_driver st; st = st\<lparr>cb_err := None, cb_depl := depl\<rparr> in
            if all_ready d depl then
              (Return None, (st, log (''All '' @ itoa (kd_min_replicas d) @ '' replicas for ''
                 @ d_name (kd_deployment d) @ '' online'' @ [CHR 10]) w))
            else case getReplicaSets K d depl w of
                (Inl e, w) \<Rightarrow>
                  (Again, (st\<lparr>cb_err := Some (Wrapf e ''failed to retrieve replicaset for deployment %s'' [d_name depl])\<rparr>,
                     RandSleep (k_sys K) 1000 w))
              | (Inr replicas, w) \<Rightarrow>
                  (case inspect_replicas K fe log replicas (st, w) of
                     (Some e, s) \<Rightarrow> (Return (Some e), s)
                   | (None, (st, w)) \<Rightarrow> (Again, (st, sys_sleep (k_sys K) 500 w))))"
  by (simp add: builder_round_def get_or_create_def Let_def split: prod.splits sum.splits)

lemma clock_get_or_create:
  assumes "timed_kube clock deadline K log" and "get_or_create K depl w = (r, w')"
  shows "clock w < clock w'"
proof -
  obtain rg w1 where g: "k_depl_get K (d_name depl) w = (rg, w1)" by fastforce
  obtain rc w2 where c: "k_depl_create K depl w1 = (rc, w2)" by fastforce
  from clock_strict(1)[OF assms(1) g] clock_calls(4)[OF assms(1) c] show ?thesis
    using assms(2) g c by (auto simp: get_or_create_def split: sum.splits if_splits)
qed

lemma clock_getReplicaSets:
  assumes "timed_kube clock deadline K log" and "getReplicaSets K d depl w = (r, w')"
  shows "clock w \<le> clock w'"
proof (cases "k_selector K ''app'' (d_name (kd_deployment d))")
  case (Inl e)
  then show ?thesis using assms(2) by (simp add: getReplicaSets_def)
next
  case (Inr sel)
  obtain rr w1 where l: "k_rs_list K sel w = (rr, w1)" by fastforce
  from clock_calls(8)[OF assms(1) l] show ?thesis
    using assms(2) Inr l by (cases rr) (auto simp: getReplicaSets_def)
qed

lemma clock_builder_round:
  assumes "timed_kube clock deadline K log" and "builder_round K fe log (st, w) = (Again, st', w')"
  shows "clock w < clock w' \<and> clock w < deadline"
proof -
  have live: "clock w < deadline"
    using assms(2) timed_kube_done[OF assms(1)] by (auto simp: builder_round_eq not_le split: if_splits)
  obtain rg w1 where g: "get_or_create K (kd_deployment (cb_driver st)) w = (rg, w1)" by fastforce
  have w1: "clock w < clock w1" using clock_get_or_create[OF assms(1) g] .
  have "clock w1 \<le> clock w'"
  proof (cases rg)
    case (Inl e)
    then show ?thesis using assms(2) g live timed_kube_done[OF assms(1)] clock_calls(2)[OF assms(1)]
      by (auto simp: builder_round_eq)
  next
    case (Inr depl)
    obtain rr w2 where r: "getReplicaSets K (cb_driver st) depl w1 = (rr, w2)" by fastforce
    have w2: "clock w1 \<le> clock w2" using clock_getReplicaSets[OF assms(1) r] .
    show ?thesis
    proof (cases rr)
      case (Inl e)
      then show ?thesis
        using assms(2) g r \<open>rg = Inr depl\<close> live timed_kube_done[OF assms(1)] le_trans[OF w2 clock_calls(2)[OF assms(1)]]
        by (auto simp: builder_round_eq Let_def split: if_splits)
    next
      case (Inr rs)
      let ?st = "st\<lparr>cb_err := None, cb_depl := depl\<rparr>"
      obtain q st3 w3 where i: "inspect_replicas K fe log rs (?st, w2) = (q, st3, w3)" by (metis prod.exhaust)
      have "clock w2 \<le> clock w3" using clock_inspect_replicas[OF assms(1), of "(?st, w2)" fe rs] i by simp
      moreover have "w' = sys_sleep (k_sys K) 500 w3"
        using assms(2) g r i Inr \<open>rg = Inr depl\<close> live timed_kube_done[OF assms(1)]
        by (auto simp: builder_round_eq Let_def split: if_splits option.splits)
      ultimately show ?thesis using w2 clock_calls(3)[OF assms(1), of w3 500] by simp
    qed
  qed
  with w1 live show ?thesis by simp
qed


lemma clock_builder_round_Return:
  assumes "timed_kube clock deadline K log" and "builder_round K fe log (st, w) = (Return r, st', w')"
  shows "clock w \<le> clock w'"
proof (cases "sys_done (k_sys K) w")
  case True
  then show ?thesis using assms(2) by (simp add: builder_round_eq)
next
  case live: False
  obtain rg w1 where g: "get_or_create K (kd_deployment (cb_driver st)) w = (rg, w1)" by fastforce
  have w1: "clock w \<le> clock w1" using clock_get_or_create[OF assms(1) g] by simp
  from assms(2) g live obtain depl where depl: "rg = Inr depl" by (cases rg) (auto simp: builder_round_eq)
  show ?thesis
  proof (cases "all_ready (cb_driver st) depl")
    case True
    then show ?thesis
      using assms(2) g live depl le_trans[OF w1 clock_calls(1)[OF assms(1)]] by (auto simp: builder_round_eq Let_def)
  next
    case False
    obtain rr w2 where rs: "getReplicaSets K (cb_driver st) depl w1 = (rr, w2)" by fastforce
    have w2: "clock w1 \<le> clock w2" using clock_getReplicaSets[OF assms(1) rs] .
    from assms(2) g live depl False rs obtain replicas where replicas: "rr = Inr replicas"
      by (cases rr) (auto simp: builder_round_eq Let_def)
    let ?st = "st\<lparr>cb_err := None, cb_depl := depl\<rparr>"
    obtain q st3 w3 where i: "inspect_replicas K fe log replicas (?st, w2) = (q, st3, w3)" by (metis prod.exhaust)
    have "clock w2 \<le> clock w3" using clock_inspect_replicas[OF assms(1), of "(?st, w2)" fe replicas] i by simp
    moreover have "w' = w3"
      using assms(2) g rs i replicas depl live False
      by (cases q) (auto simp: builder_round_eq Let_def)
    ultimately show ?thesis using w1 w2 by simp
  qed
qed

section \<open>How a builder comes up\<close>

lemma inspect_replicas_Some:
  "inspect_replicas K fe log rs s = (Some e, s') \<Longrightarrow> \<exists>n. k_selector K ''app'' n = Err e"
proof (induction rs arbitrary: s)
  case (Cons r rs)
  obtain st w where s: "s = (st, w)" by fastforce
  obtain re w1 where ev: "getReplicaEvents K r w = (re, w1)" by fastforce
  show ?case
  proof (cases re)
    case (Inl x)
    then show ?thesis using Cons.prems s ev by simp
  next
    case (Inr events)
    obtain q st2 w2 where l: "logEvents log (rs_name r) (rs_uid r) (\<lambda>_ s. (None, s)) events (st, w1) = (q, st2, w2)"
      by (metis prod.exhaust)
    show ?thesis
    proof (cases "k_selector K ''app'' (d_name (kd_deployment (cb_driver st2)))")
      case (Inl x)
      then show ?thesis using Cons.prems s ev \<open>re = Inr events\<close> l by auto
    next
      case (Inr sel)
      obtain rp w3 where p: "k_pod_list K sel w2 = (rp, w3)" by fastforce
      show ?thesis
        using Cons s ev \<open>re = Inr events\<close> l Inr p by (cases rp) auto
    qed
  qed
qed simp

lemma builder_round_Return:
  assumes "builder_round K fe log (st, w) = (Return r, st', w')"
  shows "(sys_done (k_sys K) w \<and> st' = st \<and> w' = w \<and>
      r = wrap_opt (cb_err st) ''timed out waiting for builder to become ready'' []) \<or>
    (\<not> sys_done (k_sys K) w \<and> r = None \<and> cb_driver st' = cb_driver st \<and>
      (\<exists>depl w1. get_or_create K (kd_deployment (cb_driver st)) w = (Ok depl, w1) \<and> all_ready (cb_driver st) depl)) \<or>
    (\<exists>e n. r = Some e \<and> k_selector K ''app'' n = Err e)"
proof (cases "sys_done (k_sys K) w")
  case True
  then show ?thesis using assms by (auto simp: builder_round_eq)
next
  case live: False
  obtain rg w1 where g: "get_or_create K (kd_deployment (cb_driver st)) w = (rg, w1)" by fastforce
  show ?thesis
  proof (cases rg)
    case (Inl e)
    then show ?thesis using assms g live by (simp add: builder_round_eq)
  next
    case (Inr depl)
    show ?thesis
    proof (cases "all_ready (cb_driver st) depl")
      case True
      then show ?thesis using assms g live Inr by (auto simp: builder_round_eq Let_def)
    next
      case False
      obtain rr w2 where rs: "getReplicaSets K (cb_driver st) depl w1 = (rr, w2)" by fastforce
      show ?thesis
      proof (cases rr)
        case (Inl e)
        then show ?thesis using assms g live Inr \<open>rg = Inr depl\<close> False rs by (simp add: builder_round_eq Let_def)
      next
        case (Inr replicas)
        obtain q s where i: "inspect_replicas K fe log replicas (st\<lparr>cb_err := None, cb_depl := depl\<rparr>, w2) = (q, s)"
          by (rule prod.exhaust)
        show ?thesis
        proof (cases q)
          case None
          then show ?thesis using assms g live \<open>rr = Inr replicas\<close> \<open>rg = Inr depl\<close> False rs i
            by (simp add: builder_round_eq Let_def split: prod.splits)
        next
          case (Some e)
          then show ?thesis using assms g live \<open>rr = Inr replicas\<close> \<open>rg = Inr depl\<close> False rs i
              inspect_replicas_Some[of K fe log replicas _ e s]
            by (auto simp: builder_round_eq Let_def)
        qed
      qed
    qed
  qed
qed

text \<open>The loop of the builder ends, because every round takes time.\<close>

lemma builder_loop_returns:
  assumes "timed_kube clock deadline K log"
  shows "\<exists>r st w'. loop (builder_round K fe log) s = Some (r, st, w')"
proof -
  have "\<exists>r s'. loop (builder_round K fe log) s = Some (r, s')"
  proof (rule loop_returns[where I = "\<lambda>_. True" and m = "\<lambda>(_, w). deadline - clock w"])
    fix s s' assume "builder_round K fe log s = (Again, s')"
    then show "True \<and> (case s' of (_, w) \<Rightarrow> deadline - clock w) < (case s of (_, w) \<Rightarrow> deadline - clock w)"
      using clock_builder_round[OF assms] by (cases s; cases s') fastforce
  qed simp
  then show ?thesis by auto
qed

section \<open>A runtime that the user has chosen\<close>

lemma switch_runtime_user:
  "kd_user_runtime (cb_driver st) \<Longrightarrow> snd (switch_runtime K fe log replica pods ev (st, w)) = (st, w)"
  by (simp add: switch_runtime_def)

lemma logEvents_inv:
  assumes "\<And>ev s. P (fst s) \<Longrightarrow> P (fst (snd (callback ev s)))" and "\<And>st r. P st \<Longrightarrow> P (st\<lparr>cb_reported := r\<rparr>)"
    and "P (fst s)"
  shows "P (fst (snd (logEvents log resource uid callback evs s)))"
  using assms(3)
proof (induction evs arbitrary: s)
  case (Cons ev evs)
  obtain st w where s: "s = (st, w)" by fastforce
  let ?s = "(st\<lparr>cb_reported := event_line ev resource # cb_reported st\<rparr>, log (event_line ev resource) w)"
  obtain r s2 where c: "callback ev ?s = (r, s2)" by (rule prod.exhaust)
  have P: "P (fst ?s)" using Cons.prems s assms(2) by simp
  then have "P (fst s2)" using assms(1)[of ?s ev] c by simp
  then show ?case
    using Cons.IH[OF Cons.prems] Cons.IH[OF P] Cons.IH[of s2] c s by (auto simp: Let_def split: option.splits)
qed simp

text \<open>What the rounds keep when the user has chosen the runtime.\<close>

definition settled :: "kube_driver \<Rightarrow> builder_state \<Rightarrow> bool" where
  "settled d st \<longleftrightarrow> kd_user_runtime d \<and> cb_driver st = d \<and> cb_err st = None"

lemma settled_logEvents:
  assumes "settled d (fst s)"
  shows "settled d (fst (snd (logEvents log resource uid (switch_runtime K fe log replica pods) evs s)))"
    "settled d (fst (snd (logEvents log resource uid (\<lambda>_ s. (None, s)) evs s)))"
proof -
  have keep: "settled d (fst (snd (switch_runtime K fe log replica pods ev s)))" if "settled d (fst s)" for ev s
    using switch_runtime_user[of "fst s" K fe log replica pods ev "snd s"] that by (simp add: settled_def)
  have report: "settled d (st\<lparr>cb_reported := r\<rparr>)" if "settled d st" for st r
    using that by (simp add: settled_def)
  show "settled d (fst (snd (logEvents log resource uid (switch_runtime K fe log replica pods) evs s)))"
    using keep report assms by (rule logEvents_inv[where P = "settled d"])
  show "settled d (fst (snd (logEvents log resource uid (\<lambda>_ s. (None, s)) evs s)))"
    by (rule logEvents_inv[where P = "settled d"]) (simp_all add: report assms)
qed

lemma settled_inspect_pods:
  "settled d (fst s) \<Longrightarrow> settled d (fst (inspect_pods K fe log replica all ps s))"
proof (induction ps arbitrary: s)
  case (Cons p ps)
  obtain st w where s: "s = (st, w)" by fastforce
  let ?st = "st\<lparr>cb_ref_uid := (if p_uid p = [] then cb_ref_uid st else Some (p_uid p)),
                    cb_ref_kind := (if p_kind p = [] then cb_ref_kind st else Some (p_kind p))\<rparr>"
  have st: "settled d ?st" using Cons.prems s by (simp add: settled_def)
  obtain re w1 where ev: "k_event_list K (k_field_selector K (p_name p) (p_namespace p) (cb_ref_kind ?st) (cb_ref_uid ?st)) w = (re, w1)"
    by fastforce
  show ?case
  proof (cases "isChildOf (p_owners p) (rs_uid replica)")
    case False
    then show ?thesis using Cons s by simp
  next
    case True
    show ?thesis
    proof (cases re)
      case (Inl e)
      then show ?thesis using True s ev st by (simp add: Let_def)
    next
      case (Inr events)
      obtain r s2 where l: "logEvents log (p_name p) (p_uid p) (switch_runtime K fe log replica all) events (?st, w1) = (r, s2)"
        by (rule prod.exhaust)
      have "settled d (fst s2)"
        using settled_logEvents(1)[of d "(?st, w1)" log "p_name p" "p_uid p" K fe replica all events] l st by simp
      then show ?thesis using Cons.IH True s ev Inr l by (simp add: Let_def)
    qed
  qed
qed simp


text \<open>A server on which reading works.\<close>

definition reads_ok :: "'w kube \<Rightarrow> bool" where
  "reads_ok K \<longleftrightarrow>
     (\<forall>k v. \<exists>s. k_selector K k v = Ok s) \<and>
     (\<forall>s w. \<exists>rs w'. k_rs_list K s w = (Ok rs, w')) \<and>
     (\<forall>s w. \<exists>evs w'. k_event_list K s w = (Ok evs, w'))"

lemma settled_inspect_replicas:
  assumes "reads_ok K" and "settled d (fst s)"
  shows "fst (inspect_replicas K fe log rs s) = None \<and> settled d (fst (snd (inspect_replicas K fe log rs s)))"
  using assms(2)
proof (induction rs arbitrary: s)
  case (Cons r rs)
  obtain st w where s: "s = (st, w)" by fastforce
  obtain events w1 where ev: "getReplicaEvents K r w = (Ok events, w1)"
    using assms(1) unfolding getReplicaEvents_def reads_ok_def by blast
  obtain q st2 w2 where l: "logEvents log (rs_name r) (rs_uid r) (\<lambda>_ s. (None, s)) events (st, w1) = (q, st2, w2)"
    by (metis prod.exhaust)
  have st2: "settled d st2"
    using settled_logEvents(2)[of d "(st, w1)" log "rs_name r" "rs_uid r" events] l Cons.prems s by simp
  obtain sel where sel: "k_selector K ''app'' (d_name (kd_deployment (cb_driver st2))) = Ok sel"
    using assms(1) unfolding reads_ok_def by blast
  obtain rp w3 where p: "k_pod_list K sel w2 = (rp, w3)" by fastforce
  show ?case
  proof (cases rp)
    case (Inl e)
    then show ?thesis using Cons.IH[of "(st2, RandSleep (k_sys K) 1000 w3)"] s ev l sel p st2 by simp
  next
    case (Inr pods)
    have "settled d (fst (inspect_pods K fe log r pods pods (st2, w3)))"
      using settled_inspect_pods[of d "(st2, w3)"] st2 by simp
    then show ?thesis using Cons.IH[of "inspect_pods K fe log r pods pods (st2, w3)"] s ev l sel p Inr by simp
  qed
qed simp

lemma builder_round_settled:
  assumes "reads_ok K" and "settled d st"
    and "\<And>w. \<exists>depl w'. k_depl_get K (d_name (kd_deployment d)) w = (Ok depl, w') \<and> \<not> all_ready d depl"
    and "\<not> sys_done (k_sys K) w"
  shows "\<exists>st' w'. builder_round K fe log (st, w) = (Again, st', w') \<and> settled d st'"
proof -
  from assms(3)[of w] obtain depl w1 where g: "k_depl_get K (d_name (kd_deployment d)) w = (Ok depl, w1)"
    "\<not> all_ready d depl" by auto
  have d: "cb_driver st = d" using assms(2) by (simp add: settled_def)
  from assms(1) obtain sel where sel: "k_selector K ''app'' (d_name (kd_deployment d)) = Ok sel"
    unfolding reads_ok_def by blast
  from assms(1) obtain items w2 where l: "k_rs_list K sel w1 = (Ok items, w2)"
    unfolding reads_ok_def by blast
  let ?st = "st\<lparr>cb_err := None, cb_depl := depl\<rparr>" and ?rs = "filter (\<lambda>r. isChildOf (rs_owners r) (d_uid depl)) items"
  have st: "settled d ?st" using assms(2) by (simp add: settled_def)
  obtain q st3 w3 where i: "inspect_replicas K fe log ?rs (?st, w2) = (q, st3, w3)" by (metis prod.exhaust)
  have "q = None" "settled d st3" using settled_inspect_replicas[OF assms(1), of d "(?st, w2)" fe log ?rs] st i by simp_all
  then show ?thesis using g d sel l i assms(4)
    by (simp add: builder_round_eq get_or_create_def getReplicaSets_def Let_def)
qed

section \<open>Properties\<close>

text \<open>
  Creating the config map always comes to an end, at the latest with the context. It
  answers nil only when the config map is there, and with the contents of the user when the
  user gave a file; the error of the last attempt is reported only when the time is up.
\<close>

theorem createConfigMap_outcome:
  assumes "timed_kube clock deadline K log" and "config_map_store cms K"
  shows "\<exists>r w'. createConfigMap K d log w = Some (r, w') \<and>
    (case r of
       None \<Rightarrow> \<exists>cm. cms w' (cm_name (kd_config_map d)) = Some cm \<and> (kd_user_config d \<longrightarrow> cm = kd_config_map d)
     | Some e \<Rightarrow> deadline \<le> clock w')"
  using assms by (rule createConfigMap_result)

text \<open>A server with a clock and a store of config maps, whose deployment never gets ready.\<close>

definition example_sys :: "nat \<Rightarrow> (nat \<times> (string \<rightharpoonup> config_map)) sys" where
  "example_sys deadline =
     \<lparr>sys_now = (\<lambda>(t, m). (int t, t, m)), sys_id = (\<lambda>w. (''id'', w)), sys_draw = (\<lambda>n w. (Ok 0, w)),
      sys_sleep = (\<lambda>n (t, m). (t + n, m)), sys_done = (\<lambda>(t, m). deadline \<le> t), sys_text = (\<lambda>e. ''failed'')\<rparr>"

definition example_kube :: "nat \<Rightarrow> (nat \<times> (string \<rightharpoonup> config_map)) kube" where
  "example_kube deadline =
     \<lparr>k_sys = example_sys deadline, k_selector = (\<lambda>k v. Ok (k @ ''='' @ v)),
      k_field_selector = (\<lambda>n ns k u. n), k_client_config = Ok (),
      k_depl_get = (\<lambda>n (t, m). (Ok no_deployment, t + 1, m)),
      k_depl_create = (\<lambda>d w. (Ok d, w)), k_depl_update = (\<lambda>d w. (Ok d, w)),
      k_depl_delete = (\<lambda>n w. (None, w)), k_depl_list = (\<lambda>w. (Ok [no_deployment], w)),
      k_rs_list = (\<lambda>s w. (Ok [\<lparr>rs_name = ''rs'', rs_namespace = ''default'', rs_uid = ''u1'', rs_kind = [], rs_owners = [[]]\<rparr>], w)),
      k_rs_delete = (\<lambda>n w. (None, w)),
      k_pod_list = (\<lambda>s w. (Ok [(example_pod ''a'')\<lparr>p_uid := ''u2'', p_owners := [''u1'']\<rparr>], w)),
      k_pod_delete = (\<lambda>n w. (None, w)),
      k_event_list = (\<lambda>s w. (Ok [\<lparr>ev_uid = ''u2'', ev_type = ''Warning'', ev_reason = ''FailedMount'',
         ev_message = ''/var/run/docker.sock is not a socket file''\<rparr>], w)),
      k_cm_get = (\<lambda>n (t, m). (case m n of Some cm \<Rightarrow> Ok cm | None \<Rightarrow> Err (NotFound n), t + 1, m)),
      k_cm_create = (\<lambda>cm (t, m). (Ok cm, t + 1, m(cm_name cm \<mapsto> cm))),
      k_cm_update = (\<lambda>cm (t, m). (Ok cm, t + 1, m(cm_name cm \<mapsto> cm))),
      k_cm_delete = (\<lambda>n (t, m). (None, t + 1, m(n := None))),
      k_secret_get = (\<lambda>n w. (Err (NotFound n), w)), k_executor = (\<lambda>x. Ok ()), k_stream = (\<lambda>x w. ((None, ''v0''), w))\<rparr>"

definition example_driver :: kube_driver where
  "example_driver =
     \<lparr>kd_config = example_config, kd_min_replicas = 1, kd_deployment = no_deployment\<lparr>d_name := ''ci''\<rparr>,
      kd_config_map = no_config_map\<lparr>cm_name := ''ci''\<rparr>, kd_chooser = None, kd_user_runtime = True,
      kd_user_config = False, kd_namespace = ''default'', kd_loadbalance = ''sticky'', kd_auth_hint = []\<rparr>"

lemma example_kube_timed: "timed_kube fst deadline (example_kube deadline) (\<lambda>s w. w)"
  by (simp add: timed_kube_def timed_sys_def example_kube_def example_sys_def split: prod.splits)

theorem createConfigMap_outcome_example:
  "\<exists>r w'. createConfigMap (example_kube 100) example_driver (\<lambda>s w. w) (0, Map.empty) = Some (r, w')"
proof -
  have "config_map_store snd (example_kube 100)"
    by (auto simp: config_map_store_def example_kube_def split: option.splits)
  from createConfigMap_outcome[OF example_kube_timed this] show ?thesis by blast
qed



text \<open>
  C24: A timeout is not reported: when the API answers and the runtime is the user's choice,
  but the deployment never has its replicas ready, then the wait ends at the deadline with a
  nil error, whatever the pods' events say. The error of a failed mount, which asks whether the
  right runtime was picked, is dropped on the way.
\<close>

theorem createBuilder_timeout_is_nil:
  assumes "timed_kube clock deadline K log" and "reads_ok K" and "kd_user_runtime d"
    and "\<And>w. \<exists>depl w'. k_depl_get K (d_name (kd_deployment d)) w = (Ok depl, w') \<and> \<not> all_ready d depl"
  shows "\<exists>w'. createBuilder K fe log (d, w) = Some (None, d, w') \<and> deadline \<le> clock w'"
proof -
  let ?start = "(\<lparr>cb_driver = d, cb_err = None, cb_depl = no_deployment, cb_ref_uid = None, cb_ref_kind = None,
         cb_reported = []\<rparr>, w)"
  obtain r st w' where run: "loop (builder_round K fe log) ?start = Some (r, st, w')"
    using builder_loop_returns[OF assms(1)] by blast
  have again: "settled d (fst s')" if "settled d (fst s)" "builder_round K fe log s = (Again, s')" for s s'
  proof -
    have "\<not> sys_done (k_sys K) (snd s)" using that(2) by (cases s) (auto simp: builder_round_eq)
    from builder_round_settled[OF assms(2) that(1) assms(4) this, of fe log] that(2) show ?thesis by auto
  qed
  have start: "settled d (fst ?start)" using assms(3) by (simp add: settled_def)
  from run start again obtain s1 where s1: "settled d (fst s1)" "builder_round K fe log s1 = (Return r, st, w')"
    by (rule loop_last[where I = "\<lambda>s. settled d (fst s)"])
  then have late: "sys_done (k_sys K) (snd s1)"
    using builder_round_settled[OF assms(2) s1(1) assms(4), of "snd s1" fe log] by auto
  then have "r = None" "st = fst s1" "w' = snd s1"
    using s1 by (cases s1; simp add: builder_round_eq settled_def wrap_opt_def)+
  then show ?thesis
    using run s1(1) late timed_kube_done[OF assms(1)] by (cases s1) (simp add: createBuilder_def settled_def)
qed


theorem createBuilder_timeout_is_nil_witness:
  "\<exists>w'. createBuilder (example_kube 100) example_env (\<lambda>s w. w) (example_driver, 0, Map.empty)
      = Some (None, example_driver, w') \<and> 100 \<le> fst w'"
proof -
  have "reads_ok (example_kube 100)" by (simp add: reads_ok_def example_kube_def)
  moreover have "kd_user_runtime example_driver" by (simp add: example_driver_def)
  moreover have "\<exists>depl w'. k_depl_get (example_kube 100) (d_name (kd_deployment example_driver)) w = (Ok depl, w') \<and>
      \<not> all_ready example_driver depl" for w
    by (cases w) (simp add: example_kube_def example_driver_def all_ready_def no_deployment_def)
  ultimately show ?thesis
    by (rule createBuilder_timeout_is_nil[OF example_kube_timed])
qed

text \<open>
  C25: The runtime is switched at most once. A failed socket mount makes the driver anew for
  containerd, under the same name, with the runtime marked as chosen; from then on (and
  whenever the user chose) no event makes any call to the API or changes the driver. If the
  update of the deployment fails, it is not tried again.
\<close>

theorem switch_runtime_once:
  assumes "distinct (map fst (ic_driver_opts (kd_config (cb_driver st))))" and "socket_failure ev"
    and "\<not> kd_user_runtime (cb_driver st)"
    and "initDriverFromConfig fe (set_runtime ''containerd'' (cb_driver st)) = (None, d)"
    and "switch_runtime K fe log replica pods ev (st, w) = (r, st', w')"
  shows "kd_user_runtime (cb_driver st') \<and> d_labels (kd_deployment (cb_driver st')) ''runtime'' = Some ''containerd'' \<and>
    d_labels (kd_deployment (cb_driver st')) ''worker'' = Some ''containerd'' \<and>
    d_name (kd_deployment (cb_driver st')) = buildxNameToDeploymentName (ic_name (kd_config (cb_driver st))) \<and>
    snd (switch_runtime K fe log replica' pods' ev' (st', w'')) = (st', w'')"
proof -
  let ?d0 = "set_runtime ''containerd'' (cb_driver st)"
  let ?opts = "ic_driver_opts (kd_config ?d0)"
  let ?st0 = "\<lparr>is_driver = ?d0, is_opt = default_opt (kd_config ?d0), is_image = []\<rparr>"
  have dist: "distinct (map fst ?opts)" using assms(1) by (simp add: set_runtime_def distinct_update)
  have m: "map_of ?opts ''runtime'' = Some ''containerd''" "map_of ?opts ''worker'' = Some ''auto''"
    by (simp_all add: set_runtime_def update_conv)
  have "finish_init fe (configured (map_of ?opts) ?st0) = (None, d)"
    using initDriver_Ok_iff[OF dist] assms(4) by blast
  from finish_init_Ok[OF this] obtain opt where opt:
    "o_runtime opt = o_runtime (resolve_runtime (is_opt (configured (map_of ?opts) ?st0)))"
    "o_worker opt = o_worker (resolve_runtime (is_opt (configured (map_of ?opts) ?st0)))"
    "o_name opt = o_name (is_opt (configured (map_of ?opts) ?st0))" "driver_for opt d"
    "kd_user_runtime d = kd_user_runtime (is_driver (configured (map_of ?opts) ?st0))"
    by auto
  have res: "o_runtime opt = ''containerd''" "o_worker opt = ''containerd''" "kd_user_runtime d"
    "o_name opt = buildxNameToDeploymentName (ic_name (kd_config (cb_driver st)))"
    unfolding opt resolve_runtime_sel
    by (simp_all add: configured_def Let_def m default_opt_def) (simp add: set_runtime_def)
  have labels: "d_labels (kd_deployment d) = labels_of opt" "d_name (kd_deployment d) = o_name opt"
    using opt(4) by (simp_all add: driver_for_def)
  have d': "cb_driver st' = d\<lparr>kd_deployment := (kd_deployment d)\<lparr>d_resource_version := d_resource_version (cb_depl st)\<rparr>\<rparr>"
    using assms(2-5)
    by (auto simp: switch_runtime_def other_runtime_def DefaultContainerRuntime_def Let_def
        split: prod.splits sum.splits)
  then have "kd_user_runtime (cb_driver st')" using res(3) by simp
  then show ?thesis
    using labels res switch_runtime_user[of st' K fe log replica' pods' ev' w'']
    by (simp add: d' labels_of_def)
qed


definition switching_state :: builder_state where
  "switching_state =
     \<lparr>cb_driver = example_driver\<lparr>kd_user_runtime := False, kd_config := example_config\<lparr>ic_driver_opts := []\<rparr>\<rparr>,
      cb_err = None, cb_depl = no_deployment, cb_ref_uid = None, cb_ref_kind = None, cb_reported = []\<rparr>"

theorem switch_runtime_once_witness:
  "\<exists>r st' w'. switch_runtime (example_kube 100) example_env (\<lambda>s w. w)
       \<lparr>rs_name = ''rs'', rs_namespace = ''default'', rs_uid = ''u1'', rs_kind = [], rs_owners = []\<rparr> []
       \<lparr>ev_uid = ''u2'', ev_type = ''Warning'', ev_reason = ''FailedMount'', ev_message = ''x is not a socket file''\<rparr>
       (switching_state, 0, Map.empty) = (r, st', w') \<and> kd_user_runtime (cb_driver st')"
proof -
  let ?rs = "\<lparr>rs_name = ''rs'', rs_namespace = ''default'', rs_uid = ''u1'', rs_kind = [], rs_owners = []\<rparr>"
  let ?ev = "\<lparr>ev_uid = ''u2'', ev_type = ''Warning'', ev_reason = ''FailedMount'', ev_message = ''x is not a socket file''\<rparr>"
  have dist: "distinct (map fst (ic_driver_opts (kd_config (cb_driver switching_state))))"
    by (simp add: switching_state_def)
  have ev: "socket_failure ?ev" by (simp add: socket_failure_def has_prefix_def)
  have user: "\<not> kd_user_runtime (cb_driver switching_state)" by (simp add: switching_state_def)
  have opts: "ic_driver_opts (kd_config (set_runtime ''containerd'' (cb_driver switching_state))) =
      [(''runtime'', ''containerd''), (''worker'', ''auto'')]"
    by (simp add: switching_state_def set_runtime_def)
  have "\<exists>d. initDriverFromConfig example_env (set_runtime ''containerd'' (cb_driver switching_state)) = (None, d)"
    by (subst initDriver_Ok_iff)
      (auto simp: opts option_valid_def kube_const_defs finish_init_def configured_def Let_def default_opt_def
        resolve_runtime_def NewDeployment_eq load_config_def switching_state_def set_runtime_def example_config_def)
  then obtain d where d: "initDriverFromConfig example_env (set_runtime ''containerd'' (cb_driver switching_state)) = (None, d)" ..
  obtain r st' w' where s: "switch_runtime (example_kube 100) example_env (\<lambda>s w. w) ?rs [] ?ev (switching_state, 0, Map.empty) = (r, st', w')"
    by (metis prod.exhaust)
  from switch_runtime_once[OF dist ev user d s] s show ?thesis by blast
qed

text \<open>
  The events of an object are reported once each: of the events of this object, those
  whose line has not been reported are, in the order of the server, and no line twice.
\<close>

theorem logEvents_reports_once:
  "\<exists>new. logEvents log resource uid (\<lambda>_ s. (None, s)) evs (st, w) =
      (None, st\<lparr>cb_reported := rev new @ cb_reported st\<rparr>, fold log new w) \<and>
    distinct new \<and>
    set new = (\<lambda>ev. event_line ev resource) ` {ev \<in> set evs. ev_uid ev = uid} - set (cb_reported st)"
proof (induction evs arbitrary: st w)
  case Nil
  then show ?case by (intro exI[of _ "[]"]) simp
next
  case (Cons ev evs)
  let ?msg = "event_line ev resource"
  show ?case
  proof (cases "ev_uid ev \<noteq> uid \<or> ?msg \<in> set (cb_reported st)")
    case True
    from Cons[of st w] obtain new where new:
      "logEvents log resource uid (\<lambda>_ s. (None, s)) evs (st, w) =
        (None, st\<lparr>cb_reported := rev new @ cb_reported st\<rparr>, fold log new w)"
      "distinct new"
      "set new = (\<lambda>ev. event_line ev resource) ` {ev \<in> set evs. ev_uid ev = uid} - set (cb_reported st)"
      by blast
    then show ?thesis using True by (intro exI[of _ new]) (auto simp: Let_def)
  next
    case False
    let ?st = "st\<lparr>cb_reported := ?msg # cb_reported st\<rparr>"
    from Cons[of ?st "log ?msg w"] obtain new where new:
      "logEvents log resource uid (\<lambda>_ s. (None, s)) evs (?st, log ?msg w) =
        (None, ?st\<lparr>cb_reported := rev new @ cb_reported ?st\<rparr>, fold log new (log ?msg w))"
      "distinct new"
      "set new = (\<lambda>ev. event_line ev resource) ` {ev \<in> set evs. ev_uid ev = uid} - set (cb_reported ?st)"
      by blast
    then show ?thesis using False
      by (intro exI[of _ "?msg # new"]) (auto simp: Let_def)
  qed
qed


end
