(* ===== verification/ImageTools.thy ===== *)
theory ImageTools
  imports Platforms Progress
begin

text \<open>
  Manifest lists: \<open>pkg/imagetools/create.go\<close> and \<open>inspect.go\<close>. The registry client of
  containerd is the record \<open>resolver\<close> of functions on the outside world; the JSON codec, the
  digest and the parser of references are the record \<open>codec\<close>. The goroutines of \<open>Combine\<close>
  touch one element each: they run here one after the other.
\<close>

section \<open>Descriptors\<close>

record descriptor =
  ds_media :: string
  ds_digest :: string
  ds_size :: int
  ds_urls :: "string list"
  ds_annotations :: "(string \<rightharpoonup> string) option"
  ds_platform :: "platform option"

definition MediaTypeDockerSchema2Manifest :: string where
  "MediaTypeDockerSchema2Manifest = ''application/vnd.docker.distribution.manifest.v2+json''"

definition MediaTypeDockerSchema2ManifestList :: string where
  "MediaTypeDockerSchema2ManifestList = ''application/vnd.docker.distribution.manifest.list.v2+json''"

definition MediaTypeDockerSchema1Manifest :: string where
  "MediaTypeDockerSchema1Manifest = ''application/vnd.docker.distribution.manifest.v1+prettyjws''"

definition MediaTypeImageManifest :: string where
  "MediaTypeImageManifest = ''application/vnd.oci.image.manifest.v1+json''"

definition MediaTypeImageIndex :: string where
  "MediaTypeImageIndex = ''application/vnd.oci.image.index.v1+json''"

lemmas media_defs = MediaTypeDockerSchema2Manifest_def MediaTypeDockerSchema2ManifestList_def
  MediaTypeDockerSchema1Manifest_def MediaTypeImageManifest_def MediaTypeImageIndex_def

section \<open>Credentials\<close>

record auth_config =
  ac_username :: string
  ac_password :: string
  ac_auth :: string
  ac_email :: string
  ac_server_address :: string
  ac_identity_token :: string
  ac_registry_token :: string

definition toCredentialsFunc :: "(string \<Rightarrow> auth_config result) \<Rightarrow> string \<Rightarrow> (string \<times> string) result" where
  "toCredentialsFunc get host =
     and_then (get (if host = ''registry-1.docker.io'' then ''https://index.docker.io/v1/'' else host)) (\<lambda>ac.
       if ac_identity_token ac \<noteq> [] then Ok ([], ac_identity_token ac)
       else Ok (ac_username ac, ac_password ac))"

section \<open>The registry\<close>

text \<open>
  A fetcher and a pusher are determined by the reference they are for. \<open>rv_fetch\<close> opens a blob
  and \<open>rv_read\<close> copies it out; \<open>rv_push\<close> opens a writer and \<open>rv_copy\<close> copies bytes of the
  announced size and digest into it.
\<close>

record 'w resolver =
  rv_resolve :: "string \<Rightarrow> (string \<times> descriptor, 'w) io"
  rv_fetcher :: "string \<Rightarrow> (unit, 'w) io"
  rv_fetch :: "string \<Rightarrow> descriptor \<Rightarrow> (string, 'w) io"
  rv_read :: "string \<Rightarrow> (string, 'w) io"
  rv_pusher :: "string \<Rightarrow> (unit, 'w) io"
  rv_push :: "string \<Rightarrow> descriptor \<Rightarrow> (unit, 'w) io"
  rv_copy :: "string \<Rightarrow> string \<Rightarrow> int \<Rightarrow> string \<Rightarrow> 'w action"
  rv_already_exists :: "go_error \<Rightarrow> bool"

text \<open>What \<open>detectMediaType\<close> reads of a manifest: the config is nil when the key is missing.\<close>

record manifest_head =
  mh_media :: string
  mh_config :: "string option"
  mh_fs_layers :: "string list"

record codec =
  cd_head :: "string \<Rightarrow> manifest_head result"
  cd_config :: "string \<Rightarrow> descriptor result"
  cd_platform :: "string \<Rightarrow> platform result"
  cd_manifests :: "string \<Rightarrow> descriptor list result"
  cd_marshal :: "string \<Rightarrow> descriptor list \<Rightarrow> string result"
  cd_digest :: "string \<Rightarrow> string"
  cd_parse_named :: "string \<Rightarrow> string result"
  cd_tag_name_only :: "string \<Rightarrow> string"
  cd_host :: host

definition with_stack :: "'a result \<Rightarrow> 'a result" where
  "with_stack r = (case r of Inl e \<Rightarrow> Err (Wrapf e [] []) | Inr x \<Rightarrow> Ok x)"

definition parseRef :: "codec \<Rightarrow> string \<Rightarrow> string result" where
  "parseRef C s = and_then (cd_parse_named C s) (\<lambda>ref. Ok (cd_tag_name_only C ref))"

section \<open>Reading (inspect.go)\<close>

definition Resolve :: "codec \<Rightarrow> 'w resolver \<Rightarrow> string \<Rightarrow> (string \<times> descriptor, 'w) io" where
  "Resolve C R s = io_bind (io_lift (parseRef C s)) (\<lambda>ref. rv_resolve R ref)"

definition GetDescriptor :: "'w resolver \<Rightarrow> string \<Rightarrow> descriptor \<Rightarrow> (string, 'w) io" where
  "GetDescriptor R s desc =
     io_bind (rv_fetcher R s) (\<lambda>_. io_bind (rv_fetch R s desc) (\<lambda>rc. rv_read R rc))"

definition Get_image :: "codec \<Rightarrow> 'w resolver \<Rightarrow> string \<Rightarrow> (string \<times> descriptor, 'w) io" where
  "Get_image C R s =
     io_bind (Resolve C R s) (\<lambda>(s, desc).
     io_bind (GetDescriptor R s desc) (\<lambda>dt. io_ok (dt, desc)))"

section \<open>Combining (create.go)\<close>

definition detectMediaType :: "codec \<Rightarrow> string \<Rightarrow> string result" where
  "detectMediaType C dt =
     and_then (with_stack (cd_head C dt)) (\<lambda>mfst.
       Ok (if mh_media mfst \<noteq> [] then mh_media mfst
           else if mh_config mfst \<noteq> None then MediaTypeDockerSchema2Manifest
           else if mh_fs_layers mfst \<noteq> [] then MediaTypeDockerSchema1Manifest
           else MediaTypeDockerSchema2ManifestList))"

definition loadPlatform :: "codec \<Rightarrow> 'w resolver \<Rightarrow> string \<Rightarrow> string \<Rightarrow> (platform, 'w) io" where
  "loadPlatform C R s dt =
     io_bind (io_lift (with_stack (cd_config C dt))) (\<lambda>config.
     io_bind (GetDescriptor R s config) (\<lambda>dt.
     io_bind (io_lift (with_stack (cd_platform C dt))) (\<lambda>p.
     io_ok (Normalize (cd_host C) p))))"

text \<open>One goroutine: the bytes of a source and its descriptor, completed. The platform is
  loaded under the reference as it was given, not the parsed one.\<close>

definition load_source :: "codec \<Rightarrow> 'w resolver \<Rightarrow> string \<Rightarrow> string \<Rightarrow> descriptor \<Rightarrow> (string \<times> descriptor, 'w) io" where
  "load_source C R s ref d =
     io_bind (GetDescriptor R ref d) (\<lambda>dt.
     io_bind (if ds_media d = [] then io_lift (detectMediaType C dt) else io_ok (ds_media d)) (\<lambda>mt.
     let d = d\<lparr>ds_media := mt\<rparr> in
     if mt = MediaTypeDockerSchema2Manifest \<or> mt = MediaTypeImageManifest then
       if ds_platform d = None then
         io_bind (loadPlatform C R s dt) (\<lambda>p. io_ok (dt, d\<lparr>ds_platform := Some p\<rparr>))
       else io_ok (dt, d)
     else if mt = MediaTypeDockerSchema1Manifest then
       io_err (Errorf ''schema1 manifests are not allowed in manifest lists'' [])
     else io_ok (dt, d)))"

definition is_index :: "descriptor \<Rightarrow> bool" where
  "is_index d \<longleftrightarrow> ds_media d = MediaTypeDockerSchema2ManifestList \<or> ds_media d = MediaTypeImageIndex"

text \<open>\<open>addDesc\<close>: \<open>m\<close> is the position of each digest in the list.\<close>

definition merge_desc :: "descriptor \<Rightarrow> descriptor \<Rightarrow> descriptor" where
  "merge_desc old d =
     old\<lparr>ds_media := (if ds_media old = [] then ds_media d else ds_media old),
         ds_platform := (if ds_platform d \<noteq> None then ds_platform d else ds_platform old),
         ds_annotations := Some ((case ds_annotations old of Some a \<Rightarrow> a | None \<Rightarrow> Map.empty)
           ++ (case ds_annotations d of Some a \<Rightarrow> a | None \<Rightarrow> Map.empty))\<rparr>"

definition addDesc :: "(string \<rightharpoonup> nat) \<times> descriptor list \<Rightarrow> descriptor \<Rightarrow> (string \<rightharpoonup> nat) \<times> descriptor list" where
  "addDesc = (\<lambda>(m, newDescs) d.
     case m (ds_digest d) of
       Some idx \<Rightarrow> (m, newDescs[idx := merge_desc (newDescs ! idx) d])
     | None \<Rightarrow> (m(ds_digest d \<mapsto> length newDescs), newDescs @ [d]))"

text \<open>The descriptors that a source contributes: the members of an index, or itself.\<close>

definition source_descs :: "codec \<Rightarrow> string \<times> descriptor \<Rightarrow> descriptor list result" where
  "source_descs C = (\<lambda>(dt, d). if is_index d then with_stack (cd_manifests C dt) else Ok [d])"

definition merge_sources :: "codec \<Rightarrow> (string \<times> descriptor) list \<Rightarrow> descriptor list result" where
  "merge_sources C srcs =
     and_then (map_res (source_descs C) srcs) (\<lambda>dss. Ok (snd (foldl addDesc (Map.empty, []) (concat dss))))"

definition Combine :: "codec \<Rightarrow> 'w resolver \<Rightarrow> string \<Rightarrow> descriptor list \<Rightarrow> (string \<times> descriptor, 'w) io" where
  "Combine C R s descs =
     io_bind (io_lift (parseRef C s)) (\<lambda>ref.
     io_bind (io_map (load_source C R s ref) descs) (\<lambda>srcs.
     if length srcs = 1 \<and> is_index (snd (srcs ! 0)) then io_ok (srcs ! 0)
     else
       io_bind (io_lift (merge_sources C srcs)) (\<lambda>newDescs.
       let mt = MediaTypeDockerSchema2ManifestList in
       (case cd_marshal C mt newDescs of
          Inl e \<Rightarrow> io_err (Wrapf e ''failed to marshal index'' [])
        | Inr idxBytes \<Rightarrow>
            io_ok (idxBytes,
              \<lparr>ds_media = mt, ds_digest = cd_digest C idxBytes, ds_size = int (length idxBytes), ds_urls = [],
               ds_annotations = None, ds_platform = None\<rparr>)))))"

section \<open>Pushing\<close>

definition Push :: "codec \<Rightarrow> 'w resolver \<Rightarrow> string \<Rightarrow> descriptor \<Rightarrow> string \<Rightarrow> (unit, 'w) io" where
  "Push C R ref desc dt =
     (let ref = cd_tag_name_only C ref in
      io_bind (rv_pusher R ref) (\<lambda>_ w.
        case rv_push R ref desc w of
          (Inl e, w) \<Rightarrow> (if rv_already_exists R e then Ok () else Err e, w)
        | (Inr _, w) \<Rightarrow>
            (case rv_copy R ref dt (ds_size desc) (ds_digest desc) w of
               (Some e, w) \<Rightarrow> (if rv_already_exists R e then Ok () else Err e, w)
             | (None, w) \<Rightarrow> (Ok (), w))))"



section \<open>Lemmas\<close>

text \<open>The reference: each digest once, in the order in which it is first seen, its descriptors
  merged from the left.\<close>

definition first_digests :: "descriptor list \<Rightarrow> string list" where
  "first_digests ds = rev (remdups (rev (map ds_digest ds)))"

definition merge_group :: "descriptor list \<Rightarrow> descriptor" where
  "merge_group ds = foldl merge_desc (hd ds) (tl ds)"

definition merge_reference :: "descriptor list \<Rightarrow> descriptor list" where
  "merge_reference ds = map (\<lambda>dg. merge_group (filter (\<lambda>d. ds_digest d = dg) ds)) (first_digests ds)"

lemma first_digests_snoc:
  "first_digests (ds @ [d]) =
     (if ds_digest d \<in> ds_digest ` set ds then first_digests ds else first_digests ds @ [ds_digest d])"
  by (simp add: first_digests_def)

lemma first_digests_set [simp]: "set (first_digests ds) = ds_digest ` set ds" "distinct (first_digests ds)"
  by (simp_all add: first_digests_def)

text \<open>The map that \<open>addDesc\<close> keeps: the position of each digest.\<close>

definition positions :: "string list \<Rightarrow> string \<rightharpoonup> nat" where
  "positions dgs dg = (if dg \<in> set dgs then Some (length (takeWhile (\<lambda>x. x \<noteq> dg) dgs)) else None)"

lemma merge_group_snoc: "ds \<noteq> [] \<Longrightarrow> merge_group (ds @ [d]) = merge_desc (merge_group ds) d"
  by (cases ds) (simp_all add: merge_group_def)

lemma addDesc_pair:
  "addDesc (m, out) d =
     (case m (ds_digest d) of
        Some idx \<Rightarrow> (m, out[idx := merge_desc (out ! idx) d])
      | None \<Rightarrow> (m(ds_digest d \<mapsto> length out), out @ [d]))"
  by (simp add: addDesc_def)

lemma addDesc_reference:
  "foldl addDesc (Map.empty, []) ds = (positions (first_digests ds), merge_reference ds)"
proof (induction ds rule: rev_induct)
  case Nil
  show ?case by (simp add: positions_def first_digests_def merge_reference_def fun_eq_iff)
next
  case (snoc d ds)
  let ?dg = "ds_digest d" and ?f = "first_digests ds"
  show ?case
  proof (cases "?dg \<in> set ?f")
    case True
    let ?i = "length (takeWhile (\<lambda>x. x \<noteq> ?dg) ?f)"
    have i: "?i < length ?f" "?f ! ?i = ?dg"
    proof -
      show *: "?i < length ?f"
        using True by (metis (mono_tags, lifting) length_takeWhile_le le_neq_implies_less takeWhile_eq_all_conv takeWhile_eq_take take_all order_refl)
      show "?f ! ?i = ?dg" using nth_length_takeWhile[OF *] by simp
    qed
    have ne: "filter (\<lambda>e. ds_digest e = ?dg) ds \<noteq> []"
      using True by (auto simp: filter_empty_conv)
    have "(merge_reference ds)[?i := merge_desc (merge_reference ds ! ?i) d] = merge_reference (ds @ [d])"
    proof (rule nth_equalityI)
      fix j assume j: "j < length ((merge_reference ds)[?i := merge_desc (merge_reference ds ! ?i) d])"
      then have j': "j < length ?f" by (simp add: merge_reference_def)
      have "?f ! j = ?dg \<longleftrightarrow> j = ?i" using i j' first_digests_set(2)[of ds] by (metis nth_eq_iff_index_eq)
      then show "(merge_reference ds)[?i := merge_desc (merge_reference ds ! ?i) d] ! j = merge_reference (ds @ [d]) ! j"
        using j' i ne True by (auto simp: merge_reference_def first_digests_snoc nth_list_update merge_group_snoc)
    qed (use True in \<open>auto simp: merge_reference_def first_digests_snoc\<close>)
    then show ?thesis
      using True by (auto simp: snoc addDesc_pair positions_def first_digests_snoc)
  next
    case False
    then have none: "filter (\<lambda>e. ds_digest e = ?dg) ds = []"
      by (metis (mono_tags, lifting) filter_empty_conv first_digests_set(1) image_eqI)
    have none_pos: "positions ?f ?dg = None" using False by (simp add: positions_def)
    have len: "length (merge_reference ds) = length ?f" by (simp add: merge_reference_def)
    have pos: "(positions ?f)(?dg \<mapsto> length ?f) = positions (?f @ [?dg])"
      using False by (auto simp: positions_def fun_eq_iff takeWhile_append simp del: first_digests_set)
    have "merge_reference (ds @ [d]) = merge_reference ds @ [d]"
      using False none by (auto simp: merge_reference_def first_digests_snoc merge_group_def)
    then show ?thesis
      using False pos none_pos by (simp add: snoc addDesc_pair first_digests_snoc len)
  qed
qed


lemma merge_desc_digest [simp]: "ds_digest (merge_desc old d) = ds_digest old"
  by (simp add: merge_desc_def)

lemma merge_group_digest: "ds \<noteq> [] \<Longrightarrow> ds_digest (merge_group ds) = ds_digest (hd ds)"
proof (induction ds rule: rev_induct)
  case Nil
  then show ?case by simp
next
  case (snoc d ds)
  then show ?case by (cases "ds = []") (simp_all add: merge_group_snoc, simp add: merge_group_def)
qed

lemma merge_reference_digests: "map ds_digest (merge_reference ds) = first_digests ds"
proof -
  have "ds_digest (merge_group (filter (\<lambda>d. ds_digest d = dg) ds)) = dg" if "dg \<in> set (first_digests ds)" for dg
  proof -
    have ne: "filter (\<lambda>d. ds_digest d = dg) ds \<noteq> []" using that by (auto simp: filter_empty_conv)
    then have "hd (filter (\<lambda>d. ds_digest d = dg) ds) \<in> set (filter (\<lambda>d. ds_digest d = dg) ds)" by (rule hd_in_set)
    then show ?thesis using merge_group_digest[OF ne] by simp
  qed
  then show ?thesis by (simp add: merge_reference_def comp_def map_idI del: first_digests_set)
qed

lemma merge_sources_eq:
  "merge_sources C srcs = and_then (map_res (source_descs C) srcs) (\<lambda>dss. Ok (merge_reference (concat dss)))"
  by (simp add: merge_sources_def addDesc_reference)

lemma load_source_shape:
  assumes "load_source C R s ref d w = (Ok (dt, d'), w')"
  shows "\<exists>mt. (d' = d\<lparr>ds_media := mt\<rparr> \<or> (\<exists>p. d' = d\<lparr>ds_media := mt, ds_platform := Some p\<rparr>)) \<and>
    mt \<noteq> MediaTypeDockerSchema1Manifest \<and> (ds_media d \<noteq> [] \<longrightarrow> mt = ds_media d) \<and>
    (mt \<in> {MediaTypeDockerSchema2Manifest, MediaTypeImageManifest} \<longrightarrow> ds_platform d' \<noteq> None)"
proof -
  obtain dt0 w1 mt w2 where 2: "(if ds_media d = [] then io_lift (detectMediaType C dt0) else io_ok (ds_media d)) w1 = (Ok mt, w2)"
    and run: "(let d = d\<lparr>ds_media := mt\<rparr> in
     if mt = MediaTypeDockerSchema2Manifest \<or> mt = MediaTypeImageManifest then
       if ds_platform d = None then
         io_bind (loadPlatform C R s dt0) (\<lambda>p. io_ok (dt0, d\<lparr>ds_platform := Some p\<rparr>))
       else io_ok (dt0, d)
     else if mt = MediaTypeDockerSchema1Manifest then
       io_err (Errorf ''schema1 manifests are not allowed in manifest lists'' [])
     else io_ok (dt0, d)) w2 = (Ok (dt, d'), w')"
    using assms unfolding load_source_def by (elim io_bind_E)
  have mt: "ds_media d \<noteq> [] \<longrightarrow> mt = ds_media d" using 2 by (auto simp: io_ok_def)
  have ne: "MediaTypeDockerSchema2Manifest \<noteq> MediaTypeDockerSchema1Manifest" "MediaTypeImageManifest \<noteq> MediaTypeDockerSchema1Manifest"
    by (simp_all add: media_defs)
  note run = run[unfolded Let_def]
  show ?thesis
  proof (cases "mt = MediaTypeDockerSchema2Manifest \<or> mt = MediaTypeImageManifest")
    case True
    show ?thesis
    proof (cases "ds_platform d")
      case None
      then obtain p where "d' = d\<lparr>ds_media := mt, ds_platform := Some p\<rparr>"
        using run True by (auto simp: io_bind_iff io_ok_iff)
      then show ?thesis using True ne mt by (intro exI[of _ mt]) auto
    next
      case (Some p)
      then have "d' = d\<lparr>ds_media := mt\<rparr>" using run True by (auto simp: io_ok_iff)
      then show ?thesis using True ne mt Some by (intro exI[of _ mt]) auto
    qed
  next
    case False
    then have "mt \<noteq> MediaTypeDockerSchema1Manifest" "d' = d\<lparr>ds_media := mt\<rparr>"
      using run by (auto simp: io_ok_iff io_err_iff split: if_splits)
    then show ?thesis using False mt by (intro exI[of _ mt]) auto
  qed
qed

lemma load_source_Ok:
  assumes "load_source C R s ref d w = (Ok (dt, d'), w')"
  shows "ds_digest d' = ds_digest d" and "ds_media d' \<noteq> MediaTypeDockerSchema1Manifest"
    and "ds_media d \<noteq> [] \<Longrightarrow> ds_media d' = ds_media d"
    and "ds_media d' \<in> {MediaTypeDockerSchema2Manifest, MediaTypeImageManifest} \<Longrightarrow> ds_platform d' \<noteq> None"
proof -
  obtain mt where mt: "d' = d\<lparr>ds_media := mt\<rparr> \<or> (\<exists>p. d' = d\<lparr>ds_media := mt, ds_platform := Some p\<rparr>)"
    "mt \<noteq> MediaTypeDockerSchema1Manifest" "ds_media d \<noteq> [] \<longrightarrow> mt = ds_media d"
    "mt \<in> {MediaTypeDockerSchema2Manifest, MediaTypeImageManifest} \<longrightarrow> ds_platform d' \<noteq> None"
    using load_source_shape[OF assms] by blast
  then show "ds_digest d' = ds_digest d" "ds_media d' \<noteq> MediaTypeDockerSchema1Manifest"
    "ds_media d \<noteq> [] \<Longrightarrow> ds_media d' = ds_media d"
    "ds_media d' \<in> {MediaTypeDockerSchema2Manifest, MediaTypeImageManifest} \<Longrightarrow> ds_platform d' \<noteq> None"
    by auto
qed

lemma io_map_Ok_all2:
  assumes "io_map f xs w = (Ok ys, w')"
  shows "list_all2 (\<lambda>x y. \<exists>w1 w2. f x w1 = (Ok y, w2)) xs ys"
  using assms by (induction xs arbitrary: w ys) (auto simp: io_simps)

lemma Combine_Ok:
  assumes "Combine C R s descs w = (Ok (dt, desc), w')"
  obtains ref srcs where "parseRef C s = Ok ref" "io_map (load_source C R s ref) descs w = (Ok srcs, w')"
    "srcs = [(dt, desc)] \<and> is_index desc \<or>
     (\<exists>dss. map_res (source_descs C) srcs = Ok dss \<and>
        cd_marshal C MediaTypeDockerSchema2ManifestList (merge_reference (concat dss)) = Ok dt \<and>
        desc = \<lparr>ds_media = MediaTypeDockerSchema2ManifestList, ds_digest = cd_digest C dt, ds_size = int (length dt),
          ds_urls = [], ds_annotations = None, ds_platform = None\<rparr>)"
proof -
  obtain ref srcs w1 where a: "parseRef C s = Ok ref" "io_map (load_source C R s ref) descs w = (Ok srcs, w1)"
    using assms by (auto simp: Combine_def io_simps)
  show thesis
  proof (cases "length srcs = 1 \<and> is_index (snd (srcs ! 0))")
    case True
    then have "srcs = [(dt, desc)]" "w1 = w'" "is_index desc"
      using assms a by (auto simp: Combine_def io_bind_step io_lift_def io_ok_def length_Suc_conv)
    then show thesis using that a by blast
  next
    case False
    obtain dss where m: "map_res (source_descs C) srcs = Ok dss"
      using assms a False by (auto simp: Combine_def io_bind_step io_lift_def merge_sources_eq and_then_Inr_iff io_simps)
    then have ms: "merge_sources C srcs = Ok (merge_reference (concat dss))" by (simp add: merge_sources_eq)
    show thesis
      using assms a False m ms that[OF a(1)]
      by (cases "cd_marshal C MediaTypeDockerSchema2ManifestList (merge_reference (concat dss))")
        (auto simp: Combine_def io_bind_step io_lift_def io_ok_def io_err_def Let_def)
  qed
qed

section \<open>Properties\<close>


section \<open>An example\<close>

text \<open>A registry that serves each digest's own name as its bytes, and two indexes that share a
  member.\<close>

definition plain_desc :: "string \<Rightarrow> string \<Rightarrow> descriptor" where
  "plain_desc media dg = \<lparr>ds_media = media, ds_digest = dg, ds_size = -1, ds_urls = [], ds_annotations = None, ds_platform = None\<rparr>"

definition example_resolver :: "string list resolver" where
  "example_resolver =
     \<lparr>rv_resolve = (\<lambda>s. io_ok (s, plain_desc [] s)), rv_fetcher = (\<lambda>s. io_ok ()), rv_fetch = (\<lambda>s d. io_ok (ds_digest d)),
      rv_read = io_ok, rv_pusher = (\<lambda>s. io_ok ()), rv_push = (\<lambda>s d. io_ok ()),
      rv_copy = (\<lambda>s dt n dg w. (None, s # w)), rv_already_exists = (\<lambda>e. False)\<rparr>"

definition example_codec :: codec where
  "example_codec =
     \<lparr>cd_head = (\<lambda>dt. Ok \<lparr>mh_media = [], mh_config = None, mh_fs_layers = []\<rparr>), cd_config = (\<lambda>dt. Ok (plain_desc [] dt)),
      cd_platform = (\<lambda>dt. Err (External ''no config'')),
      cd_manifests = (\<lambda>dt. Ok (map (plain_desc MediaTypeImageManifest) [''shared'', dt])),
      cd_marshal = (\<lambda>mt ds. Ok (concat (map ds_digest ds))), cd_digest = (\<lambda>dt. dt), cd_parse_named = Ok,
      cd_tag_name_only = (\<lambda>s. s), cd_host = linux_host\<rparr>"

definition example_sources :: "descriptor list" where
  "example_sources = map (plain_desc MediaTypeDockerSchema2ManifestList) [''a'', ''b'']"

lemma example_load:
  "load_source example_codec example_resolver s ref (plain_desc MediaTypeDockerSchema2ManifestList dg) w =
     (Ok (dg, plain_desc MediaTypeDockerSchema2ManifestList dg), w)"
  by (simp add: load_source_def GetDescriptor_def example_resolver_def plain_desc_def io_bind_def io_ok_def media_defs)

lemma example_sources_descs:
  "source_descs example_codec (dg, plain_desc MediaTypeDockerSchema2ManifestList dg) =
     Ok [plain_desc MediaTypeImageManifest ''shared'', plain_desc MediaTypeImageManifest dg]"
  by (simp add: source_descs_def is_index_def plain_desc_def with_stack_def example_codec_def)

lemma example_Combine:
  "Combine example_codec example_resolver ''img'' example_sources [] =
     (Ok (''sharedab'', \<lparr>ds_media = MediaTypeDockerSchema2ManifestList, ds_digest = ''sharedab'', ds_size = 8, ds_urls = [],
        ds_annotations = None, ds_platform = None\<rparr>), [])"
proof -
  have bytes: "concat (map ds_digest (merge_reference
      [plain_desc MediaTypeImageManifest ''shared'', plain_desc MediaTypeImageManifest ''a'',
       plain_desc MediaTypeImageManifest ''shared'', plain_desc MediaTypeImageManifest ''b''])) = ''sharedab''"
    by (simp only: merge_reference_digests) (simp add: first_digests_def plain_desc_def)
  have ref: "parseRef example_codec ''img'' = Ok ''img''"
    and marshal: "cd_marshal example_codec mt ds = Ok (concat (map ds_digest ds))" and dg: "cd_digest example_codec dt = dt" for mt ds dt
    by (simp_all add: parseRef_def example_codec_def)
  show ?thesis
    by (simp add: Combine_def example_sources_def ref example_load example_sources_descs merge_sources_eq marshal bytes dg
        io_bind_def io_ok_def io_lift_def)
qed


end
