(* ===== verification/Auth.thy ===== *)
theory Auth
  imports GoEncoding KubeCreation ImageTools
begin

text \<open>
  Registry credentials: \<open>pkg/driver/kubernetes/authprovider.go\<close> and \<open>GetAuthWrapper\<close> of
  \<open>driver.go\<close>. The secret comes from the API server, the JSON decoder is a parameter. A
  lookup that fails does not fail the build: the driver keeps a hint for its end.
\<close>

definition NUL :: char where "NUL = CHR 0x00"

text \<open>Decode into a zeroed buffer, cut at the first colon, trim the zeros off the password.\<close>

definition decodeAuth :: "string \<Rightarrow> (string \<times> string) result" where
  "decodeAuth authStr =
     (if authStr = [] then Ok ([], [])
      else
        let decLen = b64_decoded_len (length authStr) in
        and_then (b64_decode authStr) (\<lambda>bytes.
          if length bytes > decLen then Err (Errorf ''Something went wrong decoding auth config'' [])
          else
            let decoded = bytes @ replicate (decLen - length bytes) NUL in
            case splitn2 CHR '':'' decoded of
              [u, p] \<Rightarrow> Ok (u, trim_by (\<lambda>c. c = NUL) p)
            | _ \<Rightarrow> Err (Errorf ''Invalid auth configuration file'' [])))"

record creds =
  cr_username :: string
  cr_password :: string
  cr_auth :: string
  cr_identity_token :: string

definition no_creds :: creds where
  "no_creds = \<lparr>cr_username = [], cr_password = [], cr_auth = [], cr_identity_token = []\<rparr>"

record credentials =
  cs_username :: string
  cs_secret :: string

definition no_credentials :: credentials where
  "no_credentials = \<lparr>cs_username = [], cs_secret = []\<rparr>"

record auth_provider =
  ap_name :: string
  ap_secret :: "(string \<rightharpoonup> string) option"

definition GetAuthProvider :: "kube_driver \<Rightarrow> string \<Rightarrow> auth_provider" where
  "GetAuthProvider d secretName =
     \<lparr>ap_name = (if secretName = [] then buildxNameToDeploymentName (ic_name (kd_config d)) else secretName),
      ap_secret = None\<rparr>"

definition GetAuthWrapper :: "kube_driver \<Rightarrow> string \<Rightarrow> auth_provider" where
  "GetAuthWrapper d secretName =
     \<lparr>ap_name = (if secretName = [] then buildxNameToDeploymentName (ic_name (kd_config d)) else secretName),
      ap_secret = None\<rparr>"

definition GetAuthHintMessage :: "kube_driver \<Rightarrow> string" where
  "GetAuthHintMessage d = kd_auth_hint d"

definition GetAuthConfig :: "string \<Rightarrow> auth_config result" where
  "GetAuthConfig registryHostname = Err (Errorf ''GetAuthConfig not yet implemented for kube secrets'' [])"

text \<open>So the registry client of the image tools never has credentials.\<close>

lemma toCredentialsFunc_GetAuthConfig: "toCredentialsFunc GetAuthConfig host \<noteq> Ok c"
  by (simp add: toCredentialsFunc_def GetAuthConfig_def)

text \<open>\<open>FetchToken\<close>, \<open>GetTokenAuthority\<close> and \<open>VerifyTokenAuthority\<close> are one refusal.\<close>

definition FetchToken :: "unit result" where
  "FetchToken = Err (Errorf ''client side tokens not yet implemented'' [])"

definition registry_key :: "string \<Rightarrow> string" where
  "registry_key host =
     (if host = ''registry-1.docker.io'' then ''https://index.docker.io/v1/'' else host)"

definition missing_secret_hint :: "string \<Rightarrow> string" where
  "missing_secret_hint name =
     ''unable to find secret '' @ [CHR 34] @ name @ [CHR 34] @
     '' - if you used a different name specify with --registry-secret - if you haven't created a secret yet follow these instructions https://kubernetes.io/docs/tasks/configure-pod-container/pull-image-private-registry/''"

definition failed_secret_hint :: "string \<Rightarrow> string \<Rightarrow> string" where
  "failed_secret_hint name err =
     ''failed to lookup secret '' @ [CHR 34] @ name @ [CHR 34] @ '': '' @ err"

text \<open>The part of \<open>Credentials\<close> after the secret is there.\<close>

definition secret_credentials ::
  "(string \<Rightarrow> (string \<rightharpoonup> creds) result) \<Rightarrow> string \<Rightarrow> (string \<rightharpoonup> string) \<Rightarrow> credentials result" where
  "secret_credentials unmarshal key secret =
     (case secret ''.dockerconfigjson'' of
        None \<Rightarrow> Err (Errorf ''malformed kubernetes registry secret - missing '.dockerconfigjson' data key'' [])
      | Some data \<Rightarrow>
          (case unmarshal data of
             Inl e \<Rightarrow> Err (Wrapf e ''malformed kubernetes registry secret - '.dockerconfigjson' didn't contain valid cred store: %w'' [])
           | Inr auths \<Rightarrow>
               and_then
                 (case auths key of
                    None \<Rightarrow> Ok no_creds
                  | Some c \<Rightarrow>
                      if (cr_username c = [] \<or> cr_password c = []) \<and> cr_auth c \<noteq> [] then
                        (case decodeAuth (cr_auth c) of
                           Inl e \<Rightarrow> Err (Wrapf e ''malformed kubernetes registry secret - failed to decode auth %w'' [])
                         | Inr (u, p) \<Rightarrow> Ok (c\<lparr>cr_username := u, cr_password := p\<rparr>))
                      else Ok c)
                 (\<lambda>c. Ok (if cr_identity_token c \<noteq> []
                          then no_credentials\<lparr>cs_secret := cr_identity_token c\<rparr>
                          else \<lparr>cs_username = cr_username c, cs_secret = cr_password c\<rparr>))))"

text \<open>The provider caches the secret; the driver's hint is overwritten by every failed lookup.\<close>

definition Credentials ::
  "'w kube \<Rightarrow> (string \<Rightarrow> (string \<rightharpoonup> creds) result) \<Rightarrow> string \<Rightarrow> auth_provider \<times> kube_driver \<times> 'w \<Rightarrow>
     credentials result \<times> auth_provider \<times> kube_driver \<times> 'w" where
  "Credentials K unmarshal host = (\<lambda>(ap, d, w).
     case ap_secret ap of
       Some secret \<Rightarrow> (secret_credentials unmarshal (registry_key host) secret, ap, d, w)
     | None \<Rightarrow>
         (case k_secret_get K (ap_name ap) w of
            (Inl e, w) \<Rightarrow>
              (Ok no_credentials, ap,
               d\<lparr>kd_auth_hint := (if IsNotFound e then missing_secret_hint (ap_name ap)
                                  else failed_secret_hint (ap_name ap) (sys_text (k_sys K) e))\<rparr>, w)
          | (Inr secret, w) \<Rightarrow>
              (secret_credentials unmarshal (registry_key host) secret, ap\<lparr>ap_secret := Some secret\<rparr>, d, w)))"

section \<open>Lemmas\<close>

lemma length_b64_groups: "b64_groups s = Ok bs \<Longrightarrow> length bs \<le> length s div 4 * 3"
proof (induction s arbitrary: bs rule: b64_groups.induct)
  case (2 a b c d rest)
  have "(4 + length rest) div 4 = Suc (length rest div 4)" by simp
  with 2 show ?case by (auto simp: and_then_Inr_iff split: option.splits if_splits)
qed auto

text \<open>The decoded bytes always fit into the buffer.\<close>

lemma length_b64_decode: "b64_decode s = Ok bs \<Longrightarrow> length bs \<le> b64_decoded_len (length s)"
proof -
  assume "b64_decode s = Ok bs"
  then have "length bs \<le> length (filter (\<lambda>c. c \<noteq> CR \<and> c \<noteq> LF) s) div 4 * 3"
    unfolding b64_decode_def by (rule length_b64_groups)
  moreover have "length (filter (\<lambda>c. c \<noteq> CR \<and> c \<noteq> LF) s) div 4 \<le> length s div 4"
    by (intro div_le_mono length_filter_le)
  ultimately show ?thesis unfolding b64_decoded_len_def by linarith
qed

lemma decodeAuth_encode:
  assumes "CHR '':'' \<notin> set u" and "p = [] \<or> hd p \<noteq> NUL \<and> last p \<noteq> NUL"
  shows "decodeAuth (b64_encode (u @ CHR '':'' # p)) = Ok (u, p)"
proof -
  let ?s = "u @ CHR '':'' # p" and ?len = "b64_decoded_len (length (b64_encode (u @ CHR '':'' # p)))"
  have ne: "b64_encode ?s \<noteq> []"
    by (cases ?s rule: b64_encode.cases) (auto simp: Let_def)
  have fits: "length ?s \<le> ?len" using length_b64_decode[OF b64_decode_encode] .
  have "splitn2 CHR '':'' (?s @ replicate (?len - length ?s) NUL) = [u, p @ replicate (?len - length ?s) NUL]"
    using splitn2_cut[OF assms(1), of "p @ replicate (?len - length ?s) NUL"] by simp
  moreover have "trim_by (\<lambda>c. c = NUL) (p @ replicate n NUL) = p" for n
    using assms(2) by (subst trim_by_append_all) (auto simp: trim_by_id)
  ultimately show ?thesis
    using ne fits by (simp add: decodeAuth_def b64_decode_encode Let_def)
qed

section \<open>Properties\<close>

text \<open>
  A secret that cannot be looked up never fails a build: the answer is anonymous, the
  driver keeps a hint that names the secret, and the next request looks it up again.
\<close>

theorem Credentials_soft_failure:
  assumes "ap_secret ap = None" and "k_secret_get K (ap_name ap) w = (Err e, w')"
  shows "\<exists>d'. Credentials K unmarshal host (ap, d, w) = (Ok no_credentials, ap, d', w') \<and>
    contains_str (GetAuthHintMessage d') (ap_name ap) \<and> kd_deployment d' = kd_deployment d"
proof -
  have "contains_str (missing_secret_hint n) n" "contains_str (failed_secret_hint n t) n" for n t
    unfolding contains_str_iff missing_secret_hint_def failed_secret_hint_def by (metis append_assoc)+
  then show ?thesis using assms by (simp add: Credentials_def GetAuthHintMessage_def)
qed

theorem Credentials_soft_failure_example:
  "\<exists>d'. Credentials (example_kube 100) (\<lambda>_. Ok Map.empty) ''ghcr.io''
      (GetAuthProvider example_driver [], example_driver, 0, Map.empty) =
      (Ok no_credentials, GetAuthProvider example_driver [], d', 0, Map.empty)"
proof -
  have 1: "ap_secret (GetAuthProvider example_driver []) = None" by (simp add: GetAuthProvider_def)
  have 2: "k_secret_get (example_kube 100) (ap_name (GetAuthProvider example_driver [])) (0, Map.empty)
      = (Err (NotFound (ap_name (GetAuthProvider example_driver []))), 0, Map.empty)"
    by (simp add: example_kube_def)
  from Credentials_soft_failure[OF 1 2] show ?thesis by blast
qed

text \<open>
  C33: What a login stored in the secret is what the build presents: the base64 text of
  user and password, under the key of the registry (the index URL for Docker Hub), gives that
  user and that password, provided the user has no colon and the password neither begins nor
  ends with a zero byte; an identity token takes precedence. The secret is then cached: asking
  again makes no call to the API.
\<close>

theorem Credentials_roundtrip:
  assumes "ap_secret ap = None" and "k_secret_get K (ap_name ap) w = (Ok secret, w')"
    and "secret ''.dockerconfigjson'' = Some js" and "unmarshal js = Ok auths"
    and "auths (registry_key host) =
      Some \<lparr>cr_username = [], cr_password = [], cr_auth = b64_encode (user @ CHR '':'' # pass), cr_identity_token = token\<rparr>"
    and "CHR '':'' \<notin> set user" and "pass = [] \<or> hd pass \<noteq> NUL \<and> last pass \<noteq> NUL"
  shows "\<exists>ap'. Credentials K unmarshal host (ap, d, w) =
      (Ok (if token = [] then \<lparr>cs_username = user, cs_secret = pass\<rparr> else \<lparr>cs_username = [], cs_secret = token\<rparr>), ap', d, w') \<and>
    snd (Credentials K unmarshal host' (ap', d', w'')) = (ap', d', w'')"
proof -
  have "b64_encode (user @ CHR '':'' # pass) \<noteq> []"
    by (cases "user @ CHR '':'' # pass" rule: b64_encode.cases) (auto simp: Let_def)
  then have "secret_credentials unmarshal (registry_key host) secret =
      Ok (if token = [] then \<lparr>cs_username = user, cs_secret = pass\<rparr> else \<lparr>cs_username = [], cs_secret = token\<rparr>)"
    using assms(3-5) decodeAuth_encode[OF assms(6,7)]
    by (simp add: secret_credentials_def no_credentials_def)
  then show ?thesis using assms(1,2) by (simp add: Credentials_def)
qed

text \<open>A server that has the secret.\<close>

definition secret_kube :: "(nat \<times> (string \<rightharpoonup> config_map)) kube" where
  "secret_kube = (example_kube 100)\<lparr>k_secret_get := (\<lambda>n w. (Ok [''.dockerconfigjson'' \<mapsto> ''{}''], w))\<rparr>"

theorem Credentials_roundtrip_witness:
  "\<exists>ap'. Credentials secret_kube
      (\<lambda>_. Ok [''https://index.docker.io/v1/'' \<mapsto>
         \<lparr>cr_username = [], cr_password = [], cr_auth = b64_encode ''me:pass:word'', cr_identity_token = []\<rparr>])
      ''registry-1.docker.io'' (GetAuthProvider example_driver [], example_driver, 0, Map.empty) =
    (Ok \<lparr>cs_username = ''me'', cs_secret = ''pass:word''\<rparr>, ap', example_driver, 0, Map.empty)"
proof -
  let ?auths = "[''https://index.docker.io/v1/'' \<mapsto>
         \<lparr>cr_username = [], cr_password = [], cr_auth = b64_encode ''me:pass:word'', cr_identity_token = []\<rparr>]"
  have 1: "ap_secret (GetAuthProvider example_driver []) = None" by (simp add: GetAuthProvider_def)
  have 2: "k_secret_get secret_kube (ap_name (GetAuthProvider example_driver [])) (0, Map.empty)
      = (Ok [''.dockerconfigjson'' \<mapsto> ''{}''], 0, Map.empty)" by (simp add: secret_kube_def)
  have 3: "?auths (registry_key ''registry-1.docker.io'') =
      Some \<lparr>cr_username = [], cr_password = [], cr_auth = b64_encode (''me'' @ CHR '':'' # ''pass:word''),
            cr_identity_token = []\<rparr>" by (simp add: registry_key_def)
  have 4: "CHR '':'' \<notin> set ''me''" by simp
  have 5: "''pass:word'' = [] \<or> hd ''pass:word'' \<noteq> NUL \<and> last ''pass:word'' \<noteq> NUL" by (simp add: NUL_def)
  have js: "[''.dockerconfigjson'' \<mapsto> ''{}''] ''.dockerconfigjson'' = Some ''{}''" by simp
  from Credentials_roundtrip[where unmarshal = "\<lambda>_. Ok ?auths" and d = example_driver and host' = "[]"
      and d' = example_driver and w'' = "(0, Map.empty)", OF 1 2 js refl 3 4 5]
  show ?thesis by (auto simp del: b64_encode.simps)
qed

end
