(* ===== verification/ExecConn.thy ===== *)
theory ExecConn
  imports KubeCreation
begin

text \<open>
  Connections through a command in a container:
  \<open>pkg/driver/kubernetes/execconn/execconn.go\<close>. The pipes are parameters (closing one
  may fail; \<open>ExecStream\<close> has those of the package \<open>io\<close>); the connection is the state machine of
  its two closed flags. The mutex is held around each access to a flag only, so the reads and
  writes are steps of their own when operations run at the same time.
\<close>

section \<open>The connection\<close>

record dummy_addr =
  da_network :: string
  da_s :: string

record kube_conn =
  kn_target :: exec_conn
  kn_stdin_closed :: bool
  kn_stdout_closed :: bool
  kn_local :: dummy_addr
  kn_remote :: dummy_addr

definition new_conn :: "exec_conn \<Rightarrow> kube_conn" where
  "new_conn x =
     \<lparr>kn_target = x, kn_stdin_closed = False, kn_stdout_closed = False,
      kn_local = \<lparr>da_network = ''dummy'', da_s = ''dummy-0''\<rparr>,
      kn_remote = \<lparr>da_network = x_pod x, da_s = x_pod x\<rparr>\<rparr>"

text \<open>\<open>ExecConn\<close>: only the executor can fail; the stream runs in the background.\<close>

definition ExecConn :: "'w kube \<Rightarrow> string \<Rightarrow> string \<Rightarrow> string \<Rightarrow> string list \<Rightarrow> kube_conn result" where
  "ExecConn K namespace pod container cmd =
     (let x = \<lparr>x_namespace = namespace, x_pod = pod, x_container = container, x_cmd = cmd\<rparr> in
      and_then (k_executor K x) (\<lambda>_. Ok (new_conn x)))"

text \<open>What \<open>net.Conn\<close> asks for besides: the addresses, and deadlines, which are ignored.\<close>

definition kubeConn_LocalAddr :: "kube_conn \<Rightarrow> dummy_addr" where
  "kubeConn_LocalAddr c = kn_local c"

definition kubeConn_RemoteAddr :: "kube_conn \<Rightarrow> dummy_addr" where
  "kubeConn_RemoteAddr c = kn_remote c"

definition kubeConn_SetDeadline :: "int \<Rightarrow> kube_conn \<Rightarrow> go_error option \<times> kube_conn" where
  "kubeConn_SetDeadline t c = (None, c)"

definition kubeConn_SetReadDeadline :: "int \<Rightarrow> kube_conn \<Rightarrow> go_error option \<times> kube_conn" where
  "kubeConn_SetReadDeadline t c = (None, c)"

definition kubeConn_SetWriteDeadline :: "int \<Rightarrow> kube_conn \<Rightarrow> go_error option \<times> kube_conn" where
  "kubeConn_SetWriteDeadline t c = (None, c)"

definition dummyAddr_Network :: "dummy_addr \<Rightarrow> string" where
  "dummyAddr_Network d = da_network d"

definition dummyAddr_String :: "dummy_addr \<Rightarrow> string" where
  "dummyAddr_String d = da_s d"

text \<open>What closing the two pipes does to the world.\<close>

record 'w pipes =
  pi_close_stdin :: "'w action"
  pi_close_stdout :: "'w action"

definition CloseWrite :: "'w pipes \<Rightarrow> kube_conn \<times> 'w \<Rightarrow> go_error option \<times> kube_conn \<times> 'w" where
  "CloseWrite P = (\<lambda>(c, w).
     let (err, w) = pi_close_stdin P w in (err, c\<lparr>kn_stdin_closed := True\<rparr>, w))"

definition CloseRead :: "'w pipes \<Rightarrow> kube_conn \<times> 'w \<Rightarrow> go_error option \<times> kube_conn \<times> 'w" where
  "CloseRead P = (\<lambda>(c, w).
     let (err, w) = pi_close_stdout P w in (err, c\<lparr>kn_stdout_closed := True\<rparr>, w))"

definition Close :: "'w pipes \<Rightarrow> kube_conn \<times> 'w \<Rightarrow> go_error option \<times> kube_conn \<times> 'w" where
  "Close P s =
     (let (err, s) = (if \<not> kn_stdin_closed (fst s) then CloseWrite P s else (None, s))
      in if \<not> kn_stdout_closed (fst s) then CloseRead P s else (err, s))"

section \<open>Closing at the same time\<close>

text \<open>
  \<open>Close\<close> of several goroutines as small steps: a goroutine is at the test of the first
  flag, inside \<open>CloseWrite\<close> before or after the pipe is closed, at the test of the second
  flag, inside \<open>CloseRead\<close>, or finished. The world counts how often each pipe is closed.
\<close>

datatype close_pc = TestIn | CloseIn | MarkIn | TestOut | CloseOut | MarkOut | Finished

record close_state =
  cl_in :: bool
  cl_out :: bool
  cl_in_closes :: nat
  cl_out_closes :: nat
  cl_pcs :: "close_pc list"

inductive close_step :: "close_state \<Rightarrow> close_state \<Rightarrow> bool" where
  test_in: "i < length (cl_pcs s) \<Longrightarrow> cl_pcs s ! i = TestIn \<Longrightarrow>
     close_step s (s\<lparr>cl_pcs := (cl_pcs s)[i := if cl_in s then TestOut else CloseIn]\<rparr>)"
| close_in: "i < length (cl_pcs s) \<Longrightarrow> cl_pcs s ! i = CloseIn \<Longrightarrow>
     close_step s (s\<lparr>cl_in_closes := cl_in_closes s + 1, cl_pcs := (cl_pcs s)[i := MarkIn]\<rparr>)"
| mark_in: "i < length (cl_pcs s) \<Longrightarrow> cl_pcs s ! i = MarkIn \<Longrightarrow>
     close_step s (s\<lparr>cl_in := True, cl_pcs := (cl_pcs s)[i := TestOut]\<rparr>)"
| test_out: "i < length (cl_pcs s) \<Longrightarrow> cl_pcs s ! i = TestOut \<Longrightarrow>
     close_step s (s\<lparr>cl_pcs := (cl_pcs s)[i := if cl_out s then Finished else CloseOut]\<rparr>)"
| close_out: "i < length (cl_pcs s) \<Longrightarrow> cl_pcs s ! i = CloseOut \<Longrightarrow>
     close_step s (s\<lparr>cl_out_closes := cl_out_closes s + 1, cl_pcs := (cl_pcs s)[i := MarkOut]\<rparr>)"
| mark_out: "i < length (cl_pcs s) \<Longrightarrow> cl_pcs s ! i = MarkOut \<Longrightarrow>
     close_step s (s\<lparr>cl_out := True, cl_pcs := (cl_pcs s)[i := Finished]\<rparr>)"

inductive_cases close_stepE: "close_step s s'"

text \<open>All states that \<open>n\<close> closing goroutines can reach.\<close>

inductive reachable :: "nat \<Rightarrow> close_state \<Rightarrow> bool" where
  start: "reachable n \<lparr>cl_in = False, cl_out = False, cl_in_closes = 0, cl_out_closes = 0,
     cl_pcs = replicate n TestIn\<rparr>"
| step: "reachable n s \<Longrightarrow> close_step s s' \<Longrightarrow> reachable n s'"

section \<open>Lemmas\<close>

lemma Close_simps:
  "kn_stdin_closed c \<Longrightarrow> kn_stdout_closed c \<Longrightarrow> Close P (c, w) = (None, c, w)"
  by (simp add: Close_def)

text \<open>
  What holds in every reachable state: a flag is set only after a close of its pipe, a
  goroutine that is past a pipe has seen its flag set, and the closes are bounded by the
  goroutines.
\<close>

definition past_in :: "close_pc \<Rightarrow> bool" where
  "past_in p \<longleftrightarrow> p \<in> set [TestOut, CloseOut, MarkOut, Finished]"

definition pc_ok :: "close_state \<Rightarrow> close_pc \<Rightarrow> bool" where
  "pc_ok s p \<longleftrightarrow>
     (p = MarkIn \<longrightarrow> cl_in_closes s > 0) \<and> (past_in p \<longrightarrow> cl_in s) \<and>
     (p = MarkOut \<longrightarrow> cl_out_closes s > 0) \<and> (p = Finished \<longrightarrow> cl_out s)"

definition close_inv :: "nat \<Rightarrow> close_state \<Rightarrow> bool" where
  "close_inv n s \<longleftrightarrow>
     length (cl_pcs s) = n \<and>
     (cl_in s \<longrightarrow> cl_in_closes s > 0) \<and> (cl_out s \<longrightarrow> cl_out_closes s > 0) \<and>
     list_all (pc_ok s) (cl_pcs s) \<and>
     cl_in_closes s + length (filter (\<lambda>p. p \<in> {TestIn, CloseIn}) (cl_pcs s)) \<le> n \<and>
     cl_out_closes s + length (filter (\<lambda>p. p \<notin> {MarkOut, Finished}) (cl_pcs s)) \<le> n"

lemma filter_update_length:
  "i < length xs \<Longrightarrow> length (filter P (xs[i := y])) + (if P (xs ! i) then 1 else 0) =
     length (filter P xs) + (if P y then 1 else 0)"
proof (induction xs arbitrary: i)
  case (Cons x xs)
  then show ?case by (cases i) auto
qed simp

lemma list_all_update:
  "list_all P xs \<Longrightarrow> P y \<Longrightarrow> list_all P (xs[i := y])"
  by (auto simp: list_all_iff dest: set_update_subset_insert[THEN subsetD])

lemma list_all_nth_elem: "list_all P xs \<Longrightarrow> i < length xs \<Longrightarrow> P (xs ! i)"
  by (simp add: list_all_length)

lemma close_inv_start:
  "close_inv n \<lparr>cl_in = False, cl_out = False, cl_in_closes = 0, cl_out_closes = 0, cl_pcs = replicate n TestIn\<rparr>"
  by (simp add: close_inv_def list_all_iff pc_ok_def past_in_def)

lemma pc_ok_mono:
  assumes "list_all (pc_ok s) ps" and "cl_in s \<le> cl_in s'" and "cl_out s \<le> cl_out s'"
    and "cl_in_closes s \<le> cl_in_closes s'" and "cl_out_closes s \<le> cl_out_closes s'"
  shows "list_all (pc_ok s') ps"
proof -
  have "pc_ok s p \<Longrightarrow> pc_ok s' p" for p using assms(2-5) by (auto simp: pc_ok_def)
  then show ?thesis using assms(1) by (simp add: list_all_iff)
qed

lemma close_inv_step:
  assumes "close_step s s'" and "close_inv n s"
  shows "close_inv n s'"
proof -
  note inv = assms(2)[unfolded close_inv_def]
  have all: "list_all (pc_ok s) (cl_pcs s)" and len: "length (cl_pcs s) = n" using inv by auto
  note upd = filter_update_length[of _ "cl_pcs s"]
  from assms(1) show ?thesis
  proof cases
    case (test_in i)
    let ?y = "if cl_in s then TestOut else CloseIn"
    have "pc_ok s' ?y" using test_in by (auto simp: pc_ok_def past_in_def)
    then have "list_all (pc_ok s') (cl_pcs s')"
      using pc_ok_mono[OF all, of s'] test_in by (auto intro: list_all_update)
    then show ?thesis using inv test_in upd[of i "\<lambda>p. p \<in> {TestIn, CloseIn}" ?y] upd[of i "\<lambda>p. p \<notin> {MarkOut, Finished}" ?y]
      by (auto simp: close_inv_def split: if_splits)
  next
    case (close_in i)
    have "pc_ok s' MarkIn" using close_in by (auto simp: pc_ok_def past_in_def)
    then have "list_all (pc_ok s') (cl_pcs s')"
      using pc_ok_mono[OF all, of s'] close_in by (auto intro: list_all_update)
    then show ?thesis using inv close_in upd[of i "\<lambda>p. p \<in> {TestIn, CloseIn}" MarkIn] upd[of i "\<lambda>p. p \<notin> {MarkOut, Finished}" MarkIn]
      by (auto simp: close_inv_def)
  next
    case (mark_in i)
    have "pc_ok s' TestOut" using mark_in by (auto simp: pc_ok_def past_in_def)
    moreover have "cl_in_closes s > 0" using list_all_nth_elem[OF all mark_in(2)] mark_in(3) by (simp add: pc_ok_def)
    moreover have "list_all (pc_ok s') (cl_pcs s)" using pc_ok_mono[OF all, of s'] mark_in by auto
    ultimately show ?thesis using inv mark_in upd[of i "\<lambda>p. p \<in> {TestIn, CloseIn}" TestOut] upd[of i "\<lambda>p. p \<notin> {MarkOut, Finished}" TestOut]
      by (auto simp: close_inv_def list_all_update)
  next
    case (test_out i)
    let ?y = "if cl_out s then Finished else CloseOut"
    have "cl_in s" using list_all_nth_elem[OF all test_out(2)] test_out(3) by (simp add: pc_ok_def past_in_def)
    then have "pc_ok s' ?y" using test_out by (auto simp: pc_ok_def past_in_def)
    then have "list_all (pc_ok s') (cl_pcs s')"
      using pc_ok_mono[OF all, of s'] test_out by (auto intro: list_all_update)
    then show ?thesis using inv test_out upd[of i "\<lambda>p. p \<in> {TestIn, CloseIn}" ?y] upd[of i "\<lambda>p. p \<notin> {MarkOut, Finished}" ?y]
      by (auto simp: close_inv_def split: if_splits)
  next
    case (close_out i)
    have "cl_in s" using list_all_nth_elem[OF all close_out(2)] close_out(3) by (simp add: pc_ok_def past_in_def)
    then have "pc_ok s' MarkOut" using close_out by (auto simp: pc_ok_def past_in_def)
    then have "list_all (pc_ok s') (cl_pcs s')"
      using pc_ok_mono[OF all, of s'] close_out by (auto intro: list_all_update)
    then show ?thesis using inv close_out upd[of i "\<lambda>p. p \<in> {TestIn, CloseIn}" MarkOut] upd[of i "\<lambda>p. p \<notin> {MarkOut, Finished}" MarkOut]
      by (auto simp: close_inv_def)
  next
    case (mark_out i)
    have "cl_in s" "cl_out_closes s > 0"
      using list_all_nth_elem[OF all mark_out(2)] mark_out(3) by (simp_all add: pc_ok_def past_in_def)
    moreover from this have "pc_ok s' Finished" using mark_out by (auto simp: pc_ok_def past_in_def)
    moreover have "list_all (pc_ok s') (cl_pcs s)" using pc_ok_mono[OF all, of s'] mark_out by auto
    ultimately show ?thesis using inv mark_out upd[of i "\<lambda>p. p \<in> {TestIn, CloseIn}" Finished] upd[of i "\<lambda>p. p \<notin> {MarkOut, Finished}" Finished]
      by (auto simp: close_inv_def list_all_update)
  qed
qed

lemma close_inv_reachable: "reachable n s \<Longrightarrow> close_inv n s"
  by (induction rule: reachable.induct) (auto simp: close_inv_start intro: close_inv_step)

section \<open>Properties\<close>

text \<open>
  Closing a connection closes each side that is still open, exactly once and the input
  side first, and closing again does nothing. The error is that of the output side whenever
  that side was still open: an error of closing the input is then lost.
\<close>

theorem Close_spec:
  "let (err, c', w') = Close P (c, w);
       (e1, w1) = (if kn_stdin_closed c then (None, w) else pi_close_stdin P w);
       (e2, w2) = (if kn_stdout_closed c then (None, w1) else pi_close_stdout P w1)
   in kn_stdin_closed c' \<and> kn_stdout_closed c' \<and> w' = w2 \<and>
      err = (if kn_stdout_closed c then e1 else e2) \<and> Close P (c', w'') = (None, c', w'')"
  by (auto simp: Close_def CloseWrite_def CloseRead_def Let_def split: prod.splits)

text \<open>
  When goroutines close the same connection, then once one of them has returned both
  flags are set and both pipes have been closed, and in no order of their steps is a pipe
  closed more often than there are goroutines.
\<close>

theorem concurrent_Close:
  assumes "reachable n s" and "Finished \<in> set (cl_pcs s)"
  shows "cl_in s \<and> cl_out s \<and> 1 \<le> cl_in_closes s \<and> cl_in_closes s \<le> n \<and> 1 \<le> cl_out_closes s \<and> cl_out_closes s \<le> n"
proof -
  note inv = close_inv_reachable[OF assms(1), unfolded close_inv_def]
  then have "pc_ok s Finished" using assms(2) by (auto simp: list_all_iff)
  then have "cl_in s" "cl_out s" by (simp_all add: pc_ok_def past_in_def)
  with inv show ?thesis by (auto simp: Suc_le_eq)
qed

lemma one_closes:
  "reachable 1 \<lparr>cl_in = True, cl_out = True, cl_in_closes = 1, cl_out_closes = 1, cl_pcs = [Finished]\<rparr>"
proof -
  let ?s = "\<lambda>a b c d p. \<lparr>cl_in = a, cl_out = b, cl_in_closes = c, cl_out_closes = d, cl_pcs = [p]\<rparr>"
  have "reachable 1 (?s False False 0 0 TestIn)" using reachable.start[of 1] by simp
  from reachable.step[OF this close_step.test_in[of 0]] have "reachable 1 (?s False False 0 0 CloseIn)" by simp
  from reachable.step[OF this close_step.close_in[of 0]] have "reachable 1 (?s False False 1 0 MarkIn)" by simp
  from reachable.step[OF this close_step.mark_in[of 0]] have "reachable 1 (?s True False 1 0 TestOut)" by simp
  from reachable.step[OF this close_step.test_out[of 0]] have "reachable 1 (?s True False 1 0 CloseOut)" by simp
  from reachable.step[OF this close_step.close_out[of 0]] have "reachable 1 (?s True False 1 1 MarkOut)" by simp
  from reachable.step[OF this close_step.mark_out[of 0]] show ?thesis by simp
qed

theorem concurrent_Close_example:
  "cl_in \<lparr>cl_in = True, cl_out = True, cl_in_closes = 1, cl_out_closes = 1, cl_pcs = [Finished]\<rparr>"
  using concurrent_Close[OF one_closes] by simp


end
