(* ===== verification/KubeDriver.thy ===== *)
theory KubeDriver
  imports Auth ExecConn
begin

text \<open>
  The operations of the Kubernetes driver: \<open>pkg/driver/kubernetes/driver.go\<close>. They are put
  together as a \<open>driver\<close> at the end, over the pair of the driver and the outside world.
\<close>

section \<open>Choosing a pod\<close>

text \<open>The random number of the chooser (seeded with the time), the digest of the ring, and the
  order of evaluation that the compiler takes.\<close>

record 'w chooser_env =
  ce_md5 :: digest_fun
  ce_index_first :: bool
  ce_random :: "'w \<Rightarrow> nat"

text \<open>\<open>podchooser.ListRunningPods\<close> against the server.\<close>

definition list_running :: "'w kube \<Rightarrow> deployment \<Rightarrow> 'w \<Rightarrow> pod list result \<times> 'w" where
  "list_running K depl w =
     (let name = (if d_name depl = [] then ''buildkit'' else d_name depl) in
      case k_selector K ''app'' name of
        Inl e \<Rightarrow> (Err e, w)
      | Inr selector \<Rightarrow>
          let (items, w) = k_pod_list K selector w
          in (ListRunningPods \<lparr>selector_of = k_selector K, pods_list = (\<lambda>_. items)\<rparr> depl, w))"

text \<open>The \<open>ChoosePod\<close> of the two choosers; a nil chooser is a panic.\<close>

definition ChoosePod :: "'w kube \<Rightarrow> 'w chooser_env \<Rightarrow> chooser option \<Rightarrow> 'w \<Rightarrow> (pod \<times> pod option list) result \<times> 'w" where
  "ChoosePod K ce c w =
     (case c of
        None \<Rightarrow> (Err (Panic ''nil pointer dereference''), w)
      | Some (RandomChooser depl) \<Rightarrow>
          (case list_running K depl w of
             (Inl e, w) \<Rightarrow> (Err e, w)
           | (Inr pods, w) \<Rightarrow> (RandomChoosePod (ce_index_first ce) (ce_random ce w) pods, w))
      | Some (StickyChooser hash_key depl) \<Rightarrow>
          (case list_running K depl w of
             (Inl e, w) \<Rightarrow> (Err e, w)
           | (Inr pods, w) \<Rightarrow>
               (sticky_choice (ce_md5 ce) hash_key (ce_index_first ce) (ce_random ce w) pods, w)))"

section \<open>Information and removal\<close>

definition bare_node :: "string \<Rightarrow> store_node" where
  "bare_node name =
     \<lparr>sn_name = name, sn_endpoint = [], sn_platforms = [], sn_flags = [], sn_config_file = [],
      sn_driver_opts = Map.empty\<rparr>"

definition Info :: "'w kube \<Rightarrow> kube_driver \<Rightarrow> 'w \<Rightarrow> info result \<times> 'w" where
  "Info K d w =
     (case k_depl_get K (d_name (kd_deployment d)) w of
        (Inl _, w) \<Rightarrow> (Ok \<lparr>in_status = Inactive, in_nodes = []\<rparr>, w)
      | (Inr depl, w) \<Rightarrow>
          if sint (d_ready_replicas depl) \<le> 0 then (Ok \<lparr>in_status = Stopped, in_nodes = []\<rparr>, w)
          else
            case list_running K depl w of
              (Inl e, w) \<Rightarrow> (Err e, w)
            | (Inr pods, w) \<Rightarrow>
                (Ok \<lparr>in_status = Running, in_nodes = map (\<lambda>p. bare_node (p_name p)) pods\<rparr>, w))"

definition Stop :: "bool \<Rightarrow> 'w action" where
  "Stop force w = (None, w)"

definition Rm :: "'w kube \<Rightarrow> kube_driver \<Rightarrow> bool \<Rightarrow> 'w action" where
  "Rm K d force w =
     (case k_depl_delete K (d_name (kd_deployment d)) w of
        (Some e, w) \<Rightarrow>
          (Some (Wrapf e ''error while calling deploymentClient.Delete for %q'' [d_name (kd_deployment d)]), w)
      | (None, w) \<Rightarrow>
          (case k_cm_delete K (cm_name (kd_config_map d)) w of
             (Some e, w) \<Rightarrow>
               (Some (Wrapf e ''error while calling configMapClient.Delete for %q'' [cm_name (kd_config_map d)]), w)
           | (None, w) \<Rightarrow> (None, w)))"

section \<open>Clients\<close>

text \<open>\<open>client.New\<close> with a dialer that hands out the connection does not fail on an empty
  address without TLS options.\<close>

definition buildNodeClient :: "'w kube \<Rightarrow> pod option \<Rightarrow> node_client result" where
  "buildNodeClient K pod =
     (case pod of
        None \<Rightarrow> Err (Panic ''nil pointer dereference'')
      | Some p \<Rightarrow>
          (case p_containers p of
             [] \<Rightarrow> Err (Panic ''index out of range'')
           | c # _ \<Rightarrow>
               and_then (ExecConn K (p_namespace p) (p_name p) c [''buildctl'', ''dial-stdio'']) (\<lambda>conn.
                 Ok \<lparr>nc_name = p_name p, nc_addr = p_ip p, nc_client = kn_target conn\<rparr>)))"

definition no_container :: "pod \<Rightarrow> go_error" where
  "no_container p = Errorf ''pod %s does not have any container'' [p_name p]"

definition Clients :: "'w kube \<Rightarrow> 'w chooser_env \<Rightarrow> kube_driver \<Rightarrow> 'w \<Rightarrow> builder_clients result \<times> 'w" where
  "Clients K ce d w =
     (case k_client_config K of
        Inl e \<Rightarrow> (Err e, w)
      | Inr _ \<Rightarrow>
          (case ChoosePod K ce (kd_chooser d) w of
             (Inl e, w) \<Rightarrow> (Err e, w)
           | (Inr (p, otherPods), w) \<Rightarrow>
               if p_containers p = [] then (Err (no_container p), w)
               else
                 (and_then (buildNodeClient K (Some p)) (\<lambda>chosen.
                  and_then (map_res (buildNodeClient K) otherPods) (\<lambda>others.
                    Ok \<lparr>bc_chosen = chosen, bc_others = others\<rparr>)), w)))"

definition RuntimeSockProxy :: "'w kube \<Rightarrow> kube_driver \<Rightarrow> string \<Rightarrow> 'w \<Rightarrow> kube_conn result \<times> 'w" where
  "RuntimeSockProxy K d name w =
     (case k_client_config K of
        Inl e \<Rightarrow> (Err e, w)
      | Inr _ \<Rightarrow>
          (case list_running K (kd_deployment d) w of
             (Inl e, w) \<Rightarrow> (Err e, w)
           | (Inr pods, w) \<Rightarrow>
               ((case filter (\<lambda>p. p_name p = name) pods of
                   [] \<Rightarrow> Err (Errorf ''no available builder pods for %s'' [name])
                 | p # _ \<Rightarrow>
                     (case p_containers p of
                        [] \<Rightarrow> Err (no_container p)
                      | c # _ \<Rightarrow>
                          let runtime = lookup_str (p_labels p) ''runtime'' in
                          and_then
                            (if runtime = ''containerd'' then Ok (''unix://'' @ DefaultContainerdSockPath)
                             else if runtime = ''docker'' then Ok (''unix://'' @ DefaultDockerSockPath)
                             else Err (Errorf ''unexpected runtime label (%v) on pod (%s)'' [runtime, p_name p]))
                            (\<lambda>sockPath. ExecConn K (p_namespace p) (p_name p) c
                               [''buildctl'', ''--addr'', sockPath, ''dial-stdio'']))), w)))"

text \<open>\<open>return "", err\<close> after \<open>serr := exec.Stream(...)\<close>: \<open>err\<close> is nil there.\<close>

definition GetVersion :: "'w kube \<Rightarrow> 'w chooser_env \<Rightarrow> kube_driver \<Rightarrow> 'w \<Rightarrow> string result \<times> 'w" where
  "GetVersion K ce d w =
     (case k_client_config K of
        Inl e \<Rightarrow> (Err e, w)
      | Inr _ \<Rightarrow>
          (case ChoosePod K ce (kd_chooser d) w of
             (Inl e, w) \<Rightarrow> (Err e, w)
           | (Inr (p, _), w) \<Rightarrow>
               (case p_containers p of
                  [] \<Rightarrow> (Err (no_container p), w)
                | c # _ \<Rightarrow>
                    let x = \<lparr>x_namespace = p_namespace p, x_pod = p_name p, x_container = c,
                             x_cmd = [''buildkitd'', ''--version'']\<rparr> in
                    (case k_executor K x of
                       Inl e \<Rightarrow> (Err e, w)
                     | Inr _ \<Rightarrow>
                         (case k_stream K x w of
                            ((Some serr, _), w) \<Rightarrow> (Ok [], w)
                          | ((None, out), w) \<Rightarrow> (Ok (trim_space out), w))))))"

section \<open>Listing and features\<close>

fun list_builders :: "'w kube \<Rightarrow> deployment list \<Rightarrow> 'w \<Rightarrow> builder list result \<times> 'w" where
  "list_builders K [] w = (Ok [], w)"
| "list_builders K (depl # ds) w =
     (if d_annotations depl AnnotationKey = None then list_builders K ds w
      else
        case list_running K depl w of
          (Inl e, w) \<Rightarrow> (Err e, w)
        | (Inr pods, w) \<Rightarrow>
            let b = \<lparr>b_name = d_name depl, b_driver = DriverName,
                     b_nodes = map (\<lambda>p. \<lparr>bn_name = p_name p, bn_status = p_message p, bn_platforms = []\<rparr>) pods\<rparr>;
                (rest, w) = list_builders K ds w
            in (and_then rest (\<lambda>bs. Ok (b # bs)), w))"

definition List :: "'w kube \<Rightarrow> 'w \<Rightarrow> builder list result \<times> 'w" where
  "List K w =
     (case k_depl_list K w of
        (Inl e, w) \<Rightarrow> (Err (Wrapf e ''failed to lookup builder deployments'' []), w)
      | (Inr items, w) \<Rightarrow> list_builders K items w)"

definition isRootless :: "string \<Rightarrow> bool" where
  "isRootless rootless = (case parse_bool rootless of Inr b \<Rightarrow> b | Inl _ \<Rightarrow> False)"

definition Features :: "'w kube \<Rightarrow> 'w chooser_env \<Rightarrow> kube_driver \<Rightarrow> 'w \<Rightarrow> (feature \<rightharpoonup> bool) \<times> 'w" where
  "Features K ce d w =
     (let res = [OCIExporter \<mapsto> True, DockerExporter \<mapsto> False, ContainerdExporter \<mapsto> False,
                 CacheExport \<mapsto> True, MultiPlatform \<mapsto> True] in
      case ChoosePod K ce (kd_chooser d) w of
        (Inr (p, _), w) \<Rightarrow>
          (if p_containers p \<noteq> [] \<and> \<not> isRootless (lookup_str (p_labels p) ''rootless'') then
             (let runtime = lookup_str (p_labels p) ''runtime'' in
              if runtime = ''containerd'' then res(ContainerdExporter \<mapsto> True)
              else if runtime = ''docker'' then res(DockerExporter \<mapsto> True)
              else res)
           else res, w)
      | (Inl _, w) \<Rightarrow> (res, w))"

section \<open>Bootstrapping\<close>

text \<open>Two nested progress steps around the wait. \<open>None\<close> is a wait that never returns; the
  driver that a retry has made anew is handed back.\<close>

definition Bootstrap ::
  "'w kube \<Rightarrow> factory_env \<Rightarrow> 'w logger \<Rightarrow> kube_driver \<times> 'w \<Rightarrow> (go_error option \<times> kube_driver \<times> 'w) option" where
  "Bootstrap K fe l = (\<lambda>(d, w).
     let sys = k_sys K;
         (dgst, w) = sys_id sys w;
         (tm, w) = sys_now sys w;
         v = \<lparr>v_digest = dgst, v_name = ''[internal] booting buildkit'', v_started = Some tm,
              v_completed = None, v_error = []\<rparr>;
         w = l (vertex_report v) w;
         (tm1, w) = sys_now sys w;
         (ts1, w) = sys_now sys w;
         st = \<lparr>vs_vertex = dgst,
               vs_id = ''waiting for '' @ itoa (kd_min_replicas d) @ '' pods to be ready for '' @ d_name (kd_deployment d),
               vs_timestamp = ts1, vs_started = Some tm1, vs_completed = None\<rparr>;
         w = l (status_report st) w
     in case wait_builder K fe (sub_Log sys l \<lparr>sl_digest = dgst\<rparr> 1) (d, w) of
          None \<Rightarrow> None
        | Some (err, d, w) \<Rightarrow>
            let (tm2, w) = sys_now sys w;
                (ts2, w) = sys_now sys w;
                w = l (status_report (st\<lparr>vs_timestamp := ts2, vs_completed := Some tm2\<rparr>)) w;
                (tm3, w) = sys_now sys w;
                w = l (vertex_report (v\<lparr>v_completed := Some tm3, v_error := error_message sys err\<rparr>)) w
            in Some (err, d, w))"

section \<open>The driver as a whole\<close>

definition dr_sys :: "'w sys \<Rightarrow> (kube_driver \<times> 'w) sys" where
  "dr_sys s =
     \<lparr>sys_now = (\<lambda>(d, w). let (x, w) = sys_now s w in (x, d, w)),
      sys_id = (\<lambda>(d, w). let (x, w) = sys_id s w in (x, d, w)),
      sys_draw = (\<lambda>n (d, w). let (x, w) = sys_draw s n w in (x, d, w)),
      sys_sleep = (\<lambda>n (d, w). (d, sys_sleep s n w)),
      sys_done = (\<lambda>(d, w). sys_done s w),
      sys_text = sys_text s\<rparr>"

definition on_env :: "('w \<Rightarrow> 'a \<times> 'w) \<Rightarrow> kube_driver \<times> 'w \<Rightarrow> 'a \<times> kube_driver \<times> 'w" where
  "on_env f = (\<lambda>(d, w). let (x, w) = f w in (x, d, w))"

text \<open>A logger that the interface hands over leaves the driver alone.\<close>

definition kubernetes_driver :: "'w kube \<Rightarrow> factory_env \<Rightarrow> 'w chooser_env \<Rightarrow> (kube_driver \<times> 'w) driver" where
  "kubernetes_driver K fe ce =
     \<lparr>dr_Bootstrap = (\<lambda>l (d, w). the (Bootstrap K fe (\<lambda>s w. snd (l s (d, w))) (d, w))),
      dr_Info = (\<lambda>(d, w). on_env (Info K d) (d, w)),
      dr_Stop = (\<lambda>force. on_env (Stop force)),
      dr_Rm = (\<lambda>force (d, w). on_env (Rm K d force) (d, w)),
      dr_Clients = (\<lambda>(d, w). on_env (Clients K ce d) (d, w)),
      dr_Features = (\<lambda>(d, w). on_env (Features K ce d) (d, w)),
      dr_List = on_env (List K),
      dr_RuntimeSockProxy = (\<lambda>name (d, w).
        on_env (\<lambda>w. case RuntimeSockProxy K d name w of (r, w) \<Rightarrow> (map_sum id kn_target r, w)) (d, w)),
      dr_GetVersion = (\<lambda>(d, w). on_env (GetVersion K ce d) (d, w)),
      dr_GetAuthHintMessage = (\<lambda>(d, w). GetAuthHintMessage d), dr_Factory_Name = DriverName,
      dr_GetAuthProvider = (\<lambda>name (d, w). ap_name (GetAuthProvider d name)),
      dr_GetAuthWrapper = (\<lambda>name (d, w). ap_name (GetAuthWrapper d name))\<rparr>"

section \<open>Lemmas\<close>

text \<open>Pods of one namespace have distinct names.\<close>

definition distinct_pods :: "'w kube \<Rightarrow> bool" where
  "distinct_pods K \<longleftrightarrow> (\<forall>s w items w'. k_pod_list K s w = (Ok items, w') \<longrightarrow> distinct (map p_name items))"

lemma list_running_Ok:
  assumes "list_running K depl w = (Ok pods, w')"
  obtains sel items where "k_selector K ''app'' (if d_name depl = [] then ''buildkit'' else d_name depl) = Ok sel"
    "k_pod_list K sel w = (Ok items, w')" "pods = sort_key p_name (filter (\<lambda>p. p_phase p = ''Running'') items)"
proof -
  let ?name = "if d_name depl = [] then ''buildkit'' else d_name depl"
  obtain sel where sel: "k_selector K ''app'' ?name = Ok sel"
    using assms by (cases "k_selector K ''app'' ?name") (auto simp: list_running_def Let_def)
  obtain r w1 where r: "k_pod_list K sel w = (r, w1)" by fastforce
  show thesis
    using assms sel r that[of sel]
    by (cases r) (auto simp: list_running_def ListRunningPods_def Let_def split: if_splits)
qed

lemma list_running_distinct:
  assumes "distinct_pods K" and "list_running K depl w = (Ok pods, w')"
  shows "distinct (map p_name pods)"
proof -
  from assms(2) obtain sel items where items: "k_pod_list K sel w = (Ok items, w')"
    "pods = sort_key p_name (filter (\<lambda>p. p_phase p = ''Running'') items)" by (rule list_running_Ok)
  then have "distinct (map p_name items)" using assms(1) by (auto simp: distinct_pods_def)
  then have "distinct (map p_name (filter (\<lambda>p. p_phase p = ''Running'') items))" by (rule distinct_map_filter)
  moreover have "mset (map p_name pods) = mset (map p_name (filter (\<lambda>p. p_phase p = ''Running'') items))"
    using items by simp
  ultimately show ?thesis by (metis mset_eq_imp_distinct_iff)
qed

definition chooser_deployment :: "chooser \<Rightarrow> deployment" where
  "chooser_deployment c = (case c of StickyChooser _ depl \<Rightarrow> depl | RandomChooser depl \<Rightarrow> depl)"

text \<open>Both choosers split the running pods, by the interface of a chooser.\<close>

lemma ChoosePod_split:
  assumes "distinct_pods K" and "ce_index_first ce" and "ChoosePod K ce (Some c) w = (Ok (p, others), w')"
  obtains pods os where "list_running K (chooser_deployment c) w = (Ok pods, w')" "others = map Some os"
    "mset (p # os) = mset pods"
proof -
  obtain r w1 where run: "list_running K (chooser_deployment c) w = (r, w1)" by fastforce
  then obtain pods where pods: "r = Ok pods" "w1 = w'"
    using assms(3) by (cases c; cases r) (auto simp: ChoosePod_def chooser_deployment_def)
  have dist: "distinct (map p_name pods)" using list_running_distinct[OF assms(1)] run pods by simp
  have "\<exists>os. others = map Some os \<and> mset (p # os) = mset pods"
    using assms(2,3) run pods random.split_of[OF dist] ring.sticky.split_of[OF dist]
    by (cases c) (auto simp: ChoosePod_def chooser_deployment_def sticky_choice_def)
  then show thesis using that run pods by auto
qed

text \<open>The features keep the interface.\<close>

interpretation kube: feature_provider "Features K ce d" for K ce d
proof unfold_locales
  fix w
  show "fst (Features K ce d w) OCIExporter = Some True" "fst (Features K ce d w) CacheExport = Some True"
    "fst (Features K ce d w) MultiPlatform = Some True"
    by (auto simp: Features_def feature_defs Let_def split: prod.splits sum.splits)
  show "\<not> (fst (Features K ce d w) DockerExporter = Some True \<and> fst (Features K ce d w) ContainerdExporter = Some True)"
    by (auto simp: Features_def feature_defs Let_def split: prod.splits sum.splits)
qed

lemma buildNodeClient_Ok:
  "buildNodeClient K (Some p) = Ok nc \<longleftrightarrow>
     (\<exists>c cs. p_containers p = c # cs \<and>
        (let x = \<lparr>x_namespace = p_namespace p, x_pod = p_name p, x_container = c, x_cmd = [''buildctl'', ''dial-stdio'']\<rparr>
         in k_executor K x = Ok () \<and> nc = \<lparr>nc_name = p_name p, nc_addr = p_ip p, nc_client = x\<rparr>))"
  by (auto simp: buildNodeClient_def ExecConn_def new_conn_def Let_def and_then_Inr_iff split: list.splits)


lemma map_res_buildNodeClient:
  "map_res (buildNodeClient K) (map Some os) = Ok ncs \<Longrightarrow>
     map nc_name ncs = map p_name os \<and> map nc_addr ncs = map p_ip os \<and>
     list_all (\<lambda>nc. x_pod (nc_client nc) = nc_name nc \<and> x_cmd (nc_client nc) = [''buildctl'', ''dial-stdio'']) ncs"
  by (induction os arbitrary: ncs) (auto simp: and_then_Inr_iff buildNodeClient_Ok Let_def)

text \<open>Time on the pair.\<close>

lemma timed_dr_sys: "timed_sys clock deadline sys \<Longrightarrow> timed_sys (\<lambda>(d, w). clock w) deadline (dr_sys sys)"
  by (auto simp: timed_sys_def dr_sys_def Let_def split: prod.splits) (metis snd_conv)+

lemma clock_sys:
  assumes "timed_sys clock deadline sys"
  shows "sys_now sys w = (t, w') \<Longrightarrow> clock w \<le> clock w'" "sys_id sys w = (i, w') \<Longrightarrow> clock w \<le> clock w'"
  using assms unfolding timed_sys_def by (metis snd_conv)+

text \<open>The logger of a progress step is as patient as the logger under it.\<close>

lemma timed_sub_Log:
  assumes "timed_kube clock deadline K l0" and "\<And>s w. clock w \<le> clock (l s w)"
  shows "timed_kube clock deadline K (sub_Log (k_sys K) l sl n)"
proof -
  have "clock w \<le> clock (sub_Log (k_sys K) l sl n s w)" for s w
  proof -
    obtain t w1 where t: "sys_now (k_sys K) w = (t, w1)" by fastforce
    show ?thesis
      using le_trans[OF clock_sys(1)[OF timed_kube_sys[OF assms(1)] t] assms(2)] t by (simp add: sub_Log_def)
  qed
  then show ?thesis using assms(1) by (simp add: timed_kube_def)
qed

lemma createConfigMap_clock:
  assumes "timed_kube clock deadline K log"
  shows "\<exists>r w'. createConfigMap K d log w = Some (r, w') \<and> clock w \<le> clock w'"
proof -
  let ?body = "config_map_round K d log" and ?start = "(Some (Errorf ''timeout before first attempt'' []), [], w)"
  let ?I = "\<lambda>(_, _, w1). clock w \<le> clock w1"
  have again: "?I s \<Longrightarrow> ?body s = (Again, s') \<Longrightarrow> ?I s' \<and> deadline - clock (snd (snd s')) < deadline - clock (snd (snd s))" for s s'
    using config_map_round_Again[OF assms] by (cases s; cases s') fastforce
  then have "\<exists>r s'. loop ?body ?start = Some (r, s')"
    by (intro loop_returns[where I = ?I and m = "\<lambda>s. deadline - clock (snd (snd s))"]) auto
  then obtain r s' where run: "loop ?body ?start = Some (r, s')" by blast
  have start: "?I ?start" by simp
  have keep: "\<And>s s'. ?I s \<Longrightarrow> ?body s = (Again, s') \<Longrightarrow> ?I s'" using again by blast
  from run start keep obtain s1 where s1: "?I s1" "?body s1 = (Return r, s')"
    by (rule loop_last[where I = ?I])
  obtain e v w1 where e: "s1 = (e, v, w1)" by (cases s1) auto
  obtain rg w2 where g: "k_cm_get K (cm_name (kd_config_map d)) w1 = (rg, w2)" by fastforce
  obtain rc w3 where c: "k_cm_create K (kd_config_map d) w2 = (rc, w3)" by fastforce
  obtain ru w4 where u: "k_cm_update K (kd_config_map d) w2 = (ru, w4)" by fastforce
  have "clock w1 \<le> clock (snd (snd s'))"
    using s1(2) e g c u clock_strict(2)[OF assms g] clock_calls(6)[OF assms c] clock_calls(7)[OF assms u]
    by (cases rg; cases rc; cases ru) (auto simp: config_map_round_def split: if_splits)
  then show ?thesis using run s1(1) e by (cases s') (auto simp: createConfigMap_def)
qed

lemma createBuilder_clock:
  assumes "timed_kube clock deadline K log"
  shows "\<exists>r d' w'. createBuilder K fe log (d, w) = Some (r, d', w') \<and> clock w \<le> clock w'"
proof -
  let ?start = "(\<lparr>cb_driver = d, cb_err = None, cb_depl = no_deployment, cb_ref_uid = None, cb_ref_kind = None,
         cb_reported = []\<rparr>, w)"
  obtain r st w' where run: "loop (builder_round K fe log) ?start = Some (r, st, w')"
    using builder_loop_returns[OF assms] by blast
  have keep: "\<And>s s'. clock w \<le> clock (snd s) \<Longrightarrow> builder_round K fe log s = (Again, s') \<Longrightarrow> clock w \<le> clock (snd s')"
    using clock_builder_round[OF assms] by fastforce
  have start: "clock w \<le> clock (snd ?start)" by simp
  from run start keep obtain s1 where s1: "clock w \<le> clock (snd s1)" "builder_round K fe log s1 = (Return r, st, w')"
    by (rule loop_last[where I = "\<lambda>s. clock w \<le> clock (snd s)"])
  then have "clock (snd s1) \<le> clock w'" using clock_builder_round_Return[OF assms] by (metis prod.collapse)
  with s1(1) run show ?thesis by (auto simp: createBuilder_def)
qed


lemma wait_builder_clock:
  assumes "timed_kube clock deadline K log"
  shows "\<exists>r d' w'. wait_builder K fe log (d, w) = Some (r, d', w') \<and> clock w \<le> clock w'"
proof -
  obtain r w1 where c: "createConfigMap K d log w = Some (r, w1)" "clock w \<le> clock w1"
    using createConfigMap_clock[OF assms] by blast
  show ?thesis
  proof (cases r)
    case (Some e)
    then show ?thesis using c by (simp add: wait_builder_def)
  next
    case None
    obtain r' d' w' where b: "createBuilder K fe log (d, w1) = Some (r', d', w')" "clock w1 \<le> clock w'"
      using createBuilder_clock[OF assms] by blast
    with c None show ?thesis by (auto simp: wait_builder_def)
  qed
qed

text \<open>Bootstrapping always returns.\<close>

lemma Bootstrap_returns:
  assumes "timed_kube clock deadline K l0" and log: "\<And>s w. clock w \<le> clock (l s w)"
  shows "\<exists>r d' w'. Bootstrap K fe l (d, w) = Some (r, d', w') \<and> clock w \<le> clock w'"
proof -
  note sys = clock_sys[OF timed_kube_sys[OF assms(1)]]
  obtain dg w1 where 1: "sys_id (k_sys K) w = (dg, w1)" by fastforce
  obtain tm w2 where 2: "sys_now (k_sys K) w1 = (tm, w2)" by fastforce
  let ?v = "\<lparr>v_digest = dg, v_name = ''[internal] booting buildkit'', v_started = Some tm, v_completed = None, v_error = []\<rparr>"
  obtain tm1 w3 where 3: "sys_now (k_sys K) (l (vertex_report ?v) w2) = (tm1, w3)" by fastforce
  obtain ts1 w4 where 4: "sys_now (k_sys K) w3 = (ts1, w4)" by fastforce
  let ?st = "\<lparr>vs_vertex = dg,
               vs_id = ''waiting for '' @ itoa (kd_min_replicas d) @ '' pods to be ready for '' @ d_name (kd_deployment d),
               vs_timestamp = ts1, vs_started = Some tm1, vs_completed = None\<rparr>"
  have lg: "timed_kube clock deadline K (sub_Log (k_sys K) l \<lparr>sl_digest = dg\<rparr> 1)"
    using assms(1) log by (rule timed_sub_Log)
  obtain r d' w5 where 5: "wait_builder K fe (sub_Log (k_sys K) l \<lparr>sl_digest = dg\<rparr> 1) (d, l (status_report ?st) w4) = Some (r, d', w5)"
    "clock (l (status_report ?st) w4) \<le> clock w5"
    using wait_builder_clock[OF lg, of fe d "l (status_report ?st) w4"] by (elim exE conjE) (rule that)
  obtain tm2 w6 where 6: "sys_now (k_sys K) w5 = (tm2, w6)" by fastforce
  obtain ts2 w7 where 7: "sys_now (k_sys K) w6 = (ts2, w7)" by fastforce
  let ?st2 = "?st\<lparr>vs_timestamp := ts2, vs_completed := Some tm2\<rparr>"
  obtain tm3 w8 where 8: "sys_now (k_sys K) (l (status_report ?st2) w7) = (tm3, w8)" by fastforce
  let ?v2 = "?v\<lparr>v_completed := Some tm3, v_error := error_message (k_sys K) r\<rparr>"
  have "clock w \<le> clock w2" using le_trans[OF sys(2)[OF 1] sys(1)[OF 2]] .
  also have "\<dots> \<le> clock w4" using le_trans[OF log le_trans[OF sys(1)[OF 3] sys(1)[OF 4]]] .
  also have "\<dots> \<le> clock w5" using le_trans[OF log 5(2)] .
  also have "\<dots> \<le> clock w7" using le_trans[OF sys(1)[OF 6] sys(1)[OF 7]] .
  also have "\<dots> \<le> clock (l (vertex_report ?v2) w8)" using le_trans[OF log le_trans[OF sys(1)[OF 8] log]] .
  finally have "clock w \<le> clock (l (vertex_report ?v2) w8)" .
  moreover have "Bootstrap K fe l (d, w) = Some (r, d', l (vertex_report ?v2) w8)"
    using 5(1) 8 by (simp add: Bootstrap_def Let_def 1 2 3 4 6 7)
  ultimately show ?thesis by blast
qed

text \<open>What the driver needs beyond the creation of the builder: the lists take no negative time.\<close>

lemma list_running_clock:
  assumes "timed_kube clock deadline K log" and "list_running K depl w = (r, w')"
  shows "clock w \<le> clock w'"
proof (cases "k_selector K ''app'' (if d_name depl = [] then ''buildkit'' else d_name depl)")
  case (Inl e)
  then show ?thesis using assms(2) by (simp add: list_running_def Let_def)
next
  case (Inr sel)
  obtain rp w1 where p: "k_pod_list K sel w = (rp, w1)" by fastforce
  show ?thesis using assms(2) Inr p clock_calls(10)[OF assms(1) p] by (simp add: list_running_def Let_def)
qed

lemma Info_clock:
  assumes "timed_kube clock deadline K log"
  shows "clock w < clock (snd (Info K d w))"
proof -
  obtain r w1 where g: "k_depl_get K (d_name (kd_deployment d)) w = (r, w1)" by fastforce
  have w1: "clock w < clock w1" using clock_strict(1)[OF assms g] .
  show ?thesis
  proof (cases r)
    case (Inr depl)
    obtain rl w2 where l: "list_running K depl w1 = (rl, w2)" by fastforce
    show ?thesis using g w1 Inr l list_running_clock[OF assms l] by (cases rl) (simp_all add: Info_def)
  qed (simp add: Info_def g w1)
qed

lemma Clients_clock:
  assumes "timed_kube clock deadline K log"
  shows "clock w \<le> clock (snd (Clients K ce d w))"
proof -
  have choose: "clock w \<le> clock (snd (ChoosePod K ce c w))" for c
  proof (cases c)
    case (Some c')
    obtain r w1 where l: "list_running K (chooser_deployment c') w = (r, w1)" by fastforce
    then show ?thesis using Some list_running_clock[OF assms l]
      by (cases c'; cases r) (simp_all add: ChoosePod_def chooser_deployment_def)
  qed (simp add: ChoosePod_def)
  obtain r w1 where "ChoosePod K ce (kd_chooser d) w = (r, w1)" by fastforce
  then show ?thesis using choose[of "kd_chooser d"]
    by (auto simp: Clients_def split: sum.splits prod.splits)
qed

lemma timed_kubernetes_driver:
  assumes "timed_kube clock deadline K log" and "\<And>(s :: solve_status) d w. clock w \<le> clock (snd (l s (d, w)))"
  shows "timed_driver (\<lambda>(d, w). clock w) l (kubernetes_driver K fe ce)"
proof -
  have "clock w < clock (snd (snd (dr_Info (kubernetes_driver K fe ce) (d, w))))" for d w
    using Info_clock[OF assms(1), of w d] by (simp add: kubernetes_driver_def on_env_def split_def Let_def)
  moreover have "clock w \<le> clock (snd (snd (dr_Clients (kubernetes_driver K fe ce) (d, w))))" for d w
    using Clients_clock[OF assms(1), of w ce d] by (simp add: kubernetes_driver_def on_env_def split_def Let_def)
  moreover have "clock w \<le> clock (snd (snd (dr_Bootstrap (kubernetes_driver K fe ce) l (d, w))))" for d w
    using Bootstrap_returns[OF assms(1), of "\<lambda>s w. snd (l s (d, w))" fe d w] assms(2)
    by (auto simp: kubernetes_driver_def)
  ultimately show ?thesis by (simp add: timed_driver_def split_def)
qed

lemma Clients_Ok:
  assumes "distinct_pods K" and "ce_index_first ce" and "Clients K ce d w = (Ok cs, w')"
  shows "\<exists>c pods. kd_chooser d = Some c \<and> list_running K (chooser_deployment c) w = (Ok pods, w') \<and>
    mset (map nc_name (bc_chosen cs # bc_others cs)) = mset (map p_name pods) \<and>
    list_all (\<lambda>nc. x_pod (nc_client nc) = nc_name nc \<and> x_cmd (nc_client nc) = [''buildctl'', ''dial-stdio''])
       (bc_chosen cs # bc_others cs)"
proof -
  obtain r w1 where choose: "ChoosePod K ce (kd_chooser d) w = (r, w1)" by fastforce
  then obtain p others chosen ncs where r: "r = Ok (p, others)" "w1 = w'"
    "buildNodeClient K (Some p) = Ok chosen" "map_res (buildNodeClient K) others = Ok ncs"
    "cs = \<lparr>bc_chosen = chosen, bc_others = ncs\<rparr>"
    using assms(3) by (auto simp: Clients_def and_then_Inr_iff split: sum.splits if_splits)
  obtain c where c: "kd_chooser d = Some c"
    using choose r(1) by (cases "kd_chooser d") (auto simp: ChoosePod_def)
  from choose r(1,2) c have "ChoosePod K ce (Some c) w = (Ok (p, others), w')" by simp
  with assms(1,2) obtain pods os where
    pods: "list_running K (chooser_deployment c) w = (Ok pods, w')" "others = map Some os"
      "mset (p # os) = mset pods" by (rule ChoosePod_split)
  note ncs = map_res_buildNodeClient[of K os ncs] r(4)[unfolded pods(2)]
  have "nc_name chosen = p_name p" "x_pod (nc_client chosen) = p_name p"
    "x_cmd (nc_client chosen) = [''buildctl'', ''dial-stdio'']"
    using r(3) by (auto simp: buildNodeClient_Ok Let_def)
  moreover have "mset (p_name p # map p_name os) = mset (map p_name pods)"
    using arg_cong[OF pods(3), of "image_mset p_name"] by simp
  ultimately show ?thesis using c pods(1) ncs r(5) by auto
qed

section \<open>Properties\<close>


definition example_chooser :: "(nat \<times> (string \<rightharpoonup> config_map)) chooser_env" where
  "example_chooser = \<lparr>ce_md5 = (\<lambda>_. [1, 2, 3, 4]), ce_index_first = True, ce_random = fst\<rparr>"


text \<open>
  The proxy to the container runtime talks to the named pod only, through its first
  container, and always to one of the two default socket paths, chosen by the pod's own
  runtime label: the socket path that the builder was created with is not used.
\<close>

theorem RuntimeSockProxy_target:
  assumes "RuntimeSockProxy K d name w = (Ok conn, w')"
  shows "\<exists>pods p c cs sock. list_running K (kd_deployment d) w = (Ok pods, w') \<and> p \<in> set pods \<and> p_name p = name \<and>
    p_containers p = c # cs \<and>
    (lookup_str (p_labels p) ''runtime'', sock) \<in> set [(''containerd'', DefaultContainerdSockPath), (''docker'', DefaultDockerSockPath)] \<and>
    kn_target conn = \<lparr>x_namespace = p_namespace p, x_pod = name, x_container = c,
      x_cmd = [''buildctl'', ''--addr'', ''unix://'' @ sock, ''dial-stdio'']\<rparr>"
proof -
  obtain r w1 where run: "list_running K (kd_deployment d) w = (r, w1)" by fastforce
  then obtain pods where pods: "r = Ok pods" "w1 = w'"
    using assms by (auto simp: RuntimeSockProxy_def split: sum.splits)
  obtain p rest where p: "filter (\<lambda>p. p_name p = name) pods = p # rest"
    using assms run pods by (cases "filter (\<lambda>p. p_name p = name) pods") (auto simp: RuntimeSockProxy_def split: sum.splits)
  then have "p \<in> set (filter (\<lambda>p. p_name p = name) pods)" by simp
  then have in_pods: "p \<in> set pods" "p_name p = name" by simp_all
  obtain c cs where c: "p_containers p = c # cs"
    using assms run pods p by (cases "p_containers p") (auto simp: RuntimeSockProxy_def split: sum.splits)
  show ?thesis
    using assms run pods p in_pods c
    by (auto simp: RuntimeSockProxy_def ExecConn_def new_conn_def Let_def and_then_Inr_iff split: sum.splits if_splits)
qed

definition docker_pod_kube :: "(nat \<times> (string \<rightharpoonup> config_map)) kube" where
  "docker_pod_kube = (example_kube 100)
     \<lparr>k_pod_list := \<lambda>s w. (Ok [(example_pod ''a'')\<lparr>p_labels := [''runtime'' \<mapsto> ''docker'']\<rparr>], w)\<rparr>"

theorem RuntimeSockProxy_target_example:
  "\<exists>conn w'. RuntimeSockProxy docker_pod_kube example_driver ''a'' (0, Map.empty) = (Ok conn, w') \<and>
     x_pod (kn_target conn) = ''a''"
proof -
  obtain conn w' where run: "RuntimeSockProxy docker_pod_kube example_driver ''a'' (0, Map.empty) = (Ok conn, w')"
    by (simp add: RuntimeSockProxy_def list_running_def docker_pod_kube_def example_kube_def example_driver_def
        example_pod_def ExecConn_def no_deployment_def lookup_str_def ListRunningPods_def RuntimeSockProxy_def Let_def)
  from RuntimeSockProxy_target[OF run] run show ?thesis by auto
qed

end
