(* ===== verification/MultiWriter.thy ===== *)
theory MultiWriter
  imports Progress
begin

text \<open>
  Many writers on one display: \<open>pkg/progress/multiwriter.go\<close>. Each call of \<open>WithPrefix\<close> makes a
  channel and a goroutine that forwards its reports; the goroutine of \<open>NewMultiWriter\<close> closes
  the display's channel when all of them have returned. The channels have no buffer: a
  report is handed from the sender to the forwarder, and from the forwarder to the display.

  The goroutines are a step relation: an event is one step of one of them, and a run is any
  sequence of events.
\<close>

section \<open>State\<close>

text \<open>A forwarder has not run yet, waits in its \<open>select\<close>, holds a report that it sends to the
  display, or has returned.\<close>

datatype phase = Spawned | Waiting | Holding solve_status | Returned

record prefixed =
  px_prefix :: string
  px_force :: bool
  px_open :: bool
  px_phase :: phase

text \<open>The goroutine of \<open>NewMultiWriter\<close>.\<close>

datatype closer = WaitReady | WaitGroup | Closing | Closed

text \<open>\<open>mw_out\<close> is what the display has received, with the writer it came from; \<open>mw_done\<close> says that
  the display has ended and reads no more.\<close>

record multi_writer =
  mw_ready :: bool
  mw_closer :: closer
  mw_writers :: "prefixed list"
  mw_out :: "(nat \<times> solve_status) list"
  mw_done :: bool
  mw_panic :: bool

definition NewMultiWriter :: multi_writer where
  "NewMultiWriter =
     \<lparr>mw_ready = False, mw_closer = WaitReady, mw_writers = [], mw_out = [], mw_done = False, mw_panic = False\<rparr>"

section \<open>Steps\<close>

datatype mw_event =
    WithPrefix string bool
  | Start nat
  | Receive nat solve_status
  | Forward nat
  | CloseIn nat
  | Return nat
  | Abort nat
  | Closer
  | DisplayDone

definition set_phase :: "nat \<Rightarrow> phase \<Rightarrow> multi_writer \<Rightarrow> multi_writer" where
  "set_phase i ph s = s\<lparr>mw_writers := (mw_writers s)[i := (mw_writers s ! i)\<lparr>px_phase := ph\<rparr>]\<rparr>"

text \<open>Sending on a closed channel is a panic. A send to a display that has ended waits for ever:
  there is no step for it.\<close>

inductive mw_step :: "mw_event \<Rightarrow> multi_writer \<Rightarrow> multi_writer \<Rightarrow> bool" where
  with_prefix:
    "mw_step (WithPrefix pfx force) s
       (s\<lparr>mw_writers := mw_writers s @ [\<lparr>px_prefix = pfx, px_force = force, px_open = True, px_phase = Spawned\<rparr>]\<rparr>)"
| start:
    "i < length (mw_writers s) \<Longrightarrow> px_phase (mw_writers s ! i) = Spawned \<Longrightarrow>
     mw_step (Start i) s (set_phase i Waiting (s\<lparr>mw_ready := True\<rparr>))"
| receive:
    "i < length (mw_writers s) \<Longrightarrow> px_phase (mw_writers s ! i) = Waiting \<Longrightarrow> px_open (mw_writers s ! i) \<Longrightarrow>
     mw_step (Receive i v) s
       (set_phase i (Holding (forward (px_prefix (mw_writers s ! i)) (px_force (mw_writers s ! i)) v)) s)"
| forward_out:
    "i < length (mw_writers s) \<Longrightarrow> px_phase (mw_writers s ! i) = Holding v \<Longrightarrow> mw_closer s \<noteq> Closed \<Longrightarrow> \<not> mw_done s \<Longrightarrow>
     mw_step (Forward i) s (set_phase i Waiting (s\<lparr>mw_out := mw_out s @ [(i, v)]\<rparr>))"
| forward_closed:
    "i < length (mw_writers s) \<Longrightarrow> px_phase (mw_writers s ! i) = Holding v \<Longrightarrow> mw_closer s = Closed \<Longrightarrow>
     mw_step (Forward i) s (s\<lparr>mw_panic := True\<rparr>)"
| close_in:
    "i < length (mw_writers s) \<Longrightarrow> px_open (mw_writers s ! i) \<Longrightarrow>
     mw_step (CloseIn i) s (s\<lparr>mw_writers := (mw_writers s)[i := (mw_writers s ! i)\<lparr>px_open := False\<rparr>]\<rparr>)"
| return_in:
    "i < length (mw_writers s) \<Longrightarrow> px_phase (mw_writers s ! i) = Waiting \<Longrightarrow> \<not> px_open (mw_writers s ! i) \<Longrightarrow>
     mw_step (Return i) s (set_phase i Returned s)"
| abort:
    "i < length (mw_writers s) \<Longrightarrow> px_phase (mw_writers s ! i) = Waiting \<Longrightarrow> mw_done s \<Longrightarrow>
     mw_step (Abort i) s (set_phase i Returned s)"
| ready:
    "mw_closer s = WaitReady \<Longrightarrow> mw_ready s \<Longrightarrow> mw_step Closer s (s\<lparr>mw_closer := WaitGroup\<rparr>)"
| waited:
    "mw_closer s = WaitGroup \<Longrightarrow> \<forall>p \<in> set (mw_writers s). px_phase p = Returned \<Longrightarrow>
     mw_step Closer s (s\<lparr>mw_closer := Closing\<rparr>)"
| close_out:
    "mw_closer s = Closing \<Longrightarrow> mw_step Closer s (s\<lparr>mw_closer := Closed\<rparr>)"
| display_done:
    "mw_step DisplayDone s (s\<lparr>mw_done := True\<rparr>)"

inductive_cases mw_step_cases [consumes 1, case_names with_prefix start receive forward_out forward_closed close_in return_in abort
    ready waited close_out display_done]: "mw_step e s s'"

inductive mw_run :: "mw_event list \<Rightarrow> multi_writer \<Rightarrow> bool" where
  run_new: "mw_run [] NewMultiWriter"
| run_step: "mw_run es s \<Longrightarrow> mw_step e s s' \<Longrightarrow> mw_run (es @ [e]) s'"

section \<open>Lemmas\<close>

lemma set_phase_sel [simp]:
  "length (mw_writers (set_phase i ph s)) = length (mw_writers s)" "mw_closer (set_phase i ph s) = mw_closer s"
  "mw_ready (set_phase i ph s) = mw_ready s" "mw_out (set_phase i ph s) = mw_out s"
  "mw_done (set_phase i ph s) = mw_done s" "mw_panic (set_phase i ph s) = mw_panic s"
  "i < length (mw_writers s) \<Longrightarrow> mw_writers (set_phase i ph s) ! j =
     (if j = i then (mw_writers s ! i)\<lparr>px_phase := ph\<rparr> else mw_writers s ! j)"
  by (simp_all add: set_phase_def nth_list_update)

text \<open>The writers made and closed so far.\<close>

fun made :: "mw_event list \<Rightarrow> nat" where
  "made [] = 0"
| "made (e # es) = (case e of WithPrefix _ _ \<Rightarrow> Suc (made es) | _ \<Rightarrow> made es)"

fun shut :: "mw_event list \<Rightarrow> nat" where
  "shut [] = 0"
| "shut (e # es) = (case e of CloseIn _ \<Rightarrow> Suc (shut es) | _ \<Rightarrow> shut es)"

lemma made_snoc: "made (es @ [e]) = made es + (case e of WithPrefix _ _ \<Rightarrow> 1 | _ \<Rightarrow> 0)"
  by (induction es) (auto split: mw_event.splits)

lemma shut_snoc: "shut (es @ [e]) = shut es + (case e of CloseIn _ \<Rightarrow> 1 | _ \<Rightarrow> 0)"
  by (induction es) (auto split: mw_event.splits)

definition open_writers :: "multi_writer \<Rightarrow> nat set" where
  "open_writers s = {i. i < length (mw_writers s) \<and> px_open (mw_writers s ! i)}"

lemma finite_open_writers [simp]: "finite (open_writers s)"
  by (simp add: open_writers_def)

lemma open_writers_set_phase [simp]: "i < length (mw_writers s) \<Longrightarrow> open_writers (set_phase i ph s) = open_writers s"
  by (auto simp: open_writers_def)

lemma open_writers_update [simp]:
  "open_writers (s\<lparr>mw_ready := b\<rparr>) = open_writers s" "open_writers (s\<lparr>mw_closer := c\<rparr>) = open_writers s"
  "open_writers (s\<lparr>mw_out := vs\<rparr>) = open_writers s" "open_writers (s\<lparr>mw_done := b\<rparr>) = open_writers s"
  "open_writers (s\<lparr>mw_panic := b\<rparr>) = open_writers s"
  by (simp_all add: open_writers_def)

lemma mw_run_counts: "mw_run es s \<Longrightarrow> length (mw_writers s) = made es \<and> card (open_writers s) + shut es = made es"
proof (induction rule: mw_run.induct)
  case run_new
  then show ?case by (simp add: NewMultiWriter_def open_writers_def)
next
  case (run_step es s e s')
  from run_step.hyps(2) show ?case
  proof (cases rule: mw_step_cases)
    case (with_prefix pfx force)
    then have "open_writers s' = insert (length (mw_writers s)) (open_writers s)"
      by (auto simp: open_writers_def nth_append less_Suc_eq)
    moreover have "length (mw_writers s) \<notin> open_writers s" by (simp add: open_writers_def)
    ultimately show ?thesis using run_step.IH with_prefix by (simp add: made_snoc shut_snoc)
  next
    case (close_in i)
    then have "open_writers s' = open_writers s - {i}" "i \<in> open_writers s"
      by (auto simp: open_writers_def nth_list_update split: if_splits)
    moreover have "0 < card (open_writers s)" using calculation(2) by (auto simp: card_gt_0_iff)
    ultimately show ?thesis using run_step.IH close_in by (simp add: made_snoc shut_snoc)
  qed (use run_step.IH in \<open>auto simp: made_snoc shut_snoc\<close>)
qed

text \<open>Whenever a writer is made after the first one, another is still open.\<close>

fun kept_open :: "nat \<Rightarrow> nat \<Rightarrow> mw_event list \<Rightarrow> bool" where
  "kept_open m c [] \<longleftrightarrow> True"
| "kept_open m c (e # es) \<longleftrightarrow>
     (case e of
        WithPrefix _ _ \<Rightarrow> (m = 0 \<or> c < m) \<and> kept_open (Suc m) c es
      | CloseIn _ \<Rightarrow> kept_open m (Suc c) es
      | _ \<Rightarrow> kept_open m c es)"

lemma kept_open_snoc:
  "kept_open m c (es @ [e]) \<longleftrightarrow>
     kept_open m c es \<and> (case e of WithPrefix _ _ \<Rightarrow> m + made es = 0 \<or> c + shut es < m + made es | _ \<Rightarrow> True)"
  by (induction es arbitrary: m c) (auto split: mw_event.splits)

text \<open>While the display goes on.\<close>

definition orderly :: "multi_writer \<Rightarrow> bool" where
  "orderly s \<longleftrightarrow>
     (mw_ready s \<longrightarrow> mw_writers s \<noteq> []) \<and> (mw_closer s \<noteq> WaitReady \<longrightarrow> mw_ready s) \<and>
     (\<forall>p \<in> set (mw_writers s). (px_phase p = Returned \<longrightarrow> \<not> px_open p) \<and> (px_phase p \<noteq> Spawned \<longrightarrow> mw_ready s)) \<and>
     (mw_closer s \<in> {Closing, Closed} \<longrightarrow> (\<forall>p \<in> set (mw_writers s). px_phase p = Returned)) \<and> \<not> mw_panic s"

lemma set_phase_set: "i < length (mw_writers s) \<Longrightarrow>
    set (mw_writers (set_phase i ph s)) \<subseteq> insert ((mw_writers s ! i)\<lparr>px_phase := ph\<rparr>) (set (mw_writers s))"
  by (simp add: set_phase_def set_update_subset_insert)

lemma orderly_step:
  assumes "orderly s" and "mw_step e s s'" and "\<not> mw_done s"
    and "(\<exists>pfx force. e = WithPrefix pfx force) \<longrightarrow> mw_writers s = [] \<or> open_writers s \<noteq> {}"
  shows "orderly s'"
proof -
  have phase: "orderly (set_phase i ph t)"
    if "orderly t" "i < length (mw_writers t)" "px_phase (mw_writers t ! i) \<noteq> Returned" "ph = Returned \<Longrightarrow> \<not> px_open (mw_writers t ! i)" "mw_ready t" for i ph t
  proof -
    have "mw_writers t ! i \<in> set (mw_writers t)" using that(2) by simp
    then have "mw_closer t \<notin> {Closing, Closed}" using that(1,3) unfolding orderly_def by blast
    then show ?thesis
      using that set_phase_set[OF that(2), of ph] unfolding orderly_def set_phase_sel
      by (auto simp: set_phase_def)
  qed
  from assms(2) show ?thesis
  proof (cases rule: mw_step_cases)
    case (with_prefix pfx force)
    from assms(4) with_prefix(1) have "mw_writers s = [] \<or> open_writers s \<noteq> {}" by blast
    then have "mw_closer s \<notin> {Closing, Closed}"
    proof
      assume "mw_writers s = []"
      then show ?thesis using assms(1) by (auto simp: orderly_def)
    next
      assume "open_writers s \<noteq> {}"
      then obtain p where "p \<in> set (mw_writers s)" "px_open p" by (fastforce simp: open_writers_def)
      then show ?thesis using assms(1) unfolding orderly_def by blast
    qed
    then show ?thesis using assms(1) with_prefix(2) by (auto simp: orderly_def)
  next
    case (start i)
    have "orderly (s\<lparr>mw_ready := True\<rparr>)" using assms(1) start(3) by (auto simp: orderly_def)
    then show ?thesis unfolding start(2) by (rule phase) (use start in auto)
  next
    case (receive i v)
    moreover have "mw_writers s ! i \<in> set (mw_writers s)" using receive(3) by simp
    ultimately have "mw_ready s" using assms(1) unfolding orderly_def by (metis phase.distinct(1))
    then show ?thesis using receive assms(1) by (auto intro: phase)
  next
    case (forward_out i v)
    have "orderly (s\<lparr>mw_out := mw_out s @ [(i, v)]\<rparr>)" using assms(1) by (simp add: orderly_def)
    moreover have "mw_writers s ! i \<in> set (mw_writers s)" using forward_out(3) by simp
    then have "mw_ready s" using assms(1) forward_out(4) unfolding orderly_def by (metis phase.distinct(3))
    ultimately show ?thesis unfolding forward_out(2) by (intro phase) (use forward_out in auto)
  next
    case (forward_closed i v)
    then have "mw_writers s ! i \<in> set (mw_writers s)" "px_phase (mw_writers s ! i) \<noteq> Returned" by auto
    then show ?thesis using assms(1) forward_closed(5) unfolding orderly_def by blast
  next
    case (close_in i)
    have sub: "set (mw_writers s') \<subseteq> insert ((mw_writers s ! i)\<lparr>px_open := False\<rparr>) (set (mw_writers s))"
      unfolding close_in(2) by (simp add: set_update_subset_insert)
    have "\<exists>q \<in> set (mw_writers s). px_phase p = px_phase q \<and> (px_open p \<longrightarrow> px_open q)" if "p \<in> set (mw_writers s')" for p
    proof (cases "p \<in> set (mw_writers s)")
      case False
      then have "p = (mw_writers s ! i)\<lparr>px_open := False\<rparr>" using sub that by blast
      then show ?thesis using close_in(3) by (intro bexI[of _ "mw_writers s ! i"]) auto
    qed blast
    moreover have "mw_writers s' = [] \<longleftrightarrow> mw_writers s = []" "mw_ready s' = mw_ready s" "mw_closer s' = mw_closer s" "mw_panic s' = mw_panic s"
      by (auto simp: close_in(2))
    ultimately show ?thesis using assms(1) unfolding orderly_def by metis
  next
    case (return_in i)
    moreover have "mw_writers s ! i \<in> set (mw_writers s)" using return_in(3) by simp
    ultimately have "mw_ready s" using assms(1) unfolding orderly_def by (metis phase.distinct(1))
    then show ?thesis using return_in assms(1) by (auto intro: phase)
  next
    case (abort i)
    then show ?thesis using assms(3) by simp
  qed (use assms(1) in \<open>auto simp: orderly_def\<close>)
qed

lemma mw_run_orderly:
  assumes "mw_run es s" and "DisplayDone \<notin> set es" and "kept_open 0 0 es"
  shows "orderly s \<and> \<not> mw_done s"
  using assms
proof (induction rule: mw_run.induct)
  case run_new
  then show ?case by (simp add: NewMultiWriter_def orderly_def)
next
  case (run_step es s e s')
  then have s: "orderly s" "\<not> mw_done s" by (auto simp: kept_open_snoc)
  have "(\<exists>pfx force. e = WithPrefix pfx force) \<longrightarrow> mw_writers s = [] \<or> open_writers s \<noteq> {}"
    using run_step.prems mw_run_counts[OF run_step.hyps(1)] by (auto simp: kept_open_snoc)
  from orderly_step[OF s(1) run_step.hyps(2) s(2) this] have "orderly s'" by blast
  moreover have "\<not> mw_done s'"
    using run_step.hyps(2) s(2) run_step.prems(1) by (cases rule: mw_step_cases) auto
  ultimately show ?case ..
qed

section \<open>Order\<close>

text \<open>What was sent to writer \<open>i\<close>, what the display has seen of it, and what its forwarder holds.\<close>

definition sent_to :: "nat \<Rightarrow> mw_event list \<Rightarrow> solve_status list" where
  "sent_to i es = List.map_filter (\<lambda>e. case e of Receive j v \<Rightarrow> if j = i then Some v else None | _ \<Rightarrow> None) es"

definition shown :: "nat \<Rightarrow> multi_writer \<Rightarrow> solve_status list" where
  "shown i s = map snd (filter (\<lambda>(j, _). j = i) (mw_out s))"

definition held :: "nat \<Rightarrow> multi_writer \<Rightarrow> solve_status list" where
  "held i s = (case px_phase (mw_writers s ! i) of Holding v \<Rightarrow> [v] | _ \<Rightarrow> [])"

definition prefixed_by :: "nat \<Rightarrow> multi_writer \<Rightarrow> solve_status \<Rightarrow> solve_status" where
  "prefixed_by i s = forward (px_prefix (mw_writers s ! i)) (px_force (mw_writers s ! i))"

lemma sent_to_snoc: "sent_to i (es @ [e]) = sent_to i es @ (case e of Receive j v \<Rightarrow> if j = i then [v] else [] | _ \<Rightarrow> [])"
  by (auto simp: sent_to_def List.map_filter_def split: mw_event.splits)

definition in_order :: "mw_event list \<Rightarrow> multi_writer \<Rightarrow> bool" where
  "in_order es s \<longleftrightarrow>
     (\<forall>i < length (mw_writers s). shown i s @ held i s = map (prefixed_by i s) (sent_to i es)) \<and>
     (\<forall>i \<ge> length (mw_writers s). sent_to i es = [] \<and> shown i s = [])"

lemma in_order_same:
  assumes "in_order es s" and "\<And>i. sent_to i es' = sent_to i es"
    and "length (mw_writers s') = length (mw_writers s)" and "\<And>i. i < length (mw_writers s) \<Longrightarrow> held i s' = held i s \<and> prefixed_by i s' = prefixed_by i s"
    and "mw_out s' = mw_out s"
  shows "in_order es' s'"
  using assms by (auto simp: in_order_def shown_def)

lemma in_order_step:
  assumes "in_order es s" and "mw_step e s s'"
  shows "in_order (es @ [e]) s'"
  using assms(2)
proof (cases rule: mw_step_cases)
  case (with_prefix pfx force)
  let ?n = "length (mw_writers s)"
  have old: "held i s' = held i s" "prefixed_by i s' = prefixed_by i s" if "i < ?n" for i
    using that by (simp_all add: with_prefix(2) held_def prefixed_by_def nth_append)
  have "held ?n s' = []" by (simp add: with_prefix(2) held_def)
  moreover have "shown i s' = shown i s" "sent_to i (es @ [e]) = sent_to i es" for i
    by (simp_all add: with_prefix shown_def sent_to_snoc)
  ultimately show ?thesis
    using assms(1) old by (auto simp: in_order_def with_prefix(2) less_Suc_eq)
next
  case (receive i v)
  have held: "held j s' = (if j = i then [prefixed_by i s v] else held j s)" for j
    using receive(3) by (simp add: receive(2) held_def prefixed_by_def)
  have len: "length (mw_writers s') = length (mw_writers s)" by (simp add: receive(2))
  have "held i s = []" using receive(4) by (simp add: held_def)
  moreover have "prefixed_by j s' = prefixed_by j s" "shown j s' = shown j s" for j
    using receive(3) by (simp_all add: receive(2) prefixed_by_def shown_def)
  ultimately show ?thesis
    using assms(1) receive(1,3) held by (auto simp: in_order_def sent_to_snoc len)
next
  case (forward_out i v)
  have held: "held j s' = (if j = i then [] else held j s)" for j
    using forward_out(3) by (simp add: forward_out(2) held_def)
  have len: "length (mw_writers s') = length (mw_writers s)" by (simp add: forward_out(2))
  have "held i s = [v]" using forward_out(4) by (simp add: held_def)
  moreover have "prefixed_by j s' = prefixed_by j s" "shown j s' = shown j s @ (if j = i then [v] else [])" for j
    using forward_out(3) by (simp_all add: forward_out(2) prefixed_by_def shown_def)
  ultimately show ?thesis
    using assms(1) forward_out(1,3) held by (auto simp: in_order_def sent_to_snoc len)
next
  case (start i)
  then show ?thesis
    by (intro in_order_same[OF assms(1)]) (auto simp: sent_to_snoc held_def prefixed_by_def)
next
  case (close_in i)
  then show ?thesis
    by (intro in_order_same[OF assms(1)]) (auto simp: sent_to_snoc held_def prefixed_by_def nth_list_update)
next
  case (return_in i)
  then show ?thesis
    by (intro in_order_same[OF assms(1)]) (auto simp: sent_to_snoc held_def prefixed_by_def)
next
  case (abort i)
  then show ?thesis
    by (intro in_order_same[OF assms(1)]) (auto simp: sent_to_snoc held_def prefixed_by_def)
qed (intro in_order_same[OF assms(1)]; simp add: sent_to_snoc held_def prefixed_by_def)+

lemma mw_run_in_order: "mw_run es s \<Longrightarrow> in_order es s"
proof (induction rule: mw_run.induct)
  case run_new
  then show ?case by (simp add: in_order_def NewMultiWriter_def sent_to_def shown_def List.map_filter_simps)
next
  case (run_step es s e s')
  from in_order_step[OF run_step.IH run_step.hyps(2)] show ?case .
qed

section \<open>Progress\<close>

definition phase_work :: "phase \<Rightarrow> nat" where
  "phase_work ph = (case ph of Spawned \<Rightarrow> 2 | Waiting \<Rightarrow> 1 | Holding _ \<Rightarrow> 2 | Returned \<Rightarrow> 0)"

definition closer_work :: "closer \<Rightarrow> nat" where
  "closer_work c = (case c of WaitReady \<Rightarrow> 3 | WaitGroup \<Rightarrow> 2 | Closing \<Rightarrow> 1 | Closed \<Rightarrow> 0)"

definition work :: "multi_writer \<Rightarrow> nat" where
  "work s = sum_list (map (phase_work \<circ> px_phase) (mw_writers s)) + closer_work (mw_closer s)"

lemma work_set_phase:
  assumes "i < length (mw_writers s)" and "phase_work ph < phase_work (px_phase (mw_writers s ! i))"
  shows "work (set_phase i ph s) < work s"
proof -
  let ?f = "phase_work \<circ> px_phase"
  have le: "?f (mw_writers s ! i) \<le> sum_list (map ?f (mw_writers s))"
    using assms(1) elem_le_sum_list[of i "map ?f (mw_writers s)"] by simp
  have "sum_list (map ?f (mw_writers (set_phase i ph s))) =
      sum_list (map ?f (mw_writers s)) + phase_work ph - ?f (mw_writers s ! i)"
    using assms(1) by (simp add: set_phase_def map_update sum_list_update)
  then show ?thesis using le assms by (simp add: work_def)
qed

lemma work_update [simp]:
  "work (s\<lparr>mw_ready := b\<rparr>) = work s" "work (s\<lparr>mw_out := vs\<rparr>) = work s"
  by (simp_all add: work_def)

text \<open>All the writers are closed, and the display goes on.\<close>

definition winding_down :: "multi_writer \<Rightarrow> bool" where
  "winding_down s \<longleftrightarrow> orderly s \<and> \<not> mw_done s \<and> open_writers s = {} \<and> mw_writers s \<noteq> []"

fun internal :: "mw_event \<Rightarrow> bool" where
  "internal (Start i) \<longleftrightarrow> True"
| "internal (Forward i) \<longleftrightarrow> True"
| "internal (Return i) \<longleftrightarrow> True"
| "internal Closer \<longleftrightarrow> True"
| "internal _ \<longleftrightarrow> False"

lemma winding_down_step:
  assumes "winding_down s" and "mw_step e s s'" and "internal e"
  shows "winding_down s' \<and> work s' < work s"
proof -
  have "orderly s'"
    using assms unfolding winding_down_def by (intro orderly_step[of s e s']) auto
  have ph: "px_phase p = ph \<Longrightarrow> p \<in> set (mw_writers s) \<Longrightarrow> ph \<noteq> Spawned \<Longrightarrow> mw_ready s" for p ph
    using assms(1) unfolding winding_down_def orderly_def by blast
  from assms(2) have "\<not> mw_done s' \<and> open_writers s' = {} \<and> mw_writers s' \<noteq> [] \<and> work s' < work s"
  proof (cases rule: mw_step_cases)
    case (start i)
    have "work s' < work (s\<lparr>mw_ready := True\<rparr>)"
      unfolding start(2) by (rule work_set_phase) (use start in \<open>simp_all add: phase_work_def\<close>)
    moreover have "open_writers s' = {}" using assms(1) start by (simp add: winding_down_def)
    ultimately show ?thesis using assms(1) start(2) by (auto simp: winding_down_def set_phase_def)
  next
    case (forward_out i v)
    have "work s' < work (s\<lparr>mw_out := mw_out s @ [(i, v)]\<rparr>)"
      unfolding forward_out(2) by (rule work_set_phase) (use forward_out in \<open>simp_all add: phase_work_def\<close>)
    moreover have "open_writers s' = {}" using assms(1) forward_out by (simp add: winding_down_def)
    ultimately show ?thesis using assms(1) forward_out(2) by (auto simp: winding_down_def set_phase_def)
  next
    case (forward_closed i v)
    then have "mw_writers s ! i \<in> set (mw_writers s)" by simp
    then have False using assms(1) forward_closed(4,5) unfolding winding_down_def orderly_def by auto
    then show ?thesis ..
  next
    case (return_in i)
    have "work s' < work s"
      unfolding return_in(2) by (rule work_set_phase) (use return_in in \<open>simp_all add: phase_work_def\<close>)
    moreover have "open_writers s' = {}" using assms(1) return_in by (simp add: winding_down_def)
    ultimately show ?thesis using assms(1) return_in(2) by (auto simp: winding_down_def set_phase_def)
  qed (use assms(1,3) in \<open>auto simp: winding_down_def work_def closer_work_def\<close>)
  with \<open>orderly s'\<close> show ?thesis by (simp add: winding_down_def)
qed

lemma winding_down_progress:
  assumes "winding_down s" and "mw_closer s \<noteq> Closed"
  shows "\<exists>e s'. mw_step e s s' \<and> internal e"
proof (cases "\<forall>p \<in> set (mw_writers s). px_phase p = Returned")
  case True
  obtain p where "p \<in> set (mw_writers s)" using assms(1) by (cases "mw_writers s") (auto simp: winding_down_def)
  then have "mw_ready s" using True assms(1) unfolding winding_down_def orderly_def by auto
  then have "\<exists>s'. mw_step Closer s s'"
    using assms(2) True by (cases "mw_closer s") (auto intro: ready waited close_out)
  then show ?thesis by (metis internal.simps(4))
next
  case False
  then obtain i where i: "i < length (mw_writers s)" "px_phase (mw_writers s ! i) \<noteq> Returned" by (auto simp: in_set_conv_nth)
  have "\<not> px_open (mw_writers s ! i)" "\<not> mw_done s" using assms(1) i(1) by (auto simp: winding_down_def open_writers_def)
  then show ?thesis
    using i assms(2) by (cases "px_phase (mw_writers s ! i)")
      (metis start internal.simps(1), metis return_in internal.simps(3), metis forward_out internal.simps(2), simp)
qed

lemma winding_down_closes:
  assumes "winding_down s" and "mw_run es s"
  shows "\<exists>us s'. mw_run (es @ us) s' \<and> list_all internal us \<and> winding_down s' \<and> mw_closer s' = Closed"
  using assms
proof (induction "work s" arbitrary: s es rule: less_induct)
  case less
  show ?case
  proof (cases "mw_closer s = Closed")
    case True
    then show ?thesis using less.prems by (intro exI[of _ "[]"] exI[of _ s]) simp
  next
    case False
    then obtain e s1 where e: "mw_step e s s1" "internal e" using winding_down_progress[OF less.prems(1)] by blast
    note s1 = winding_down_step[OF less.prems(1) e]
    from less.hyps[of s1 "es @ [e]"] s1 run_step[OF less.prems(2) e(1)] obtain us s' where
      "mw_run ((es @ [e]) @ us) s'" "list_all internal us" "winding_down s'" "mw_closer s' = Closed" by blast
    then show ?thesis using e(2) by (intro exI[of _ "e # us"] exI[of _ s']) simp
  qed
qed

lemma sent_to_internal: "list_all internal us \<Longrightarrow> sent_to i (es @ us) = sent_to i es"
proof (induction us rule: rev_induct)
  case (snoc e us)
  then show ?case using sent_to_snoc[of i "es @ us" e] by (cases e) auto
qed simp

lemma held_returned: "px_phase (mw_writers s ! i) = Returned \<Longrightarrow> held i s = []"
  by (simp add: held_def)

section \<open>Properties\<close>

text \<open>
  C22: In every run, whatever the order in which the goroutines get on, the display sees the
  reports of each writer in the order in which they were sent, each once and under the
  writer's prefix; what it has not seen yet is at most one report that the forwarder holds.
\<close>

theorem multi_writer_order:
  assumes "mw_run es s" and "i < length (mw_writers s)"
  shows "\<exists>rest. map (prefixed_by i s) (sent_to i es) = shown i s @ rest \<and> length rest \<le> 1"
  using mw_run_in_order[OF assms(1)] assms(2)
  by (intro exI[of _ "held i s"]) (auto simp: in_order_def held_def split: phase.splits)

text \<open>
  C21: As long as a writer is made only while another is open (or as the first), and the
  display does not end, no report is sent on a closed channel. Once all the writers are
  closed, the goroutines can always go on until the display's channel is closed, and when it
  is, the display has seen everything.
\<close>

theorem multi_writer_closes:
  assumes "mw_run es s" and "DisplayDone \<notin> set es" and "kept_open 0 0 es"
  shows "\<not> mw_panic s \<and>
    (made es \<noteq> 0 \<and> shut es = made es \<longrightarrow>
       (\<exists>us s'. mw_run (es @ us) s' \<and> list_all internal us \<and> mw_closer s' = Closed \<and> \<not> mw_panic s' \<and>
          (\<forall>i < made es. shown i s' = map (prefixed_by i s') (sent_to i es))))"
proof -
  note o = mw_run_orderly[OF assms]
  have "\<exists>us s'. mw_run (es @ us) s' \<and> list_all internal us \<and> mw_closer s' = Closed \<and> \<not> mw_panic s' \<and>
      (\<forall>i < made es. shown i s' = map (prefixed_by i s') (sent_to i es))"
    if all: "made es \<noteq> 0" "shut es = made es"
  proof -
    have "winding_down s" using o mw_run_counts[OF assms(1)] all by (auto simp: winding_down_def)
    from winding_down_closes[OF this assms(1)] obtain us s' where
      u: "mw_run (es @ us) s'" "list_all internal us" "winding_down s'" "mw_closer s' = Closed" by blast
    have orderly: "orderly s'" using u(3) by (simp add: winding_down_def)
    have "made (es @ us) = made es" using u(2)
    proof (induction us rule: rev_induct)
      case (snoc e us)
      then show ?case using made_snoc[of "es @ us" e] by (cases e) auto
    qed simp
    then have "length (mw_writers s') = made es" using mw_run_counts[OF u(1)] by simp
    moreover have "held i s' = []" if "i < length (mw_writers s')" for i
      using orderly u(4) that by (intro held_returned) (simp add: orderly_def)
    ultimately have "\<forall>i < made es. shown i s' = map (prefixed_by i s') (sent_to i es)"
      using mw_run_in_order[OF u(1)] sent_to_internal[OF u(2)] by (simp add: in_order_def)
    then show ?thesis using u orderly unfolding orderly_def by blast
  qed
  then show ?thesis using o by (auto simp: orderly_def)
qed

text \<open>
  A writer that is made after the display's channel was closed brings the program down: the
  first report that it forwards is sent on a closed channel.
\<close>

theorem late_writer_panics:
  assumes "mw_run es s" and "mw_closer s = Closed"
  shows "\<exists>s'. mw_run (es @ [WithPrefix pfx force, Start (length (mw_writers s)), Receive (length (mw_writers s)) v,
      Forward (length (mw_writers s))]) s' \<and> mw_panic s'"
proof -
  let ?n = "length (mw_writers s)" and ?p = "\<lparr>px_prefix = pfx, px_force = force, px_open = True, px_phase = Spawned\<rparr>"
  let ?s1 = "s\<lparr>mw_writers := mw_writers s @ [?p]\<rparr>"
  let ?s2 = "set_phase ?n Waiting (?s1\<lparr>mw_ready := True\<rparr>)"
  let ?s3 = "set_phase ?n (Holding (forward (px_prefix (mw_writers ?s2 ! ?n)) (px_force (mw_writers ?s2 ! ?n)) v)) ?s2"
  have 1: "mw_run (es @ [WithPrefix pfx force]) ?s1" by (rule run_step[OF assms(1)], rule with_prefix)
  have 2: "mw_run ((es @ [WithPrefix pfx force]) @ [Start ?n]) ?s2"
    by (rule run_step[OF 1], rule start) simp_all
  have 3: "mw_run (((es @ [WithPrefix pfx force]) @ [Start ?n]) @ [Receive ?n v]) ?s3"
    by (rule run_step[OF 2], rule receive) simp_all
  have "mw_run ((((es @ [WithPrefix pfx force]) @ [Start ?n]) @ [Receive ?n v]) @ [Forward ?n]) (?s3\<lparr>mw_panic := True\<rparr>)"
    by (rule run_step[OF 3], rule forward_closed) (simp_all add: assms(2))
  then show ?thesis by (intro exI[of _ "?s3\<lparr>mw_panic := True\<rparr>"]) simp
qed

section \<open>An example\<close>

text \<open>The steps as a function.\<close>

definition exec :: "mw_event \<Rightarrow> multi_writer \<Rightarrow> multi_writer option" where
  "exec e s =
     (case e of
        WithPrefix pfx force \<Rightarrow>
          Some (s\<lparr>mw_writers := mw_writers s @ [\<lparr>px_prefix = pfx, px_force = force, px_open = True, px_phase = Spawned\<rparr>]\<rparr>)
      | Start i \<Rightarrow>
          if i < length (mw_writers s) \<and> px_phase (mw_writers s ! i) = Spawned
          then Some (set_phase i Waiting (s\<lparr>mw_ready := True\<rparr>)) else None
      | Receive i v \<Rightarrow>
          if i < length (mw_writers s) \<and> px_phase (mw_writers s ! i) = Waiting \<and> px_open (mw_writers s ! i)
          then Some (set_phase i (Holding (forward (px_prefix (mw_writers s ! i)) (px_force (mw_writers s ! i)) v)) s) else None
      | Forward i \<Rightarrow>
          if i < length (mw_writers s) then
            (case px_phase (mw_writers s ! i) of
               Holding v \<Rightarrow>
                 if mw_closer s = Closed then Some (s\<lparr>mw_panic := True\<rparr>)
                 else if mw_done s then None
                 else Some (set_phase i Waiting (s\<lparr>mw_out := mw_out s @ [(i, v)]\<rparr>))
             | _ \<Rightarrow> None)
          else None
      | CloseIn i \<Rightarrow>
          if i < length (mw_writers s) \<and> px_open (mw_writers s ! i)
          then Some (s\<lparr>mw_writers := (mw_writers s)[i := (mw_writers s ! i)\<lparr>px_open := False\<rparr>]\<rparr>) else None
      | Return i \<Rightarrow>
          if i < length (mw_writers s) \<and> px_phase (mw_writers s ! i) = Waiting \<and> \<not> px_open (mw_writers s ! i)
          then Some (set_phase i Returned s) else None
      | Abort i \<Rightarrow>
          if i < length (mw_writers s) \<and> px_phase (mw_writers s ! i) = Waiting \<and> mw_done s
          then Some (set_phase i Returned s) else None
      | Closer \<Rightarrow>
          (case mw_closer s of
             WaitReady \<Rightarrow> if mw_ready s then Some (s\<lparr>mw_closer := WaitGroup\<rparr>) else None
           | WaitGroup \<Rightarrow>
               if list_all (\<lambda>p. px_phase p = Returned) (mw_writers s) then Some (s\<lparr>mw_closer := Closing\<rparr>) else None
           | Closing \<Rightarrow> Some (s\<lparr>mw_closer := Closed\<rparr>)
           | Closed \<Rightarrow> None)
      | DisplayDone \<Rightarrow> Some (s\<lparr>mw_done := True\<rparr>))"

lemma exec_step: "exec e s = Some s' \<longleftrightarrow> mw_step e s s'"
proof
  show "mw_step e s s'" if "exec e s = Some s'"
    using that by (cases e) (auto simp: exec_def list_all_iff intro: mw_step.intros split: if_splits phase.splits closer.splits)
  show "exec e s = Some s'" if "mw_step e s s'"
    using that by (cases rule: mw_step_cases) (auto simp: exec_def list_all_iff)
qed

fun exec_all :: "mw_event list \<Rightarrow> multi_writer \<Rightarrow> multi_writer option" where
  "exec_all [] s = Some s"
| "exec_all (e # es) s = (case exec e s of None \<Rightarrow> None | Some s \<Rightarrow> exec_all es s)"

lemma exec_all_run: "mw_run es s \<Longrightarrow> exec_all us s = Some s' \<Longrightarrow> mw_run (es @ us) s'"
proof (induction us arbitrary: es s)
  case (Cons u us)
  then obtain s1 where "exec u s = Some s1" "exec_all us s1 = Some s'" by (auto split: option.splits)
  then show ?case using Cons.IH[of "es @ [u]" s1] run_step[OF Cons.prems(1), of u s1] by (simp add: exec_step)
qed simp

definition example_report :: solve_status where
  "example_report = vertex_report \<lparr>v_digest = ''d'', v_name = ''run'', v_started = None, v_completed = None, v_error = []\<rparr>"

text \<open>Two writers, the second made while the first is open.\<close>

definition example_events :: "mw_event list" where
  "example_events = [WithPrefix ''a'' True, Start 0, Receive 0 example_report, WithPrefix ''b'' False, Forward 0,
     Receive 0 example_report, CloseIn 0, Start 1, CloseIn 1]"

lemma example_run:
  obtains s where "mw_run example_events s" "length (mw_writers s) = 2" "prefixed_by 0 s = forward ''a'' True"
    "shown 0 s = [forward ''a'' True example_report]"
proof -
  obtain s where s: "exec_all example_events NewMultiWriter = Some s" "length (mw_writers s) = 2"
    "px_prefix (mw_writers s ! 0) = ''a''" "px_force (mw_writers s ! 0)" "shown 0 s = [forward ''a'' True example_report]"
    by (simp add: example_events_def exec_def NewMultiWriter_def set_phase_def shown_def)
  with exec_all_run[OF run_new s(1)] show thesis by (intro that[of s]) (simp_all add: prefixed_by_def)
qed

theorem multi_writer_order_witness:
  "\<exists>s rest. mw_run example_events s \<and>
     map (forward ''a'' True) [example_report, example_report] = shown 0 s @ rest \<and> length rest \<le> 1"
proof -
  obtain s where s: "mw_run example_events s" "length (mw_writers s) = 2" "prefixed_by 0 s = forward ''a'' True"
    by (rule example_run)
  have "sent_to 0 example_events = [example_report, example_report]"
    by (simp add: sent_to_def example_events_def List.map_filter_simps)
  with multi_writer_order[OF s(1), of 0] s show ?thesis by auto
qed

theorem multi_writer_closes_witness:
  "\<exists>us s. mw_run (example_events @ us) s \<and> mw_closer s = Closed \<and>
     shown 0 s = map (prefixed_by 0 s) [example_report, example_report]"
proof -
  obtain s where s: "mw_run example_events s" by (rule example_run)
  have sent: "sent_to 0 example_events = [example_report, example_report]"
    by (simp add: sent_to_def example_events_def List.map_filter_simps)
  have "DisplayDone \<notin> set example_events" "kept_open 0 0 example_events" "made example_events = 2" "shut example_events = 2"
    by (simp_all add: example_events_def)
  with multi_writer_closes[OF s] sent show ?thesis by fastforce
qed

theorem late_writer_panics_example:
  "\<exists>es s. mw_run es s \<and> DisplayDone \<notin> set es \<and> mw_panic s"
proof -
  let ?es = "[WithPrefix ''default'' False, Start 0, CloseIn 0, Return 0, Closer, Closer, Closer]"
  obtain s where "exec_all ?es NewMultiWriter = Some s" "mw_closer s = Closed"
    by (simp add: exec_def NewMultiWriter_def set_phase_def)
  then have s: "mw_run ?es s" "mw_closer s = Closed" using exec_all_run[OF run_new, of ?es s] by simp_all
  from late_writer_panics[OF s, of "''default''" False example_report] obtain s' where
    "mw_run (?es @ [WithPrefix ''default'' False, Start (length (mw_writers s)), Receive (length (mw_writers s)) example_report,
      Forward (length (mw_writers s))]) s'" "mw_panic s'" by blast
  then show ?thesis by (intro exI conjI) (assumption, simp, assumption)
qed

end
