(* ===== verification/WriterSteps.thy ===== *)
theory WriterSteps
  imports Progress
begin

text \<open>
  The goroutine of \<open>ResetTime\<close> (\<open>pkg/progress/reset.go\<close>) and that of \<open>NewPrinter\<close> (printer.go) as step
  relations. The channels have no buffer: a send is a step of the sender and the receiver
  together.
\<close>

section \<open>The goroutine of ResetTime\<close>

text \<open>It is in its \<open>select\<close>, sends a report to the writer that is wrapped, or has returned.\<close>

datatype reset_phase = Selecting | Sending solve_status | Gone

text \<open>
  \<open>rw_open\<close> and \<open>rw_in_open\<close> say that the channel of the wrapper and that of the wrapped writer are
  open; \<open>rw_in_done\<close> is \<open>in.Done()\<close>, \<open>rw_in_reads\<close> says that somebody reads from the wrapped writer,
  and \<open>rw_in_got\<close> is what has been read there.
\<close>

record reset_writer =
  rw_tm :: int
  rw_diff :: "int option"
  rw_open :: bool
  rw_phase :: reset_phase
  rw_in_open :: bool
  rw_in_done :: bool
  rw_in_reads :: bool
  rw_in_got :: "solve_status list"
  rw_panic :: bool

definition new_reset :: "int \<Rightarrow> reset_writer" where
  "new_reset tm =
     \<lparr>rw_tm = tm, rw_diff = None, rw_open = True, rw_phase = Selecting, rw_in_open = True, rw_in_done = False,
      rw_in_reads = True, rw_in_got = [], rw_panic = False\<rparr>"

text \<open>The client reports or closes its channel; the goroutine hands a report on, closes the wrapped
  channel or gives up; the wrapped writer is done, and then its reader may leave.\<close>

datatype reset_event = Report solve_status | CloseStatus | HandOn | CloseWrapped | GiveUp | WrappedDone | ReaderLeaves

definition moved :: "int option \<Rightarrow> solve_status \<Rightarrow> solve_status" where
  "moved diff st = (case diff of Some d \<Rightarrow> shift_status d st | None \<Rightarrow> st)"

inductive reset_step :: "reset_event \<Rightarrow> reset_writer \<Rightarrow> reset_writer \<Rightarrow> bool" where
  report:
    "rw_phase s = Selecting \<Longrightarrow> rw_open s \<Longrightarrow> diff = first_diff (rw_tm s) (rw_diff s) st \<Longrightarrow>
     reset_step (Report st) s (s\<lparr>rw_diff := diff, rw_phase := Sending (moved diff st)\<rparr>)"
| close_status:
    "rw_open s \<Longrightarrow> reset_step CloseStatus s (s\<lparr>rw_open := False\<rparr>)"
| hand_on:
    "rw_phase s = Sending st \<Longrightarrow> rw_in_open s \<Longrightarrow> rw_in_reads s \<Longrightarrow>
     reset_step HandOn s (s\<lparr>rw_phase := Selecting, rw_in_got := rw_in_got s @ [st]\<rparr>)"
| hand_on_closed:
    "rw_phase s = Sending st \<Longrightarrow> \<not> rw_in_open s \<Longrightarrow> reset_step HandOn s (s\<lparr>rw_panic := True\<rparr>)"
| close_wrapped:
    "rw_phase s = Selecting \<Longrightarrow> \<not> rw_open s \<Longrightarrow>
     reset_step CloseWrapped s
       (if rw_in_open s then s\<lparr>rw_in_open := False, rw_phase := Gone\<rparr> else s\<lparr>rw_panic := True\<rparr>)"
| give_up:
    "rw_phase s = Selecting \<Longrightarrow> rw_in_done s \<Longrightarrow> reset_step GiveUp s (s\<lparr>rw_phase := Gone\<rparr>)"
| wrapped_done:
    "reset_step WrappedDone s (s\<lparr>rw_in_done := True\<rparr>)"
| reader_leaves:
    "rw_in_done s \<Longrightarrow> reset_step ReaderLeaves s (s\<lparr>rw_in_reads := False\<rparr>)"

inductive_cases reset_step_cases [consumes 1, case_names report close_status hand_on hand_on_closed close_wrapped give_up
    wrapped_done reader_leaves]: "reset_step e s s'"

inductive_simps reset_step_simps [simp]:
  "reset_step HandOn s s'" "reset_step CloseWrapped s s'" "reset_step CloseStatus s s'" "reset_step (Report st) s s'"
  "reset_step GiveUp s s'" "reset_step WrappedDone s s'" "reset_step ReaderLeaves s s'"

inductive reset_run :: "int \<Rightarrow> reset_event list \<Rightarrow> reset_writer \<Rightarrow> bool" where
  reset_new: "reset_run tm [] (new_reset tm)"
| reset_more: "reset_run tm es s \<Longrightarrow> reset_step e s s' \<Longrightarrow> reset_run tm (es @ [e]) s'"

section \<open>Lemmas\<close>

definition reported :: "reset_event list \<Rightarrow> solve_status list" where
  "reported es = List.map_filter (\<lambda>e. case e of Report st \<Rightarrow> Some st | _ \<Rightarrow> None) es"

lemma reported_snoc [simp]:
  "reported [] = []" "reported (es @ [Report st]) = reported es @ [st]" "reported (es @ [CloseStatus]) = reported es"
  "reported (es @ [HandOn]) = reported es" "reported (es @ [CloseWrapped]) = reported es" "reported (es @ [GiveUp]) = reported es"
  "reported (es @ [WrappedDone]) = reported es" "reported (es @ [ReaderLeaves]) = reported es"
  by (simp_all add: reported_def List.map_filter_def)

text \<open>The difference after some reports, and the stream read off from the back.\<close>

definition diff_after :: "int \<Rightarrow> solve_status list \<Rightarrow> int option" where
  "diff_after tm sts = fold (\<lambda>st d. first_diff tm d st) sts None"

lemma reset_stream_snoc:
  "reset_stream tm d (sts @ [st]) = reset_stream tm d sts @ [moved (fold (\<lambda>st d. first_diff tm d st) (sts @ [st]) d) st]"
  by (induction sts arbitrary: d) (simp_all add: Let_def moved_def)

lemma ResetTime_snoc: "ResetTime tm (sts @ [st]) = ResetTime tm sts @ [moved (diff_after tm (sts @ [st])) st]"
  by (simp add: ResetTime_def reset_stream_snoc diff_after_def)

text \<open>What holds in every run: the wrapped writer got the reset stream up to the report that the
  goroutine holds, and its channel is closed only by the goroutine, at its end.\<close>

definition unsent :: "reset_writer \<Rightarrow> solve_status list" where
  "unsent s = (case rw_phase s of Sending st \<Rightarrow> [st] | _ \<Rightarrow> [])"

definition resetting :: "int \<Rightarrow> reset_event list \<Rightarrow> reset_writer \<Rightarrow> bool" where
  "resetting tm es s \<longleftrightarrow>
     rw_tm s = tm \<and> rw_diff s = diff_after tm (reported es) \<and>
     rw_in_got s @ unsent s = ResetTime tm (reported es) \<and> \<not> rw_panic s \<and>
     (\<not> rw_in_open s \<longrightarrow> rw_phase s = Gone \<and> \<not> rw_open s) \<and>
     (rw_phase s = Gone \<longrightarrow> rw_in_done s \<or> \<not> rw_in_open s) \<and>
     (\<not> rw_in_reads s \<longrightarrow> rw_in_done s) \<and> (rw_in_done s \<longrightarrow> WrappedDone \<in> set es)"

lemma reset_run_resetting: "reset_run tm es s \<Longrightarrow> resetting tm es s"
proof (induction rule: reset_run.induct)
  case (reset_new tm)
  then show ?case by (simp add: resetting_def new_reset_def unsent_def ResetTime_def diff_after_def)
next
  case (reset_more tm es s e s')
  from reset_more.hyps(2) reset_more.IH show ?case
  proof (cases rule: reset_step_cases)
    case (report st)
    then show ?thesis using reset_more.IH by (simp add: resetting_def unsent_def ResetTime_snoc) (simp add: diff_after_def)
  qed (auto simp: resetting_def unsent_def split: if_splits)
qed

fun own_step :: "reset_event \<Rightarrow> bool" where
  "own_step HandOn = True"
| "own_step CloseWrapped = True"
| "own_step _ = False"

lemma reset_closes:
  assumes "reset_run tm es s" and "resetting tm es s" and "rw_phase s = Selecting" and "\<not> rw_open s"
  shows "\<exists>s'. reset_run tm (es @ [CloseWrapped]) s' \<and> \<not> rw_in_open s' \<and> rw_in_got s' = rw_in_got s"
proof -
  from assms have "rw_in_open s" by (auto simp: resetting_def)
  with assms show ?thesis
    by (intro exI[of _ "s\<lparr>rw_in_open := False, rw_phase := Gone\<rparr>"] conjI reset_more[OF assms(1)]) simp_all
qed

text \<open>After the client has closed its channel, the goroutine needs at most two steps.\<close>

lemma reset_winds_down:
  assumes run: "reset_run tm es s" and "\<not> rw_open s" and "WrappedDone \<notin> set es"
  shows "\<exists>us s'. list_all own_step us \<and> length us \<le> 2 \<and> reset_run tm (es @ us) s' \<and> \<not> rw_in_open s' \<and>
    rw_in_got s' = ResetTime tm (reported es)"
proof -
  have inv: "resetting tm es s" by (rule reset_run_resetting[OF run])
  show ?thesis
  proof (cases "rw_phase s")
    case Selecting
    from reset_closes[OF run inv Selecting assms(2)] inv Selecting show ?thesis
      by (intro exI[of _ "[CloseWrapped]"]) (auto simp: resetting_def unsent_def)
  next
    case (Sending st)
    let ?s = "s\<lparr>rw_phase := Selecting, rw_in_got := rw_in_got s @ [st]\<rparr>"
    from inv assms(3) Sending have "rw_in_open s" "rw_in_reads s" by (auto simp: resetting_def)
    with Sending have run': "reset_run tm (es @ [HandOn]) ?s" by (intro reset_more[OF run]) simp
    from reset_closes[OF run' reset_run_resetting[OF run']] assms(2) inv Sending show ?thesis
      by (intro exI[of _ "[HandOn, CloseWrapped]"]) (auto simp: resetting_def unsent_def)
  next
    case Gone
    with inv assms(3) show ?thesis by (intro exI[of _ "[]"] exI[of _ s]) (auto simp: resetting_def unsent_def run)
  qed
qed

section \<open>The goroutine of NewPrinter\<close>

text \<open>\<open>DisplaySolveStatus\<close> shows what it reads; it ends without an error when the channel is closed, and
  with the error of its context when that is done.\<close>

datatype printer_phase = Displaying | ErrStored | DoneClosed

record printer =
  pr_open :: bool
  pr_phase :: printer_phase
  pr_err :: "go_error option"
  pr_ctx :: "go_error option"
  pr_shown :: "solve_status list"

definition NewPrinter :: printer where
  "NewPrinter = \<lparr>pr_open = True, pr_phase = Displaying, pr_err = None, pr_ctx = None, pr_shown = []\<rparr>"

definition printer_Done :: "printer \<Rightarrow> bool" where
  "printer_Done p \<longleftrightarrow> pr_phase p = DoneClosed"

definition printer_Err :: "printer \<Rightarrow> go_error option" where
  "printer_Err p = pr_err p"

text \<open>The channel of a printer; a nil printer has the nil channel.\<close>

definition printer_Status :: "printer option \<Rightarrow> bool option" where
  "printer_Status p = map_option pr_open p"

datatype printer_event = Show solve_status | CloseShown | CtxDone go_error | DisplayEnds | CloseDone

inductive printer_step :: "printer_event \<Rightarrow> printer \<Rightarrow> printer \<Rightarrow> bool" where
  show_one: "pr_phase p = Displaying \<Longrightarrow> pr_open p \<Longrightarrow> printer_step (Show st) p (p\<lparr>pr_shown := pr_shown p @ [st]\<rparr>)"
| close_shown: "pr_open p \<Longrightarrow> printer_step CloseShown p (p\<lparr>pr_open := False\<rparr>)"
| ctx_done: "pr_ctx p = None \<Longrightarrow> printer_step (CtxDone e) p (p\<lparr>pr_ctx := Some e\<rparr>)"
| display_ends: "pr_phase p = Displaying \<Longrightarrow> \<not> pr_open p \<Longrightarrow> printer_step DisplayEnds p (p\<lparr>pr_phase := ErrStored, pr_err := None\<rparr>)"
| display_cancelled:
    "pr_phase p = Displaying \<Longrightarrow> pr_ctx p = Some e \<Longrightarrow> printer_step DisplayEnds p (p\<lparr>pr_phase := ErrStored, pr_err := Some e\<rparr>)"
| close_done: "pr_phase p = ErrStored \<Longrightarrow> printer_step CloseDone p (p\<lparr>pr_phase := DoneClosed\<rparr>)"

inductive_cases printer_step_cases: "printer_step e p p'"

inductive printer_run :: "printer_event list \<Rightarrow> printer \<Rightarrow> bool" where
  printer_new: "printer_run [] NewPrinter"
| printer_more: "printer_run es p \<Longrightarrow> printer_step e p p' \<Longrightarrow> printer_run (es @ [e]) p'"

text \<open>A printer that is done says in its error how the display ended, and says so for good.\<close>

lemma printer_run_err:
  assumes "printer_run es p"
  shows "(pr_phase p \<noteq> Displaying \<longrightarrow> (case pr_err p of None \<Rightarrow> \<not> pr_open p | Some e \<Rightarrow> pr_ctx p = Some e)) \<and>
    pr_shown p = List.map_filter (\<lambda>e. case e of Show st \<Rightarrow> Some st | _ \<Rightarrow> None) es"
  using assms
proof (induction rule: printer_run.induct)
  case (printer_more es p e p')
  from printer_more.hyps(2) printer_more.IH show ?case
    by (cases rule: printer_step_cases) (auto simp: List.map_filter_def split: option.splits)
qed (simp add: NewPrinter_def List.map_filter_def)

lemma printer_done_settled:
  assumes "printer_step e p p'" and "printer_Done p"
  shows "printer_Done p' \<and> pr_err p' = pr_err p \<and> pr_shown p' = pr_shown p"
  using assms by (cases rule: printer_step_cases) (auto simp: printer_Done_def)

section \<open>Properties\<close>

text \<open>
  C36: In every run of the goroutine of a wrapped writer, in whatever order the client, the goroutine
  and the reader of the wrapped writer get on, the wrapped writer gets the reports of the client in
  their order, each once, and all but at most the one that the goroutine holds. Reports before the
  first started vertex are unchanged, and from there on every time is moved by one difference, which
  puts a started vertex of that report at the time of the wrapping; so the order and the durations
  of all steps are kept. The wrapped channel is never closed twice or sent to when it is closed; and
  when the client closes its channel while the wrapped writer is not done, two steps of the goroutine
  are enough to hand everything on and close the wrapped channel.
\<close>

theorem reset_run_delivers:
  assumes "reset_run tm es s"
  shows "(\<exists>rest got. rw_in_got s @ rest = got \<and> length rest \<le> 1 \<and>
      ((list_all unstarted (reported es) \<and> got = reported es) \<or>
       (\<exists>pre st post d v. reported es = pre @ st # post \<and> list_all unstarted pre \<and> v \<in> set (ss_vertexes st) \<and>
          v_started v = Some (tm + d) \<and> got = pre @ map (shift_status d) (st # post)))) \<and>
    \<not> rw_panic s \<and>
    (\<not> rw_open s \<and> WrappedDone \<notin> set es \<longrightarrow>
       (\<exists>us s'. list_all own_step us \<and> length us \<le> 2 \<and> reset_run tm (es @ us) s' \<and> \<not> rw_in_open s' \<and>
          rw_in_got s' = ResetTime tm (reported es)))"
proof -
  have inv: "resetting tm es s" by (rule reset_run_resetting[OF assms])
  then have "rw_in_got s @ unsent s = ResetTime tm (reported es)" "length (unsent s) \<le> 1" "\<not> rw_panic s"
    by (auto simp: resetting_def unsent_def split: reset_phase.splits)
  with ResetTime_shift[of "reported es" tm] reset_winds_down[OF assms] show ?thesis by blast
qed

text \<open>
  A goroutine that holds a report when the reader of the wrapped writer leaves never returns: the
  send is outside the \<open>select\<close>.
\<close>

theorem reset_stuck:
  assumes "reset_step e s s'" and "rw_phase s = Sending st" and "\<not> rw_in_reads s" and "rw_in_open s"
  shows "rw_phase s' = Sending st \<and> \<not> rw_in_reads s' \<and> rw_in_open s'"
  using assms by (cases rule: reset_step_cases) auto

section \<open>An example\<close>

definition example_started :: solve_status where
  "example_started = vertex_report \<lparr>v_digest = ''d'', v_name = ''run'', v_started = Some 107, v_completed = None, v_error = []\<rparr>"

definition example_reset_events :: "reset_event list" where
  "example_reset_events = [Report example_started, CloseStatus]"

lemma example_reset_run:
  obtains s where "reset_run 100 example_reset_events s" "\<not> rw_open s"
proof -
  have "reset_run 100 ([] @ [Report example_started])
      (new_reset 100\<lparr>rw_diff := Some 7, rw_phase := Sending (shift_status 7 example_started)\<rparr>)"
    by (rule reset_more[OF reset_new]) (simp add: new_reset_def first_diff_def example_started_def vertex_report_def moved_def)
  then have "reset_run 100 (([] @ [Report example_started]) @ [CloseStatus])
      (new_reset 100\<lparr>rw_diff := Some 7, rw_phase := Sending (shift_status 7 example_started), rw_open := False\<rparr>)"
    by (rule reset_more) (simp add: new_reset_def)
  then show thesis by (intro that[of "new_reset 100\<lparr>rw_diff := Some 7, rw_phase := Sending (shift_status 7 example_started), rw_open := False\<rparr>"])
    (simp_all add: example_reset_events_def)
qed

theorem reset_run_delivers_witness:
  "\<exists>us s. list_all own_step us \<and> reset_run 100 (example_reset_events @ us) s \<and> \<not> rw_in_open s \<and>
     rw_in_got s = [vertex_report \<lparr>v_digest = ''d'', v_name = ''run'', v_started = Some 100, v_completed = None, v_error = []\<rparr>]"
proof -
  obtain s where s: "reset_run 100 example_reset_events s" "\<not> rw_open s" by (rule example_reset_run)
  have "WrappedDone \<notin> set example_reset_events" by (simp add: example_reset_events_def)
  moreover have "ResetTime 100 (reported example_reset_events) =
      [vertex_report \<lparr>v_digest = ''d'', v_name = ''run'', v_started = Some 100, v_completed = None, v_error = []\<rparr>]"
    by (simp add: reported_def List.map_filter_def example_reset_events_def ResetTime_def first_diff_def
        example_started_def vertex_report_def shift_status_def)
  ultimately show ?thesis using reset_run_delivers[OF s(1)] s(2) by auto
qed

end
