(* ===== verification/ExecStream.thy ===== *)
theory ExecStream
  imports ExecConn "HOL-Library.Sublist"
begin

text \<open>
  What flows through a connection: the two pipes of \<open>ExecConn\<close>, the calls \<open>Write\<close>, \<open>Read\<close> and \<open>Close\<close>
  of \<open>kubeConn\<close> on their near ends, and the goroutine that runs \<open>exec.Stream\<close> on their far ends
  (\<open>pkg/driver/kubernetes/execconn/execconn.go\<close>). The pipes are those of the package \<open>io\<close>: they
  have no buffer, so a write waits until reads have taken all of its bytes, or until one of the
  ends is closed. One write and one read are under way at a time.
\<close>

section \<open>A pipe\<close>

datatype io_end = EOF | ErrClosedPipe

text \<open>\<open>ip_write\<close> is the write under way: the bytes that are still to be taken, and how many have been;
  \<open>ip_read\<close> is the length of the buffer of the read under way. \<open>ip_writes\<close> and \<open>ip_reads\<close> are the
  results that the calls have returned.\<close>

record io_pipe =
  ip_write :: "(string \<times> nat) option"
  ip_read :: "nat option"
  ip_w_closed :: bool
  ip_r_closed :: bool
  ip_writes :: "(nat \<times> io_end option) list"
  ip_reads :: "(string \<times> io_end option) list"

definition new_pipe :: io_pipe where
  "new_pipe = \<lparr>ip_write = None, ip_read = None, ip_w_closed = False, ip_r_closed = False, ip_writes = [], ip_reads = []\<rparr>"

definition ip_done :: "io_pipe \<Rightarrow> bool" where
  "ip_done p \<longleftrightarrow> ip_w_closed p \<or> ip_r_closed p"

definition readCloseError :: "io_pipe \<Rightarrow> io_end" where
  "readCloseError p = (if \<not> ip_r_closed p \<and> ip_w_closed p then EOF else ErrClosedPipe)"

text \<open>A call that finds the pipe closed returns at once; \<open>None\<close> means that it waits for its turn.\<close>

definition begin_write :: "string \<Rightarrow> io_pipe \<Rightarrow> io_pipe option" where
  "begin_write b p =
     (if ip_done p then Some (p\<lparr>ip_writes := ip_writes p @ [(0, Some ErrClosedPipe)]\<rparr>)
      else case ip_write p of Some _ \<Rightarrow> None | None \<Rightarrow> Some (p\<lparr>ip_write := Some (b, 0)\<rparr>))"

definition begin_read :: "nat \<Rightarrow> io_pipe \<Rightarrow> io_pipe option" where
  "begin_read n p =
     (if ip_done p then Some (p\<lparr>ip_reads := ip_reads p @ [([], Some (readCloseError p))]\<rparr>)
      else case ip_read p of Some _ \<Rightarrow> None | None \<Rightarrow> Some (p\<lparr>ip_read := Some n\<rparr>))"

text \<open>The read takes what fits into its buffer; the write goes on with the rest, or returns.\<close>

definition meet :: "io_pipe \<Rightarrow> io_pipe option" where
  "meet p =
     (case (ip_write p, ip_read p) of
        (Some (b, k), Some n) \<Rightarrow>
          let k = k + min n (length b) in
          Some (if drop n b = []
                then p\<lparr>ip_read := None, ip_reads := ip_reads p @ [(take n b, None)],
                       ip_write := None, ip_writes := ip_writes p @ [(k, None)]\<rparr>
                else p\<lparr>ip_read := None, ip_reads := ip_reads p @ [(take n b, None)], ip_write := Some (drop n b, k)\<rparr>)
      | _ \<Rightarrow> None)"

text \<open>A call that waits when the pipe is closed returns with an error.\<close>

definition abort_write :: "io_pipe \<Rightarrow> io_pipe option" where
  "abort_write p =
     (case ip_write p of
        Some (b, k) \<Rightarrow> if ip_done p then Some (p\<lparr>ip_write := None, ip_writes := ip_writes p @ [(k, Some ErrClosedPipe)]\<rparr>) else None
      | None \<Rightarrow> None)"

definition abort_read :: "io_pipe \<Rightarrow> io_pipe option" where
  "abort_read p =
     (case ip_read p of
        Some n \<Rightarrow> if ip_done p then Some (p\<lparr>ip_read := None, ip_reads := ip_reads p @ [([], Some (readCloseError p))]\<rparr>) else None
      | None \<Rightarrow> None)"

datatype wake = Meet | AbortWrite | AbortRead

definition wake_up :: "wake \<Rightarrow> io_pipe \<Rightarrow> io_pipe option" where
  "wake_up k = (case k of Meet \<Rightarrow> meet | AbortWrite \<Rightarrow> abort_write | AbortRead \<Rightarrow> abort_read)"

section \<open>The connection\<close>

text \<open>\<open>es_over\<close> says that \<open>exec.Stream\<close> has returned; \<open>es_log\<close> is what the goroutine has logged then.\<close>

record exec_stream =
  es_conn :: kube_conn
  es_stdin :: io_pipe
  es_stdout :: io_pipe
  es_over :: bool
  es_log :: "go_error list"

definition open_stream :: "kube_conn \<Rightarrow> exec_stream" where
  "open_stream c = \<lparr>es_conn = c, es_stdin = new_pipe, es_stdout = new_pipe, es_over = False, es_log = []\<rparr>"

definition kubeConn_Write :: "string \<Rightarrow> exec_stream \<Rightarrow> exec_stream option" where
  "kubeConn_Write b s = map_option (\<lambda>p. s\<lparr>es_stdin := p\<rparr>) (begin_write b (es_stdin s))"

definition kubeConn_Read :: "nat \<Rightarrow> exec_stream \<Rightarrow> exec_stream option" where
  "kubeConn_Read n s = map_option (\<lambda>p. s\<lparr>es_stdout := p\<rparr>) (begin_read n (es_stdout s))"

text \<open>The pipes as \<open>Close\<close> closes them: the writing end of the first, the reading end of the second.\<close>

definition near_ends :: "(io_pipe \<times> io_pipe) pipes" where
  "near_ends =
     \<lparr>pi_close_stdin = (\<lambda>(i, out). (None, i\<lparr>ip_w_closed := True\<rparr>, out)),
      pi_close_stdout = (\<lambda>(i, out). (None, i, out\<lparr>ip_r_closed := True\<rparr>))\<rparr>"

definition closed_by :: "(kube_conn \<times> io_pipe \<times> io_pipe \<Rightarrow> go_error option \<times> kube_conn \<times> io_pipe \<times> io_pipe) \<Rightarrow> exec_stream \<Rightarrow> exec_stream" where
  "closed_by f s =
     (case f (es_conn s, es_stdin s, es_stdout s) of
        (err, c, i, out) \<Rightarrow> s\<lparr>es_conn := c, es_stdin := i, es_stdout := out\<rparr>)"

text \<open>The stream: it returns when it has written all of the command's output. Its reader of the input
  is not waited for.\<close>

definition stream_write :: "string \<Rightarrow> exec_stream \<Rightarrow> exec_stream option" where
  "stream_write b s = (if es_over s then None else map_option (\<lambda>p. s\<lparr>es_stdout := p\<rparr>) (begin_write b (es_stdout s)))"

definition stream_read :: "nat \<Rightarrow> exec_stream \<Rightarrow> exec_stream option" where
  "stream_read n s = map_option (\<lambda>p. s\<lparr>es_stdin := p\<rparr>) (begin_read n (es_stdin s))"

definition stream_over :: "go_error option \<Rightarrow> exec_stream \<Rightarrow> exec_stream option" where
  "stream_over serr s =
     (if es_over s \<or> ip_write (es_stdout s) \<noteq> None then None
      else Some (s\<lparr>es_over := True, es_log := es_log s @ (case serr of Some e \<Rightarrow> [e] | None \<Rightarrow> [])\<rparr>))"

datatype conn_event =
    ConnWrite string
  | ConnRead nat
  | ConnCloseWrite
  | ConnCloseRead
  | ConnClose
  | InWakes wake
  | OutWakes wake
  | StreamWrite string
  | StreamRead nat
  | StreamOver "go_error option"

definition conn_act :: "conn_event \<Rightarrow> exec_stream \<Rightarrow> exec_stream option" where
  "conn_act e s =
     (case e of
        ConnWrite b \<Rightarrow> kubeConn_Write b s
      | ConnRead n \<Rightarrow> kubeConn_Read n s
      | ConnCloseWrite \<Rightarrow> Some (closed_by (CloseWrite near_ends) s)
      | ConnCloseRead \<Rightarrow> Some (closed_by (CloseRead near_ends) s)
      | ConnClose \<Rightarrow> Some (closed_by (Close near_ends) s)
      | InWakes k \<Rightarrow> map_option (\<lambda>p. s\<lparr>es_stdin := p\<rparr>) (wake_up k (es_stdin s))
      | OutWakes k \<Rightarrow> map_option (\<lambda>p. s\<lparr>es_stdout := p\<rparr>) (wake_up k (es_stdout s))
      | StreamWrite b \<Rightarrow> stream_write b s
      | StreamRead n \<Rightarrow> stream_read n s
      | StreamOver serr \<Rightarrow> stream_over serr s)"

fun conn_acts :: "conn_event list \<Rightarrow> exec_stream \<Rightarrow> exec_stream option" where
  "conn_acts [] s = Some s"
| "conn_acts (e # es) s = (case conn_act e s of None \<Rightarrow> None | Some s \<Rightarrow> conn_acts es s)"

section \<open>Lemmas\<close>

lemmas pipe_defs = begin_write_def begin_read_def meet_def abort_write_def abort_read_def wake_up_def

text \<open>The bytes that have passed, those under way, and the count that the writes have returned or will.\<close>

definition passed :: "io_pipe \<Rightarrow> string" where
  "passed p = concat (map fst (ip_reads p))"

definition under_way :: "io_pipe \<Rightarrow> string" where
  "under_way p = (case ip_write p of None \<Rightarrow> [] | Some (b, k) \<Rightarrow> b)"

definition counted :: "io_pipe \<Rightarrow> nat" where
  "counted p = sum_list (map fst (ip_writes p)) + (case ip_write p of None \<Rightarrow> 0 | Some (b, k) \<Rightarrow> k)"

text \<open>A pipe into which \<open>bs\<close> has been written so far.\<close>

definition pipe_ok :: "string \<Rightarrow> io_pipe \<Rightarrow> bool" where
  "pipe_ok bs p \<longleftrightarrow>
     prefix (passed p @ under_way p) bs \<and> (\<not> ip_done p \<longrightarrow> passed p @ under_way p = bs) \<and> counted p = length (passed p)"

lemmas pipe_ok_defs = pipe_ok_def passed_def under_way_def counted_def ip_done_def

lemma pipe_ok_new: "pipe_ok [] new_pipe"
  by (simp add: pipe_ok_defs new_pipe_def)

lemma begin_write_ok: "begin_write b p = Some p' \<Longrightarrow> pipe_ok bs p \<Longrightarrow> pipe_ok (bs @ b) p'"
  by (auto simp: pipe_ok_defs pipe_defs split: if_splits option.splits)

lemma begin_read_ok: "begin_read n p = Some p' \<Longrightarrow> pipe_ok bs p \<Longrightarrow> pipe_ok bs p'"
  by (auto simp: pipe_ok_defs pipe_defs split: if_splits option.splits)

lemma wake_up_ok: "wake_up k p = Some p' \<Longrightarrow> pipe_ok bs p \<Longrightarrow> pipe_ok bs p'"
  by (auto simp: pipe_ok_defs pipe_defs Let_def min_def split: if_splits option.splits wake.splits prod.splits
      dest: append_prefixD)

lemma close_w_ok: "pipe_ok bs p \<Longrightarrow> pipe_ok bs (p\<lparr>ip_w_closed := True\<rparr>)"
  and close_r_ok: "pipe_ok bs p \<Longrightarrow> pipe_ok bs (p\<lparr>ip_r_closed := True\<rparr>)"
  by (auto simp: pipe_ok_defs)

text \<open>What the two sides have written.\<close>

fun conn_wrote :: "conn_event list \<Rightarrow> string" where
  "conn_wrote [] = []"
| "conn_wrote (e # es) = (case e of ConnWrite b \<Rightarrow> b | _ \<Rightarrow> []) @ conn_wrote es"

fun stream_wrote :: "conn_event list \<Rightarrow> string" where
  "stream_wrote [] = []"
| "stream_wrote (e # es) = (case e of StreamWrite b \<Rightarrow> b | _ \<Rightarrow> []) @ stream_wrote es"

lemmas close_defs = closed_by_def Close_def CloseWrite_def CloseRead_def near_ends_def Let_def

lemmas act_defs = conn_act_def kubeConn_Write_def kubeConn_Read_def stream_write_def stream_read_def stream_over_def

text \<open>The flags of the connection are those of the near ends; the far ends are never closed.\<close>

definition ends_ok :: "exec_stream \<Rightarrow> bool" where
  "ends_ok s \<longleftrightarrow>
     ip_w_closed (es_stdin s) = kn_stdin_closed (es_conn s) \<and> \<not> ip_r_closed (es_stdin s) \<and>
     ip_r_closed (es_stdout s) = kn_stdout_closed (es_conn s) \<and> \<not> ip_w_closed (es_stdout s) \<and>
     (es_over s \<longrightarrow> ip_write (es_stdout s) = None)"

lemma pipe_ends:
  "begin_write b p = Some p' \<Longrightarrow> ip_w_closed p' = ip_w_closed p \<and> ip_r_closed p' = ip_r_closed p"
  "begin_read n p = Some p' \<Longrightarrow> ip_w_closed p' = ip_w_closed p \<and> ip_r_closed p' = ip_r_closed p \<and> ip_write p' = ip_write p"
  "wake_up k p = Some p' \<Longrightarrow> ip_w_closed p' = ip_w_closed p \<and> ip_r_closed p' = ip_r_closed p \<and>
     (ip_write p = None \<longrightarrow> ip_write p' = None)"
  by (auto simp: pipe_defs Let_def split: if_splits option.splits wake.splits)

lemma conn_act_ends: "conn_act e s = Some s' \<Longrightarrow> ends_ok s \<Longrightarrow> ends_ok s'"
  by (cases e) (auto simp: act_defs ends_ok_def close_defs simp del: not_None_eq dest!: pipe_ends split: if_splits)

lemma conn_act_bytes:
  assumes "conn_act e s = Some s'" and "pipe_ok i (es_stdin s)" and "pipe_ok out (es_stdout s)"
  shows "pipe_ok (i @ conn_wrote [e]) (es_stdin s') \<and> pipe_ok (out @ stream_wrote [e]) (es_stdout s')"
  using assms
  by (cases e) (auto simp: act_defs close_defs close_w_ok close_r_ok split: if_splits
      dest: begin_write_ok begin_read_ok wake_up_ok)

lemma wrote_append [simp]:
  "conn_wrote (es @ us) = conn_wrote es @ conn_wrote us" "stream_wrote (es @ us) = stream_wrote es @ stream_wrote us"
  by (induction es) simp_all

lemma conn_acts_bytes:
  assumes "conn_acts es s = Some s'" and "pipe_ok i (es_stdin s)" and "pipe_ok out (es_stdout s)"
  shows "pipe_ok (i @ conn_wrote es) (es_stdin s') \<and> pipe_ok (out @ stream_wrote es) (es_stdout s')"
  using assms
proof (induction es arbitrary: s i out)
  case (Cons e es)
  then obtain s1 where e: "conn_act e s = Some s1" and es: "conn_acts es s1 = Some s'" by (auto split: option.splits)
  from conn_act_bytes[OF e Cons.prems(2,3)] Cons.IH[OF es] have
    "pipe_ok ((i @ conn_wrote [e]) @ conn_wrote es) (es_stdin s')" "pipe_ok ((out @ stream_wrote [e]) @ stream_wrote es) (es_stdout s')"
    by blast+
  then show ?case by simp
qed simp

text \<open>What the reads of the connection return.\<close>

definition no_end_seen :: "exec_stream \<Rightarrow> bool" where
  "no_end_seen s \<longleftrightarrow> list_all (\<lambda>(b, err). err = None \<or> err = Some ErrClosedPipe \<and> b = [] \<and> kn_stdout_closed (es_conn s)) (ip_reads (es_stdout s))"

lemma pipe_reads:
  "begin_write b p = Some p' \<Longrightarrow> ip_reads p' = ip_reads p"
  "begin_read n p = Some p' \<Longrightarrow> ip_reads p' = ip_reads p \<or> (ip_done p \<and> ip_reads p' = ip_reads p @ [([], Some (readCloseError p))])"
  "wake_up k p = Some p' \<Longrightarrow> ip_reads p' = ip_reads p \<or> (ip_done p \<and> ip_reads p' = ip_reads p @ [([], Some (readCloseError p))]) \<or>
     (ip_write p \<noteq> None \<and> (\<exists>b. ip_reads p' = ip_reads p @ [(b, None)]))"
  by (auto simp: pipe_defs Let_def split: if_splits option.splits wake.splits)

lemma conn_act_flags:
  assumes "conn_act e s = Some s'"
  shows "kn_stdout_closed (es_conn s) \<Longrightarrow> kn_stdout_closed (es_conn s')"
  using assms by (cases e) (auto simp: act_defs close_defs split: if_splits)

lemma conn_act_reads:
  assumes "conn_act e s = Some s'" and "ends_ok s" and "no_end_seen s"
  shows "no_end_seen s'"
proof -
  note flags = conn_act_flags[OF assms(1)]
  have "ip_reads (es_stdout s') = ip_reads (es_stdout s) \<or> (\<exists>b. ip_reads (es_stdout s') = ip_reads (es_stdout s) @ [(b, None)]) \<or>
      (kn_stdout_closed (es_conn s) \<and> ip_reads (es_stdout s') = ip_reads (es_stdout s) @ [([], Some ErrClosedPipe)])"
    using assms(1,2) by (cases e) (auto simp: act_defs close_defs ends_ok_def ip_done_def readCloseError_def dest!: pipe_reads split: if_splits)
  with assms(3) flags show ?thesis by (auto simp: no_end_seen_def list_all_iff)
qed

lemma conn_acts_seen:
  assumes "conn_acts es s = Some s'" and "ends_ok s" and "no_end_seen s"
  shows "ends_ok s' \<and> no_end_seen s'"
  using assms
proof (induction es arbitrary: s)
  case (Cons e es)
  then show ?case by (auto split: option.splits intro: conn_act_ends conn_act_reads)
qed simp

lemma conn_acts_flags:
  "conn_acts es s = Some s' \<Longrightarrow> kn_stdout_closed (es_conn s) \<Longrightarrow> kn_stdout_closed (es_conn s')"
  by (induction es arbitrary: s) (auto dest: conn_act_flags split: option.splits)

text \<open>After the stream is over, and until the connection is closed, no read returns.\<close>

lemma over_act:
  assumes "conn_act e s = Some s'" and "ends_ok s" and "es_over s" and "\<not> kn_stdout_closed (es_conn s')"
  shows "es_over s' \<and> ip_reads (es_stdout s') = ip_reads (es_stdout s)"
proof -
  have "\<not> kn_stdout_closed (es_conn s)" using conn_act_flags[OF assms(1)] assms(4) by blast
  with assms show ?thesis
    by (cases e) (auto simp: act_defs close_defs ends_ok_def ip_done_def dest!: pipe_reads split: if_splits)
qed

lemma over_acts:
  assumes "conn_acts us s = Some s'" and "ends_ok s" and "es_over s" and "\<not> kn_stdout_closed (es_conn s')"
  shows "ip_reads (es_stdout s') = ip_reads (es_stdout s)"
  using assms
proof (induction us arbitrary: s)
  case (Cons e us)
  then obtain s1 where e: "conn_act e s = Some s1" and us: "conn_acts us s1 = Some s'" by (auto split: option.splits)
  have "\<not> kn_stdout_closed (es_conn s1)" using conn_acts_flags[OF us] Cons.prems(4) by blast
  note o = over_act[OF e Cons.prems(2,3) this]
  with Cons.IH[OF us conn_act_ends[OF e Cons.prems(2)]] Cons.prems(4) show ?case by simp
qed simp

lemma open_stream_ok: "ends_ok (open_stream (new_conn x)) \<and> no_end_seen (open_stream (new_conn x))"
  by (simp add: ends_ok_def no_end_seen_def open_stream_def new_conn_def new_pipe_def)

lemma opened_ends:
  assumes "conn_acts es (open_stream (new_conn x)) = Some s"
  shows "ends_ok s \<and> no_end_seen s"
  using conn_acts_seen[OF assms] open_stream_ok by blast

section \<open>Properties\<close>

text \<open>
  C34: A connection carries bytes. In every run, whatever the sizes of the writes and of the buffers and
  the order in which the two sides get on, what the command has read from its input is the
  beginning of what was written to the connection, in order, and while the input is open the rest is
  the write under way; what the connection has read is, in the same way, the beginning of what the
  command has written. The counts that the writes return add up to the bytes that were taken, also
  when a write is cut short by closing the connection.
\<close>

theorem conn_bytes:
  assumes "conn_acts es (open_stream (new_conn x)) = Some s"
  shows "(\<exists>rest. conn_wrote es = passed (es_stdin s) @ under_way (es_stdin s) @ rest \<and>
           (\<not> kn_stdin_closed (es_conn s) \<longrightarrow> rest = [])) \<and>
    (\<exists>rest. stream_wrote es = passed (es_stdout s) @ under_way (es_stdout s) @ rest \<and>
           (\<not> kn_stdout_closed (es_conn s) \<longrightarrow> rest = [])) \<and>
    counted (es_stdin s) = length (passed (es_stdin s)) \<and> counted (es_stdout s) = length (passed (es_stdout s))"
proof -
  have "pipe_ok (conn_wrote es) (es_stdin s)" "pipe_ok (stream_wrote es) (es_stdout s)"
    using conn_acts_bytes[OF assms, of "[]" "[]"] by (simp_all add: open_stream_def pipe_ok_new)
  with opened_ends[OF assms] show ?thesis by (auto simp: pipe_ok_def prefix_def ends_ok_def ip_done_def)
qed

text \<open>
  C35: The end of the input is passed on, the end of the command is not. Once the input of a connection
  is closed, every read that the command begins is told the end of the file. But in no run does a
  read of the connection return the end of the file: it returns bytes, or the error of a closed
  pipe after the connection was closed by its own side. When the stream has ended, with an error or without one, no read returns any more until then.
\<close>

theorem conn_never_ends:
  assumes "conn_acts es (open_stream (new_conn x)) = Some s"
  shows "(kn_stdin_closed (es_conn s) \<longrightarrow>
       (\<forall>n. \<exists>s'. stream_read n s = Some s' \<and> ip_reads (es_stdin s') = ip_reads (es_stdin s) @ [([], Some EOF)])) \<and>
    list_all (\<lambda>(b, err). err = None \<or> err = Some ErrClosedPipe \<and> b = [] \<and> kn_stdout_closed (es_conn s)) (ip_reads (es_stdout s)) \<and>
    (es_over s \<longrightarrow> (\<forall>us s'. conn_acts us s = Some s' \<and> \<not> kn_stdout_closed (es_conn s') \<longrightarrow>
       ip_reads (es_stdout s') = ip_reads (es_stdout s)))"
proof (intro conjI impI allI)
  note ok = opened_ends[OF assms]
  then show "list_all (\<lambda>(b, err). err = None \<or> err = Some ErrClosedPipe \<and> b = [] \<and> kn_stdout_closed (es_conn s)) (ip_reads (es_stdout s))"
    by (simp add: no_end_seen_def)
  show "\<exists>s'. stream_read n s = Some s' \<and> ip_reads (es_stdin s') = ip_reads (es_stdin s) @ [([], Some EOF)]"
    if "kn_stdin_closed (es_conn s)" for n
    using ok that by (auto simp: stream_read_def begin_read_def ends_ok_def ip_done_def readCloseError_def)
  show "ip_reads (es_stdout s') = ip_reads (es_stdout s)"
    if "es_over s" "conn_acts us s = Some s' \<and> \<not> kn_stdout_closed (es_conn s')" for us s'
    using over_acts ok that by blast
qed

section \<open>An example\<close>

definition example_target :: exec_conn where
  "example_target = \<lparr>x_namespace = ''default'', x_pod = ''buildkit-0'', x_container = ''buildkitd'', x_cmd = [''buildctl'', ''dial-stdio'']\<rparr>"

text \<open>The command reads a request in two pieces, answers it, and fails while the answer to the next
  request is awaited.\<close>

definition example_acts :: "conn_event list" where
  "example_acts =
     [ConnWrite ''ping'', StreamRead 1, InWakes Meet, StreamRead 9, InWakes Meet, StreamWrite ''pong'', ConnRead 8, OutWakes Meet,
      StreamOver (Some (External ''lost connection'')), ConnRead 8]"

lemma example_acts_run:
  obtains s where "conn_acts example_acts (open_stream (new_conn example_target)) = Some s"
    "passed (es_stdin s) = ''ping''" "es_over s" "ip_reads (es_stdout s) = [(''pong'', None)]"
  by (simp add: example_acts_def act_defs pipe_defs open_stream_def new_pipe_def new_conn_def ip_done_def passed_def Let_def)

theorem conn_bytes_witness:
  "\<exists>s rest. conn_acts example_acts (open_stream (new_conn example_target)) = Some s \<and>
     ''ping'' = ''ping'' @ under_way (es_stdin s) @ rest \<and> counted (es_stdin s) = 4"
proof -
  obtain s where s: "conn_acts example_acts (open_stream (new_conn example_target)) = Some s" "passed (es_stdin s) = ''ping''"
    by (rule example_acts_run)
  moreover have "conn_wrote example_acts = ''ping''" by (simp add: example_acts_def)
  ultimately show ?thesis using conn_bytes[OF s(1)] by auto
qed

theorem conn_never_ends_witness:
  "\<exists>s. conn_acts example_acts (open_stream (new_conn example_target)) = Some s \<and>
     (\<forall>us s'. conn_acts us s = Some s' \<and> \<not> kn_stdout_closed (es_conn s') \<longrightarrow> ip_reads (es_stdout s') = [(''pong'', None)])"
proof -
  obtain s where s: "conn_acts example_acts (open_stream (new_conn example_target)) = Some s" "es_over s"
    "ip_reads (es_stdout s) = [(''pong'', None)]"
    by (rule example_acts_run)
  with conn_never_ends[OF s(1)] show ?thesis by auto
qed

end
