(* ===== verification/FlagParsers.thy ===== *)
theory FlagParsers
  imports GoEncoding
begin

text \<open>
  The flag parsers of \<open>pkg/build\<close>: \<open>ssh.go\<close>, \<open>secrets.go\<close>,
  \<open>entitlements.go\<close>, \<open>cache.go\<close>, \<open>output.go\<close> and \<open>utils.go\<close>. Each turns
  the values of one command-line flag into the structures that a build request carries.
  What they hand over to other packages (the SSH agent provider, the secret store) is a
  parameter; the file system and the console that \<open>ParseOutputs\<close> looks at are an
  explicit state.
\<close>

section \<open>SSH agents (ssh.go)\<close>

record agent_config =
  ac_id :: string
  ac_paths :: "string list"

definition parseSSH :: "string \<Rightarrow> agent_config result" where
  "parseSSH value =
     (let parts = splitn2 EQ value in
      Ok \<lparr>ac_id = parts ! 0,
          ac_paths = (if length parts > 1 then split_on COMMA (parts ! 1) else [])\<rparr>)"

definition ParseSSHSpecs :: "(agent_config list \<Rightarrow> 'p result) \<Rightarrow> string list \<Rightarrow> 'p result" where
  "ParseSSHSpecs new_agent_provider sl = and_then (map_res parseSSH sl) new_agent_provider"

section \<open>Secrets (secrets.go)\<close>

record secret_source =
  ss_id :: string
  ss_file :: string

definition secret_field :: "secret_source \<Rightarrow> string \<Rightarrow> secret_source result" where
  "secret_field fs field =
     (let parts = splitn2 EQ field; key = to_lower (parts ! 0) in
      if length parts \<noteq> 2 then Err (Errorf ''invalid field %s must be a key=value pair'' [field])
      else
        let value = parts ! 1 in
        if key = ''type'' then
          (if value \<noteq> ''file'' then Err (Errorf ''unsupported secret type %q'' [value]) else Ok fs)
        else if key = ''id'' then Ok (fs\<lparr>ss_id := value\<rparr>)
        else if key = ''source'' \<or> key = ''src'' then Ok (fs\<lparr>ss_file := value\<rparr>)
        else Err (Errorf ''unexpected key %s in %s'' [key, field]))"

definition parseSecret :: "string \<Rightarrow> secret_source result" where
  "parseSecret value =
     (case csv_read value of
        Inl e \<Rightarrow> Err (Wrapf e ''failed to parse csv secret'' [])
      | Inr flds \<Rightarrow> fold_res secret_field \<lparr>ss_id = [], ss_file = []\<rparr> flds)"

definition ParseSecretSpecs :: "(secret_source list \<Rightarrow> 'p result) \<Rightarrow> string list \<Rightarrow> 'p result" where
  "ParseSecretSpecs new_store sl = and_then (map_res parseSecret sl) new_store"

section \<open>Entitlements (entitlements.go)\<close>

datatype entitlement = EntitlementSecurityInsecure | EntitlementNetworkHost

definition parse_entitlement :: "string \<Rightarrow> entitlement result" where
  "parse_entitlement v =
     (if v = ''security.insecure'' then Ok EntitlementSecurityInsecure
      else if v = ''network.host'' then Ok EntitlementNetworkHost
      else Err (Errorf ''invalid entitlement: %v'' [v]))"

definition ParseEntitlements :: "string list \<Rightarrow> entitlement list result" where
  "ParseEntitlements ins = map_res parse_entitlement ins"

section \<open>Cache imports and exports (cache.go)\<close>

record cache_entry =
  ce_type :: string
  ce_attrs :: "string \<rightharpoonup> string"

definition isRefOnlyFormat :: "string list \<Rightarrow> bool" where
  "isRefOnlyFormat ins \<longleftrightarrow> list_all (\<lambda>v. \<not> contains_str v [EQ]) ins"

definition cache_field :: "cache_entry \<Rightarrow> string \<Rightarrow> cache_entry result" where
  "cache_field im field =
     (let parts = splitn2 EQ field in
      if length parts \<noteq> 2 then Err (Errorf ''invalid value %s'' [field])
      else
        let key = to_lower (parts ! 0); value = parts ! 1 in
        if key = ''type'' then Ok (im\<lparr>ce_type := value\<rparr>)
        else Ok (im\<lparr>ce_attrs := (ce_attrs im)(key \<mapsto> value)\<rparr>))"

definition parse_cache_value :: "string \<Rightarrow> cache_entry list result" where
  "parse_cache_value s =
     and_then (csv_read s) (\<lambda>flds.
       if isRefOnlyFormat flds then
         Ok (map (\<lambda>field. \<lparr>ce_type = ''registry'', ce_attrs = [''ref'' \<mapsto> field]\<rparr>) flds)
       else
         and_then (fold_res cache_field \<lparr>ce_type = [], ce_attrs = Map.empty\<rparr> flds) (\<lambda>im.
           if ce_type im = [] then Err (Errorf ''type required form> %q'' [s]) else Ok [im]))"

definition ParseCacheEntry :: "string list \<Rightarrow> cache_entry list result" where
  "ParseCacheEntry ins = and_then (map_res parse_cache_value ins) (\<lambda>iss. Ok (concat iss))"

section \<open>Archives and extra hosts (utils.go)\<close>

definition archiveHeaderSize :: nat where
  "archiveHeaderSize = 512"

definition archive_magics :: "string list" where
  "archive_magics =
     [[CHR 0x42, CHR 0x5A, CHR 0x68],
      [CHR 0x1F, CHR 0x8B, CHR 0x08],
      [CHR 0xFD, CHR 0x37, CHR 0x7A, CHR 0x58, CHR 0x5A, CHR 0x00]]"

text \<open>\<open>tar_next_ok\<close> is whether \<open>archive/tar\<close> reads a first entry from the bytes.\<close>

definition isArchive :: "(string \<Rightarrow> bool) \<Rightarrow> string \<Rightarrow> bool" where
  "isArchive tar_next_ok header \<longleftrightarrow>
     list_ex (\<lambda>m. \<not> length header < length m \<and> take (length m) header = m) archive_magics
     \<or> tar_next_ok header"

definition extra_host :: "string \<Rightarrow> string result" where
  "extra_host h =
     (let parts = split_on CHR '':'' h in
      if length parts \<noteq> 2 \<or> parts ! 0 = [] \<or> parse_ipv4 (parts ! 1) = None
      then Err (Errorf ''invalid host %s'' [h])
      else Ok (parts ! 0 @ [EQ] @ parts ! 1))"

definition toBuildkitExtraHosts :: "string list \<Rightarrow> string result" where
  "toBuildkitExtraHosts inp =
     (if inp = [] then Ok []
      else and_then (map_res extra_host inp) (\<lambda>hosts. Ok (join_with [COMMA] hosts)))"

section \<open>Outputs (output.go)\<close>

text \<open>
  Where an export writes: nowhere special, the standard output, a created file, or (set
  later by the build) the pipe of an image loader.
\<close>

datatype writer = WStdout | WFile string | WLoader string "string list"

record export_entry =
  ee_type :: string
  ee_attrs :: "string \<rightharpoonup> string"
  ee_output :: "writer option"
  ee_output_dir :: string

datatype file_stat = NotExist | StatFails string | IsFile | IsDir

text \<open>The machine as \<open>ParseOutputs\<close> sees it: whether the standard output is a console,
  what \<open>os.Stat\<close> says of a path, and whether \<open>os.Create\<close> fails for it.\<close>

record machine =
  stdout_console :: bool
  stat_of :: "string \<Rightarrow> file_stat"
  create_error :: "string \<Rightarrow> string option"

definition os_create :: "string \<Rightarrow> machine \<Rightarrow> writer result \<times> machine" where
  "os_create dest m =
     (case create_error m dest of
        Some e \<Rightarrow> (Err (Errorf ''failed to open %s'' [e]), m)
      | None \<Rightarrow> (Ok (WFile dest), m\<lparr>stat_of := (stat_of m)(dest := IsFile)\<rparr>))"

definition output_field :: "export_entry \<Rightarrow> string \<Rightarrow> export_entry result" where
  "output_field out field =
     (let parts = splitn2 EQ field in
      if length parts \<noteq> 2 then Err (Errorf ''invalid value %s'' [field])
      else
        let key = trim_space (to_lower (parts ! 0)); value = parts ! 1 in
        if key = ''type'' then Ok (out\<lparr>ee_type := value\<rparr>)
        else Ok (out\<lparr>ee_attrs := (ee_attrs out)(key \<mapsto> value)\<rparr>))"

definition delete_dest :: "export_entry \<Rightarrow> export_entry" where
  "delete_dest out = out\<lparr>ee_attrs := (ee_attrs out)(''dest'' := None)\<rparr>"

text \<open>The destination of an \<open>oci\<close>, \<open>docker\<close> or \<open>tar\<close> export.\<close>

definition output_dest :: "export_entry \<Rightarrow> machine \<Rightarrow> export_entry result \<times> machine" where
  "output_dest out m =
     (let dest = (case ee_attrs out ''dest'' of
            Some d \<Rightarrow> d
          | None \<Rightarrow> if ee_type out \<noteq> ''docker'' then ''-'' else [])
      in if dest = ''-'' then
           (if stdout_console m
            then (Err (Errorf ''output file is required for %s exporter. refusing to write to console''
                       [ee_type out]), m)
            else (Ok (delete_dest (out\<lparr>ee_output := Some WStdout\<rparr>)), m))
         else if dest \<noteq> [] then
           (case stat_of m dest of
              StatFails e \<Rightarrow> (Err (Wrapf (External e) ''invalid destination file: %s'' [dest]), m)
            | IsDir \<Rightarrow> (Err (Errorf ''destination file %s is a directory'' [dest]), m)
            | _ \<Rightarrow> (case os_create dest m of
                (Inl e, m') \<Rightarrow> (Err e, m')
              | (Inr w, m') \<Rightarrow> (Ok (delete_dest (out\<lparr>ee_output := Some w\<rparr>)), m')))
         else (Ok (delete_dest out), m))"

definition output_client_side :: "export_entry \<Rightarrow> machine \<Rightarrow> export_entry result \<times> machine" where
  "output_client_side out m =
     (if ee_type out = ''local'' then
        (case ee_attrs out ''dest'' of
           None \<Rightarrow> (Err (Errorf ''dest is required for local output'' []), m)
         | Some dest \<Rightarrow> (Ok (delete_dest (out\<lparr>ee_output_dir := dest\<rparr>)), m))
      else if ee_type out = ''oci'' \<or> ee_type out = ''docker'' \<or> ee_type out = ''tar'' then
        output_dest out m
      else if ee_type out = ''registry'' then
        (Ok (out\<lparr>ee_type := ''image'', ee_attrs := (ee_attrs out)(''push'' \<mapsto> ''true'')\<rparr>), m)
      else (Ok out, m))"

definition new_export :: "string \<Rightarrow> (string \<rightharpoonup> string) \<Rightarrow> export_entry" where
  "new_export t a = \<lparr>ee_type = t, ee_attrs = a, ee_output = None, ee_output_dir = []\<rparr>"

definition parse_output :: "string \<Rightarrow> machine \<Rightarrow> export_entry result \<times> machine" where
  "parse_output s m =
     (case csv_read s of
        Inl e \<Rightarrow> (Err e, m)
      | Inr flds \<Rightarrow>
          (let short = (length flds = 1 \<and> flds ! 0 = s \<and> \<not> has_prefix s ''type='') in
           if short \<and> s \<noteq> ''-'' then (Ok ((new_export ''local'' Map.empty)\<lparr>ee_output_dir := s\<rparr>), m)
           else
             let out = (if short then new_export ''tar'' [''dest'' \<mapsto> s] else new_export [] Map.empty) in
             case (if ee_type out = [] then fold_res output_field out flds else Ok out) of
               Inl e \<Rightarrow> (Err e, m)
             | Inr out' \<Rightarrow>
                 (if ee_type out' = [] then (Err (Errorf ''type is required for output'' []), m)
                  else output_client_side out' m)))"

text \<open>The loop returns at the first error; the files created before stay.\<close>

fun ParseOutputs :: "string list \<Rightarrow> machine \<Rightarrow> export_entry list result \<times> machine" where
  "ParseOutputs [] m = (Ok [], m)"
| "ParseOutputs (s # ss) m =
     (case parse_output s m of
        (Inl e, m') \<Rightarrow> (Err e, m')
      | (Inr out, m') \<Rightarrow>
          (case ParseOutputs ss m' of
             (Inl e, m'') \<Rightarrow> (Err e, m'')
           | (Inr outs, m'') \<Rightarrow> (Ok (out # outs), m'')))"

section \<open>Facts about the field loops\<close>

text \<open>A field as a user writes it, and what a sequence of fields means: of several
  values for one key the last one wins.\<close>

definition render_field :: "string \<times> string \<Rightarrow> string" where
  "render_field kv = fst kv @ EQ # snd kv"

definition last_value :: "(string \<Rightarrow> bool) \<Rightarrow> string \<Rightarrow> (string \<times> string) list \<Rightarrow> string" where
  "last_value p d kvs = foldl (\<lambda>d kv. if p (fst kv) then snd kv else d) d kvs"

definition attrs_of :: "(string \<Rightarrow> string) \<Rightarrow> (string \<times> string) list \<Rightarrow> (string \<rightharpoonup> string)" where
  "attrs_of norm kvs =
     map_of (rev (map (\<lambda>kv. (norm (fst kv), snd kv))
       (filter (\<lambda>kv. norm (fst kv) \<noteq> ''type'') kvs)))"

text \<open>The fields can stand on one line of a CSV record.\<close>

definition field_ok :: "string \<times> string \<Rightarrow> bool" where
  "field_ok kv \<longleftrightarrow>
     EQ \<notin> set (fst kv) \<and> LF \<notin> set (render_field kv) \<and> CR \<notin> set (render_field kv)"

lemma last_value_simps [simp]:
  "last_value p d [] = d"
  "last_value p d (kv # kvs) = last_value p (if p (fst kv) then snd kv else d) kvs"
  by (simp_all add: last_value_def)

lemma splitn2_render [simp]: "EQ \<notin> set (fst kv) \<Longrightarrow> splitn2 EQ (render_field kv) = [fst kv, snd kv]"
  by (simp add: render_field_def splitn2_cut)

lemma csv_read_render:
  "kvs \<noteq> [] \<Longrightarrow> list_all field_ok kvs \<Longrightarrow>
     csv_read (csv_encode (map render_field kvs)) = Ok (map render_field kvs)"
  by (rule csv_read_encode) (auto simp: list_all_iff field_ok_def)

lemma fold_cache_fields:
  "list_all field_ok kvs \<Longrightarrow>
     fold_res cache_field im (map render_field kvs) =
       Ok (im\<lparr>ce_type := last_value (\<lambda>k. to_lower k = ''type'') (ce_type im) kvs,
              ce_attrs := ce_attrs im ++ attrs_of to_lower kvs\<rparr>)"
  by (induction kvs arbitrary: im)
    (auto simp: field_ok_def cache_field_def Let_def attrs_of_def)

lemma fold_output_fields:
  "list_all field_ok kvs \<Longrightarrow>
     fold_res output_field out (map render_field kvs) =
       Ok (out\<lparr>ee_type := last_value (\<lambda>k. trim_space (to_lower k) = ''type'') (ee_type out) kvs,
              ee_attrs := ee_attrs out ++ attrs_of (\<lambda>k. trim_space (to_lower k)) kvs\<rparr>)"
  by (induction kvs arbitrary: out)
    (auto simp: field_ok_def output_field_def Let_def attrs_of_def)

definition secret_key_ok :: "string \<times> string \<Rightarrow> bool" where
  "secret_key_ok kv \<longleftrightarrow>
     (let key = to_lower (fst kv) in
      key = ''id'' \<or> key = ''src'' \<or> key = ''source'' \<or> key = ''type'' \<and> snd kv = ''file'')"

lemma fold_secret_fields:
  "list_all field_ok kvs \<Longrightarrow> list_all secret_key_ok kvs \<Longrightarrow>
     fold_res secret_field fs (map render_field kvs) =
       Ok (fs\<lparr>ss_id := last_value (\<lambda>k. to_lower k = ''id'') (ss_id fs) kvs,
              ss_file := last_value (\<lambda>k. to_lower k = ''src'' \<or> to_lower k = ''source'') (ss_file fs) kvs\<rparr>)"
  by (induction kvs arbitrary: fs)
    (auto simp: field_ok_def secret_key_ok_def secret_field_def Let_def)

lemma secret_field_rejects:
  "field_ok kv \<Longrightarrow> \<not> secret_key_ok kv \<Longrightarrow> \<exists>e. secret_field fs (render_field kv) = Err e"
  by (auto simp: field_ok_def secret_key_ok_def secret_field_def Let_def)

lemma fold_secret_fields_rejects:
  "list_all field_ok kvs \<Longrightarrow> \<not> list_all secret_key_ok kvs \<Longrightarrow>
     \<exists>e. fold_res secret_field fs (map render_field kvs) = Err e"
proof (induction kvs arbitrary: fs)
  case Nil
  then show ?case by simp
next
  case (Cons kv kvs)
  show ?case
  proof (cases "secret_field fs (render_field kv)")
    case (Inl e)
    then show ?thesis by simp
  next
    case (Inr fs')
    then have "secret_key_ok kv" using Cons.prems(1) secret_field_rejects[of kv fs] by fastforce
    then show ?thesis using Cons Inr by simp
  qed
qed

lemma isRefOnlyFormat_render: "kvs \<noteq> [] \<Longrightarrow> \<not> isRefOnlyFormat (map render_field kvs)"
  by (cases kvs) (auto simp: isRefOnlyFormat_def contains_char_iff render_field_def)

section \<open>Properties of the parsers\<close>

text \<open>
  A secret flag, written as a quoted CSV record of key=value fields, is accepted exactly
  when every key is (in any case) id, src, source, or type with the value file; it then
  yields the last id and the last path that were given.
\<close>

theorem parseSecret_spec:
  assumes "kvs \<noteq> []" and "list_all field_ok kvs"
  shows "if list_all secret_key_ok kvs
    then parseSecret (csv_encode (map render_field kvs)) =
      Ok \<lparr>ss_id = last_value (\<lambda>k. to_lower k = ''id'') [] kvs,
          ss_file = last_value (\<lambda>k. to_lower k = ''src'' \<or> to_lower k = ''source'') [] kvs\<rparr>
    else (\<exists>e. parseSecret (csv_encode (map render_field kvs)) = Err e)"
  using assms fold_secret_fields_rejects[OF assms(2)]
  by (simp add: parseSecret_def csv_read_render fold_secret_fields)

theorem parseSecret_spec_example:
  "parseSecret (csv_encode [''ID=mysecret'', ''src=/a,b'']) =
     Ok \<lparr>ss_id = ''mysecret'', ss_file = ''/a,b''\<rparr>"
proof -
  let ?kvs = "[(''ID'', ''mysecret''), (''src'', ''/a,b'')]"
  have "to_lower ''ID'' = ''id''" "to_lower ''src'' = ''src''" by code_simp+
  then have "list_all field_ok ?kvs" "list_all secret_key_ok ?kvs"
    and "last_value (\<lambda>k. to_lower k = ''id'') [] ?kvs = ''mysecret''"
    and "last_value (\<lambda>k. to_lower k = ''src'' \<or> to_lower k = ''source'') [] ?kvs = ''/a,b''"
    by (simp_all add: field_ok_def secret_key_ok_def render_field_def)
  then show ?thesis using parseSecret_spec[of ?kvs] by (simp add: render_field_def)
qed

text \<open>
  A cache flag of key=value fields yields one entry with the last type given and, for
  every other key in lower case, the last value given; without a type (or with an empty
  one) it is refused. Quoting protects commas and quotes inside the values.
\<close>

theorem ParseCacheEntry_fields:
  assumes "kvs \<noteq> []" and "list_all field_ok kvs"
  shows "ParseCacheEntry [csv_encode (map render_field kvs)] =
    (let t = last_value (\<lambda>k. to_lower k = ''type'') [] kvs in
     if t = [] then Err (Errorf ''type required form> %q'' [csv_encode (map render_field kvs)])
     else Ok [\<lparr>ce_type = t, ce_attrs = attrs_of to_lower kvs\<rparr>])"
  using assms
  by (simp add: ParseCacheEntry_def parse_cache_value_def csv_read_render isRefOnlyFormat_render
      fold_cache_fields Let_def)

theorem ParseCacheEntry_fields_example:
  "ParseCacheEntry [csv_encode [''type=local'', ''SRC=a,b'', ''mode=max'', ''src=c'']] =
     Ok [\<lparr>ce_type = ''local'', ce_attrs = [''src'' \<mapsto> ''c'', ''mode'' \<mapsto> ''max'']\<rparr>]"
proof -
  let ?kvs = "[(''type'', ''local''), (''SRC'', ''a,b''), (''mode'', ''max''), (''src'', ''c'')]"
  have "to_lower ''type'' = ''type''" "to_lower ''SRC'' = ''src''" "to_lower ''mode'' = ''mode''"
    "to_lower ''src'' = ''src''" by code_simp+
  then have "list_all field_ok ?kvs"
    and "last_value (\<lambda>k. to_lower k = ''type'') [] ?kvs = ''local''"
    and "attrs_of to_lower ?kvs = [''src'' \<mapsto> ''c'', ''mode'' \<mapsto> ''max'']"
    by (simp_all add: field_ok_def attrs_of_def render_field_def fun_eq_iff)
  then show ?thesis using ParseCacheEntry_fields[of ?kvs] by (simp add: render_field_def)
qed

text \<open>
  A cache flag without quotes and without an equals sign is a comma-separated list of
  image references, and becomes one registry entry per reference, in order.
\<close>

theorem ParseCacheEntry_refs:
  assumes "csv_plain s" and "s \<noteq> []" and "EQ \<notin> set s"
  shows "ParseCacheEntry [s] =
    Ok (map (\<lambda>r. \<lparr>ce_type = ''registry'', ce_attrs = [''ref'' \<mapsto> r]\<rparr>) (split_on COMMA s))"
proof -
  have "isRefOnlyFormat (split_on COMMA s)"
    using assms(3) by (auto simp: isRefOnlyFormat_def list_all_iff contains_char_iff dest: set_split_on)
  with assms(1,2) show ?thesis
    by (simp add: ParseCacheEntry_def parse_cache_value_def csv_read_plain)
qed

theorem ParseCacheEntry_refs_example:
  "ParseCacheEntry [''user/app:cache,user/b''] =
     Ok [\<lparr>ce_type = ''registry'', ce_attrs = [''ref'' \<mapsto> ''user/app:cache'']\<rparr>,
         \<lparr>ce_type = ''registry'', ce_attrs = [''ref'' \<mapsto> ''user/b'']\<rparr>]"
  using ParseCacheEntry_refs[of "''user/app:cache,user/b''"] by simp

text \<open>
  What every parsed output satisfies: its type is neither empty nor the shorthand
  \<open>registry\<close>, the destination has been consumed for the types that write on the client,
  and a local export has no writer.
\<close>

definition export_wf :: "export_entry \<Rightarrow> bool" where
  "export_wf e \<longleftrightarrow>
     ee_type e \<noteq> [] \<and> ee_type e \<noteq> ''registry'' \<and>
     (ee_type e \<in> {''local'', ''oci'', ''docker'', ''tar''} \<longrightarrow> ee_attrs e ''dest'' = None) \<and>
     (ee_type e \<notin> {''oci'', ''docker'', ''tar''} \<longrightarrow> ee_output e = None)"

lemma delete_dest_sel [simp]:
  "ee_type (delete_dest out) = ee_type out"
  "ee_output (delete_dest out) = ee_output out"
  "ee_output_dir (delete_dest out) = ee_output_dir out"
  "ee_attrs (delete_dest out) ''dest'' = None"
  by (simp_all add: delete_dest_def)

lemma output_dest_cases:
  assumes "output_dest out m = (Ok e, m')"
  shows "ee_type e = ee_type out \<and> ee_attrs e ''dest'' = None \<and>
    (stdout_console m \<longrightarrow> ee_output out \<noteq> Some WStdout \<longrightarrow> ee_output e \<noteq> Some WStdout)"
  using assms
  by (auto simp: output_dest_def os_create_def Let_def
      split: if_splits option.splits file_stat.splits sum.splits prod.splits)

lemma output_dest_machine:
  assumes "output_dest out m = (r, m')"
  shows "stdout_console m' = stdout_console m \<and> create_error m' = create_error m \<and>
    (\<forall>d. stat_of m' d \<noteq> stat_of m d \<longrightarrow> stat_of m d = NotExist \<and> stat_of m' d = IsFile)"
  using assms
  by (auto simp: output_dest_def os_create_def Let_def
      split: if_splits option.splits file_stat.splits sum.splits prod.splits)

lemma output_fields_no_writer:
  "fold_res output_field out flds = Ok out' \<Longrightarrow> ee_output out' = ee_output out"
  by (rule fold_res_invariant[of "\<lambda>o'. ee_output o' = ee_output out"])
    (auto simp: output_field_def Let_def split: if_splits)

lemma client_side_post:
  assumes "output_client_side out m = (Ok e, m')" and "ee_output out = None" and "ee_type out \<noteq> []"
  shows "export_wf e \<and> (stdout_console m \<longrightarrow> ee_output e \<noteq> Some WStdout)"
proof (cases "ee_type out \<in> {''oci'', ''docker'', ''tar''}")
  case True
  then have "output_dest out m = (Ok e, m')" using assms(1) by (auto simp: output_client_side_def)
  from output_dest_cases[OF this] True assms(2) show ?thesis by (auto simp: export_wf_def)
next
  case False
  with assms show ?thesis
    by (auto simp: output_client_side_def export_wf_def split: if_splits option.splits)
qed

lemma client_side_machine:
  assumes "output_client_side out m = (r, m')"
  shows "stdout_console m' = stdout_console m \<and> create_error m' = create_error m \<and>
    (\<forall>d. stat_of m' d \<noteq> stat_of m d \<longrightarrow> stat_of m d = NotExist \<and> stat_of m' d = IsFile)"
proof (cases "ee_type out \<in> {''oci'', ''docker'', ''tar''}")
  case True
  then have "output_dest out m = (r, m')" using assms by (auto simp: output_client_side_def)
  then show ?thesis by (rule output_dest_machine)
next
  case False
  with assms show ?thesis by (auto simp: output_client_side_def split: if_splits option.splits)
qed

lemma parse_output_machine:
  assumes "parse_output s m = (r, m')"
  shows "stdout_console m' = stdout_console m \<and> create_error m' = create_error m \<and>
    (\<forall>d. stat_of m' d \<noteq> stat_of m d \<longrightarrow> stat_of m d = NotExist \<and> stat_of m' d = IsFile)"
proof (cases "m' = m")
  case True
  then show ?thesis by simp
next
  case False
  then obtain out where "output_client_side out m = (r, m')"
    using assms by (auto simp: parse_output_def Let_def split: sum.splits if_splits)
  then show ?thesis by (rule client_side_machine)
qed

lemma parse_output_post:
  assumes "parse_output s m = (Ok e, m')"
  shows "export_wf e \<and> (stdout_console m \<longrightarrow> ee_output e \<noteq> Some WStdout)"
proof -
  consider (short) "e = (new_export ''local'' Map.empty)\<lparr>ee_output_dir := s\<rparr>"
    | (long) out where "output_client_side out m = (Ok e, m')" "ee_output out = None" "ee_type out \<noteq> []"
    using assms output_fields_no_writer
    by (fastforce simp: parse_output_def Let_def new_export_def split: sum.splits if_splits)
  then show ?thesis
  proof cases
    case short
    then show ?thesis by (simp add: export_wf_def new_export_def)
  next
    case long
    then show ?thesis by (rule client_side_post)
  qed
qed

lemmas stat_frameD = parse_output_machine[THEN conjunct2, THEN conjunct2, rule_format]

text \<open>
  Whatever the output flags are, parsing them touches no existing directory and no path
  that \<open>os.Stat\<close> rejects: a path whose state changes did not exist before and is a plain
  file afterwards (also when a later flag is in error and the command stops).
\<close>

theorem ParseOutputs_frame:
  assumes "stat_of (snd (ParseOutputs ss m)) d \<noteq> stat_of m d"
  shows "stat_of m d = NotExist \<and> stat_of (snd (ParseOutputs ss m)) d = IsFile"
  using assms
proof (induction ss arbitrary: m)
  case Nil
  then show ?case by simp
next
  case (Cons s ss)
  obtain r m' where r: "parse_output s m = (r, m')" by fastforce
  show ?case
  proof (cases r)
    case (Inl e)
    with r Cons.prems show ?thesis using stat_frameD[OF r] by simp
  next
    case (Inr out)
    with r have tail: "snd (ParseOutputs (s # ss) m) = snd (ParseOutputs ss m')"
      by (simp split: prod.splits sum.splits)
    show ?thesis
    proof (cases "stat_of m' d = stat_of m d")
      case True
      then show ?thesis using Cons.IH[of m'] Cons.prems tail by simp
    next
      case False
      then show ?thesis using stat_frameD[OF r False] Cons.IH[of m'] tail by fastforce
    qed
  qed
qed

theorem ParseOutputs_frame_example:
  "stat_of (snd (ParseOutputs [''type=tar,dest=o.tar'', ''bad=x'']
      \<lparr>stdout_console = False, stat_of = (\<lambda>_. NotExist), create_error = (\<lambda>_. None)\<rparr>)) ''o.tar''
    = IsFile"
proof -
  let ?m = "\<lparr>stdout_console = False, stat_of = (\<lambda>_. NotExist), create_error = (\<lambda>_. None)\<rparr>"
  have "csv_read ''type=tar,dest=o.tar'' = Ok [''type=tar'', ''dest=o.tar'']"
    "csv_read ''bad=x'' = Ok [''bad=x'']" by (simp_all add: csv_read_plain)
  moreover have "splitn2 EQ ''type=tar'' = [''type'', ''tar'']" "splitn2 EQ ''dest=o.tar'' = [''dest'', ''o.tar'']"
    "splitn2 EQ ''bad=x'' = [''bad'', ''x'']" by (simp_all add: splitn2_def)
  moreover have "trim_space (to_lower ''type'') = ''type''" "trim_space (to_lower ''dest'') = ''dest''"
    "trim_space (to_lower ''bad'') = ''bad''" by code_simp+
  ultimately have "stat_of (snd (ParseOutputs [''type=tar,dest=o.tar'', ''bad=x''] ?m)) ''o.tar'' \<noteq> stat_of ?m ''o.tar''"
    by (simp add: parse_output_def output_field_def new_export_def output_client_side_def output_dest_def
        os_create_def delete_dest_def has_prefix_def Let_def)
  from ParseOutputs_frame[OF this] show ?thesis by simp
qed

text \<open>
  Every output that the parser accepts is well formed, and when the standard output is
  a console none of them writes to it.
\<close>

theorem ParseOutputs_wf:
  assumes "ParseOutputs ss m = (Ok outs, m')"
  shows "list_all export_wf outs \<and> length outs = length ss \<and>
    (stdout_console m \<longrightarrow> list_all (\<lambda>e. ee_output e \<noteq> Some WStdout) outs)"
  using assms
proof (induction ss arbitrary: m outs)
  case Nil
  then show ?case by simp
next
  case (Cons s ss)
  then obtain out m1 outs' where
    out: "parse_output s m = (Ok out, m1)" "ParseOutputs ss m1 = (Ok outs', m')" "outs = out # outs'"
    by (auto split: prod.splits sum.splits)
  with Cons.IH[of m1 outs'] parse_output_post[OF out(1)] parse_output_machine[OF out(1)]
  show ?case by simp
qed

theorem ParseOutputs_wf_example:
  "list_all export_wf [(new_export ''local'' Map.empty)\<lparr>ee_output_dir := ''out''\<rparr>]"
proof -
  let ?m = "\<lparr>stdout_console = True, stat_of = (\<lambda>_. NotExist), create_error = (\<lambda>_. None)\<rparr>"
  have "ParseOutputs [''out''] ?m = (Ok [(new_export ''local'' Map.empty)\<lparr>ee_output_dir := ''out''\<rparr>], ?m)"
    by (simp add: parse_output_def csv_read_plain has_prefix_def)
  from ParseOutputs_wf[OF this] show ?thesis by simp
qed

lemma digits_value_digits: "digits_value a s = Some n \<Longrightarrow> c \<in> set s \<Longrightarrow> digit_value c \<noteq> None"
  by (induction s arbitrary: a) (auto split: option.splits)

lemma parse_ipv4_no_colon: "parse_ipv4 s = Some os \<Longrightarrow> CHR '':'' \<notin> set s"
proof
  assume s: "parse_ipv4 s = Some os" and c: "CHR '':'' \<in> set s"
  have "\<exists>p \<in> set (split_on CHR ''.'' s). CHR '':'' \<in> set p"
    using c by (induction s) (auto split: list.splits)
  then obtain p where p: "p \<in> set (split_on CHR ''.'' s)" "CHR '':'' \<in> set p" by blast
  then have "parse_octet p \<noteq> None" using s by (force simp: parse_ipv4_def Let_def split: if_splits)
  then obtain n where "digits_value 0 p = Some n"
    by (auto simp: parse_octet_def split: if_splits option.splits)
  then have "digit_value CHR '':'' \<noteq> None" using p(2) digits_value_digits by blast
  then show False by (simp add: digit_value_def)
qed

definition host_mapping :: "string \<Rightarrow> string \<Rightarrow> bool" where
  "host_mapping name ip \<longleftrightarrow> name \<noteq> [] \<and> CHR '':'' \<notin> set name \<and> parse_ipv4 ip \<noteq> None"

lemma extra_host_ok:
  "host_mapping name ip \<Longrightarrow> extra_host (name @ CHR '':'' # ip) = Ok (name @ EQ # ip)"
proof -
  assume h: "host_mapping name ip"
  then have "CHR '':'' \<notin> set ip" using parse_ipv4_no_colon by (auto simp: host_mapping_def)
  with h have "split_on CHR '':'' (name @ CHR '':'' # ip) = [name, ip]"
    by (simp add: host_mapping_def split_on_append split_on_no_sep)
  with h show ?thesis by (auto simp: host_mapping_def extra_host_def Let_def)
qed

lemma extra_host_OkD:
  assumes "extra_host h = Ok r"
  shows "\<exists>name ip. h = name @ CHR '':'' # ip \<and> host_mapping name ip"
proof -
  let ?ps = "split_on CHR '':'' h"
  from assms have ps: "length ?ps = 2" "?ps ! 0 \<noteq> []" "parse_ipv4 (?ps ! 1) \<noteq> None"
    by (auto simp: extra_host_def Let_def split: if_splits)
  then have "?ps = [?ps ! 0, ?ps ! 1]" by (cases ?ps; cases "tl ?ps") auto
  then have "h = ?ps ! 0 @ CHR '':'' # ?ps ! 1" using join_split_on[of "CHR '':''" h]
    by (metis append_Cons append_Nil join_with.simps(2,3))
  moreover have "CHR '':'' \<notin> set (?ps ! 0)"
  proof (rule split_on_parts_no_sep)
    show "?ps ! 0 \<in> set ?ps" using ps(1) by simp
  qed
  ultimately show ?thesis using ps by (auto simp: host_mapping_def)
qed

text \<open>
  The extra hosts are accepted exactly when every one of them is a non-empty name, one
  colon and an IPv4 address, and the result lists them as name=address in order. An IPv6
  address has colons of its own, so it is never accepted.
\<close>

theorem toBuildkitExtraHosts_spec:
  "toBuildkitExtraHosts hs = Ok r \<longleftrightarrow>
     (\<exists>ps. list_all (\<lambda>p. host_mapping (fst p) (snd p)) ps \<and>
        hs = map (\<lambda>p. fst p @ CHR '':'' # snd p) ps \<and>
        r = join_with [COMMA] (map (\<lambda>p. fst p @ EQ # snd p) ps))"
proof
  assume "toBuildkitExtraHosts hs = Ok r"
  then have r: "and_then (map_res extra_host hs) (\<lambda>hosts. Ok (join_with [COMMA] hosts)) = Ok r"
    by (cases "hs = []") (simp_all add: toBuildkitExtraHosts_def)
  then obtain outs where outs: "list_all2 (\<lambda>h o'. extra_host h = Ok o') hs outs"
    "r = join_with [COMMA] outs"
    by (auto simp: and_then_Inr_iff map_res_Inr_iff)
  from outs(1) have "\<exists>ps. list_all (\<lambda>p. host_mapping (fst p) (snd p)) ps \<and>
      hs = map (\<lambda>p. fst p @ CHR '':'' # snd p) ps \<and> outs = map (\<lambda>p. fst p @ EQ # snd p) ps"
  proof (induction rule: list_all2_induct)
    case Nil
    show ?case by simp
  next
    case (Cons h hs o' outs)
    then obtain ps where ps: "list_all (\<lambda>p. host_mapping (fst p) (snd p)) ps"
      "hs = map (\<lambda>p. fst p @ CHR '':'' # snd p) ps" "outs = map (\<lambda>p. fst p @ EQ # snd p) ps" by blast
    obtain n i where "h = n @ CHR '':'' # i" "host_mapping n i" using extra_host_OkD Cons(1) by blast
    moreover from this have "o' = n @ EQ # i" using extra_host_ok Cons(1) by simp
    ultimately show ?case using ps by (intro exI[of _ "(n, i) # ps"]) simp
  qed
  with outs(2) show "\<exists>ps. list_all (\<lambda>p. host_mapping (fst p) (snd p)) ps \<and>
      hs = map (\<lambda>p. fst p @ CHR '':'' # snd p) ps \<and>
      r = join_with [COMMA] (map (\<lambda>p. fst p @ EQ # snd p) ps)" by blast
next
  assume "\<exists>ps. list_all (\<lambda>p. host_mapping (fst p) (snd p)) ps \<and>
      hs = map (\<lambda>p. fst p @ CHR '':'' # snd p) ps \<and>
      r = join_with [COMMA] (map (\<lambda>p. fst p @ EQ # snd p) ps)"
  then obtain ps where ps: "list_all (\<lambda>p. host_mapping (fst p) (snd p)) ps"
    "hs = map (\<lambda>p. fst p @ CHR '':'' # snd p) ps" "r = join_with [COMMA] (map (\<lambda>p. fst p @ EQ # snd p) ps)"
    by blast
  then have "map_res extra_host hs = Ok (map (\<lambda>p. fst p @ EQ # snd p) ps)"
    by (induction ps arbitrary: hs r) (auto simp: extra_host_ok)
  with ps(3) show "toBuildkitExtraHosts hs = Ok r" by (cases hs) (auto simp: toBuildkitExtraHosts_def)
qed

end
