(* ===== verification/BuildInputs.thy ===== *)
theory BuildInputs
  imports FlagParsers DriverCore
begin

text \<open>
  The inputs of a build: \<open>LoadInputs\<close> and \<open>createTempDockerfile\<close> of
  \<open>pkg/build/build.go\<close>, with the part of the solve options that they fill in. The file
  system, the standard input and the provider of uploads are the record \<open>fs\<close> of functions
  on the outside world.
\<close>

section \<open>Paths (path/filepath)\<close>

text \<open>The part of a path after its last slash, and the part up to it.\<close>

definition after_slash :: "string \<Rightarrow> string" where
  "after_slash p = rev (takeWhile (\<lambda>c. c \<noteq> CHR ''/'') (rev p))"

definition upto_slash :: "string \<Rightarrow> string" where
  "upto_slash p = rev (dropWhile (\<lambda>c. c \<noteq> CHR ''/'') (rev p))"

definition filepath_Dir :: "string \<Rightarrow> string" where
  "filepath_Dir p = path_Clean (upto_slash p)"

definition filepath_Base :: "string \<Rightarrow> string" where
  "filepath_Base p =
     (if p = [] then ''.''
      else
        let base = after_slash (rev (dropWhile (\<lambda>c. c = CHR ''/'') (rev p)))
        in if base = [] then ''/'' else base)"

section \<open>The file system\<close>

record 'w fs =
  fs_is_dir :: "string \<Rightarrow> 'w \<Rightarrow> bool"
  fs_remove :: "string \<Rightarrow> 'w action"
  fs_temp_dir :: "string \<Rightarrow> (string, 'w) io"
  fs_create :: "string \<Rightarrow> 'w action"
  fs_copy_stdin :: "string \<Rightarrow> 'w action"
  fs_remove_all :: "string \<Rightarrow> 'w \<Rightarrow> 'w"
  fs_write_file :: "string \<Rightarrow> string \<Rightarrow> 'w action"
  fs_peek :: "nat \<Rightarrow> 'w \<Rightarrow> (string \<times> go_error option) \<times> 'w"
  fs_is_tar :: "string \<Rightarrow> bool"
  fs_upload :: "'w \<Rightarrow> string \<times> 'w"
  fs_is_git_url :: "string \<Rightarrow> bool"
  fs_is_url :: "string \<Rightarrow> bool"

definition io_EOF :: go_error where
  "io_EOF = External ''EOF''"

section \<open>Solve options\<close>

text \<open>What a build session offers to the builder.\<close>

datatype attachable =
    SecretsProvider "secret_source list"
  | SSHProvider "agent_config list"
  | UploadProvider string
  | AuthProvider string

record solve_opt =
  so_frontend :: string
  so_attrs :: "string \<rightharpoonup> string"
  so_local_dirs :: "string \<rightharpoonup> string"
  so_cache_exports :: "cache_entry list"
  so_cache_imports :: "cache_entry list"
  so_allow :: "entitlement list"
  so_session :: "attachable list"

definition set_attr :: "string \<Rightarrow> string \<Rightarrow> solve_opt \<Rightarrow> solve_opt" where
  "set_attr k v so = so\<lparr>so_attrs := (so_attrs so)(k \<mapsto> v)\<rparr>"

definition set_local_dir :: "string \<Rightarrow> string \<Rightarrow> solve_opt \<Rightarrow> solve_opt" where
  "set_local_dir k v so = so\<lparr>so_local_dirs := (so_local_dirs so)(k \<mapsto> v)\<rparr>"

section \<open>The inputs\<close>

record inputs =
  inp_context :: string
  inp_dockerfile :: string

definition errStdinConflict :: go_error where
  "errStdinConflict = Errorf ''invalid argument: can't use stdin for both build context and dockerfile'' []"

definition errDockerfileConflict :: go_error where
  "errDockerfileConflict = Errorf ''ambiguous Dockerfile source: both stdin and flag correspond to Dockerfiles'' []"

definition createTempDockerfile :: "'w fs \<Rightarrow> (string, 'w) io" where
  "createTempDockerfile F =
     io_bind (fs_temp_dir F ''dockerfile'') (\<lambda>dir.
     let file = path_Join [dir, ''Dockerfile''] in
     io_bind (io_act (fs_create F file)) (\<lambda>_.
     io_bind (io_act (fs_copy_stdin F file)) (\<lambda>_. io_ok dir)))"

text \<open>\<open>dir, _ = TempDir(...)\<close>: the name is empty when it fails.\<close>

definition temp_dir_or_empty :: "'w fs \<Rightarrow> string \<Rightarrow> (string, 'w) io" where
  "temp_dir_or_empty F prefix = (\<lambda>w.
     case fs_temp_dir F prefix w of
       (Inl _, w) \<Rightarrow> (Ok [], w)
     | (Inr dir, w) \<Rightarrow> (Ok dir, w))"

text \<open>The locals after the switch: whether the Dockerfile is read from the standard input,
  its directory and name, and what is to be removed after the build.\<close>

record input_state =
  is_target :: solve_opt
  is_stdin :: bool
  is_dir :: string
  is_name :: string
  is_remove :: "string list"

definition load_context :: "'w fs \<Rightarrow> inputs \<Rightarrow> solve_opt \<Rightarrow> (input_state, 'w) io" where
  "load_context F inp t =
     (let ctx = inp_context inp; name = inp_dockerfile inp;
          st = \<lparr>is_target = t, is_stdin = False, is_dir = [], is_name = name, is_remove = []\<rparr> in
      if ctx = ''-'' then
        if name = ''-'' then io_err errStdinConflict
        else
          io_bind (io_get (fs_peek F (archiveHeaderSize * 2))) (\<lambda>(magic, err).
          if err \<noteq> None \<and> err \<noteq> Some io_EOF then
            io_err (Wrapf (the err) ''failed to peek context header from STDIN'' [])
          else if isArchive (fs_is_tar F) magic then
            io_bind (io_get (fs_upload F)) (\<lambda>url.
            let t = set_attr ''context'' url t in
            io_ok (st\<lparr>is_target := t\<lparr>so_session := so_session t @ [UploadProvider url]\<rparr>\<rparr>))
          else if name \<noteq> [] then io_err errDockerfileConflict
          else
            io_bind (temp_dir_or_empty F ''empty-dir'') (\<lambda>dir.
            io_ok (st\<lparr>is_target := set_local_dir ''context'' dir t, is_stdin := True, is_remove := [dir]\<rparr>)))
      else
        io_bind (io_get (\<lambda>w. (fs_is_dir F ctx w, w))) (\<lambda>local.
        if local then
          let st = st\<lparr>is_target := set_local_dir ''context'' ctx t\<rparr> in
          if name = ''-'' then io_ok (st\<lparr>is_stdin := True\<rparr>)
          else if name = [] then io_ok (st\<lparr>is_dir := ctx\<rparr>)
          else io_ok (st\<lparr>is_dir := filepath_Dir name, is_name := filepath_Base name\<rparr>)
        else if fs_is_git_url F ctx \<or> fs_is_url F ctx then
          if name = ''-'' then io_err (Errorf ''Dockerfile from stdin is not supported with remote contexts'' [])
          else io_ok (st\<lparr>is_target := set_attr ''context'' ctx t\<rparr>)
        else io_err (Errorf ''unable to prepare context: path %q not found'' [ctx])))"

text \<open>The result: the target and the directories that \<open>release\<close> removes.\<close>

definition LoadInputs :: "'w fs \<Rightarrow> inputs \<Rightarrow> solve_opt \<Rightarrow> (solve_opt \<times> string list, 'w) io" where
  "LoadInputs F inp target =
     (if inp_context inp = [] then
        io_err (Errorf (''please specify build context (e.g. '' @ [DQ, CHR ''.'', DQ] @ '' for the current directory)'') [])
      else
        io_bind (load_context F inp target) (\<lambda>st.
        io_bind
          (if is_stdin st then
             io_bind (createTempDockerfile F) (\<lambda>dir.
             io_ok (st\<lparr>is_dir := dir, is_name := ''Dockerfile'', is_remove := is_remove st @ [dir]\<rparr>))
           else io_ok st) (\<lambda>st.
        let name = (if is_name st = [] then ''Dockerfile'' else is_name st);
            t = set_attr ''filename'' name (is_target st);
            t = (if is_dir st \<noteq> [] then set_local_dir ''dockerfile'' (is_dir st) t else t)
        in io_ok (t, is_remove st))))"

text \<open>\<open>release()\<close>\<close>

definition remove_dirs :: "'w fs \<Rightarrow> string list \<Rightarrow> 'w \<Rightarrow> 'w" where
  "remove_dirs F dirs w = fold (fs_remove_all F) dirs w"

section \<open>Lemmas\<close>

lemma filepath_Base_nonempty: "filepath_Base p \<noteq> []"
  by (simp add: filepath_Base_def Let_def)

text \<open>A file system that knows its temporary directories.\<close>

definition temp_fs :: "('w \<Rightarrow> string set) \<Rightarrow> 'w fs \<Rightarrow> bool" where
  "temp_fs tmps F \<longleftrightarrow>
     (\<forall>p w d w'. fs_temp_dir F p w = (Ok d, w') \<longrightarrow> d \<noteq> [] \<and> d \<notin> tmps w \<and> tmps w' = insert d (tmps w)) \<and>
     (\<forall>p w e w'. fs_temp_dir F p w = (Err e, w') \<longrightarrow> tmps w' = tmps w) \<and>
     (\<forall>f w. tmps (snd (fs_remove F f w)) = tmps w) \<and>
     (\<forall>f w. tmps (snd (fs_create F f w)) = tmps w) \<and>
     (\<forall>f w. tmps (snd (fs_copy_stdin F f w)) = tmps w) \<and>
     (\<forall>n w. tmps (snd (fs_peek F n w)) = tmps w) \<and>
     (\<forall>w. tmps (snd (fs_upload F w)) = tmps w) \<and>
     (\<forall>d w. tmps (fs_remove_all F d w) = tmps w - {d}) \<and>
     (\<forall>w. [] \<notin> tmps w)"

lemma tmps_remove_dirs: "temp_fs tmps F \<Longrightarrow> tmps (remove_dirs F ds w) = tmps w - set ds"
  by (induction ds arbitrary: w) (auto simp: remove_dirs_def temp_fs_def)

section \<open>Properties\<close>

text \<open>The shapes of a loaded target.\<close>

lemma LoadInputs_cases:
  assumes "LoadInputs F inp t w = (Ok (t', dirs), w')"
  obtains name tg where "name \<noteq> []"
    and "t' = set_attr ''filename'' name tg \<or> (\<exists>d. t' = set_local_dir ''dockerfile'' d (set_attr ''filename'' name tg))"
    and "(\<exists>url. tg = (set_attr ''context'' url t)\<lparr>so_session := so_session t @ [UploadProvider url]\<rparr>) \<or>
      (\<exists>dir. tg = set_local_dir ''context'' dir t) \<or> (\<exists>url. tg = set_attr ''context'' url t)"
proof -
  obtain st w1 where st: "load_context F inp t w = (Ok st, w1)"
    using assms(1) by (auto simp: LoadInputs_def io_simps split: if_splits)
  let ?name = "if is_stdin st \<or> is_name st = [] then ''Dockerfile'' else is_name st"
  have t': "t' = set_attr ''filename'' ?name (is_target st) \<or>
      (\<exists>d. t' = set_local_dir ''dockerfile'' d (set_attr ''filename'' ?name (is_target st)))"
    using assms(1) st by (cases st) (auto simp: LoadInputs_def Let_def io_simps split: if_splits)
  have target: "(\<exists>url. is_target st = (set_attr ''context'' url t)\<lparr>so_session := so_session t @ [UploadProvider url]\<rparr>) \<or>
      (\<exists>dir. is_target st = set_local_dir ''context'' dir t) \<or> (\<exists>url. is_target st = set_attr ''context'' url t)"
    using st by (auto simp: load_context_def Let_def io_simps set_attr_def split: if_splits prod.splits)
  show thesis by (rule that[OF _ t' target]) simp
qed

lemma LoadInputs_frame:
  assumes "LoadInputs F inp t w = (Ok (t', dirs), w')"
  shows "k \<noteq> ''context'' \<Longrightarrow> k \<noteq> ''filename'' \<Longrightarrow> so_attrs t' k = so_attrs t k"
    and "so_frontend t' = so_frontend t" and "so_allow t' = so_allow t"
    and "so_cache_exports t' = so_cache_exports t" and "so_cache_imports t' = so_cache_imports t"
    and "\<exists>up. so_session t' = so_session t @ map UploadProvider up"
proof -
  have up: "\<exists>up. [UploadProvider url] = map UploadProvider up" for url by (rule exI[of _ "[url]"]) simp
  from assms show "k \<noteq> ''context'' \<Longrightarrow> k \<noteq> ''filename'' \<Longrightarrow> so_attrs t' k = so_attrs t k"
    "so_frontend t' = so_frontend t" "so_allow t' = so_allow t"
    "so_cache_exports t' = so_cache_exports t" "so_cache_imports t' = so_cache_imports t"
    "\<exists>up. so_session t' = so_session t @ map UploadProvider up"
    by (rule LoadInputs_cases; elim disjE exE; simp add: set_attr_def set_local_dir_def up)+
qed

text \<open>
  Inputs that load give the frontend one context and a Dockerfile to look for: the context
  is either a local directory or the attribute (a remote or an uploaded one), never both, the
  file name is not empty, and a session provider is added only for an upload. Every other
  attribute and setting is as it was.
\<close>

theorem LoadInputs_spec:
  assumes "LoadInputs F inp t w = (Ok (t', dirs), w')"
    and "so_local_dirs t = Map.empty" and "so_attrs t ''context'' = None"
  shows "\<exists>f. so_attrs t' ''filename'' = Some f \<and> f \<noteq> [] \<and>
    (so_attrs t' ''context'' = None \<longleftrightarrow> so_local_dirs t' ''context'' \<noteq> None) \<and>
    dom (so_local_dirs t') \<subseteq> {''context'', ''dockerfile''} \<and>
    so_attrs t' |` (- {''context'', ''filename''}) = so_attrs t |` (- {''context'', ''filename''}) \<and>
    (\<exists>up. so_session t' = so_session t @ map UploadProvider up \<and> (so_attrs t' ''context'' = None \<longrightarrow> up = [])) \<and>
    t' = t\<lparr>so_attrs := so_attrs t', so_local_dirs := so_local_dirs t', so_session := so_session t'\<rparr>"
proof -
  have up: "\<exists>up. [UploadProvider url] = map UploadProvider up" for url by (rule exI[of _ "[url]"]) simp
  show ?thesis
    using assms(1)
    by (rule LoadInputs_cases; elim disjE exE)
      (use assms(2,3) up in \<open>auto simp: set_attr_def set_local_dir_def restrict_map_def fun_eq_iff\<close>)
qed

text \<open>What single calls do to the temporary directories.\<close>

lemma temp_fs_step:
  assumes "temp_fs tmps F"
  shows "fs_temp_dir F p w = (Ok d, w') \<Longrightarrow> d \<noteq> [] \<and> d \<notin> tmps w \<and> tmps w' = insert d (tmps w)"
    "fs_temp_dir F p w = (Err e, w') \<Longrightarrow> tmps w' = tmps w"
    "fs_remove F f w = (x, w') \<Longrightarrow> tmps w' = tmps w"
    "fs_create F f w = (x, w') \<Longrightarrow> tmps w' = tmps w"
    "fs_copy_stdin F f w = (x, w') \<Longrightarrow> tmps w' = tmps w"
    "fs_peek F n w = (y, w') \<Longrightarrow> tmps w' = tmps w"
    "fs_upload F w = (z, w') \<Longrightarrow> tmps w' = tmps w"
  using assms unfolding temp_fs_def by (metis snd_conv)+

lemma createTempDockerfile_tmps:
  assumes "temp_fs tmps F" and "createTempDockerfile F w = (Ok d, w')"
  shows "d \<notin> tmps w \<and> tmps w' = insert d (tmps w)"
proof -
  obtain w1 w2 where "fs_temp_dir F ''dockerfile'' w = (Ok d, w1)"
    "fs_create F (path_Join [d, ''Dockerfile'']) w1 = (None, w2)"
    "fs_copy_stdin F (path_Join [d, ''Dockerfile'']) w2 = (None, w')"
    using assms(2) by (auto simp: createTempDockerfile_def Let_def io_simps)
  then show ?thesis using temp_fs_step[OF assms(1)] by metis
qed

lemma load_context_tmps:
  assumes F: "temp_fs tmps F" and "load_context F inp t w = (Ok st, w')"
  shows "tmps w' = tmps w \<union> (set (is_remove st) - {[]}) \<and> set (is_remove st) \<inter> tmps w = {}"
proof (cases "inp_context inp = ''-''")
  case True
  obtain magic err w1 where p: "fs_peek F (archiveHeaderSize * 2) w = ((magic, err), w1)"
    by (metis prod.exhaust)
  note w1 = temp_fs_step(6)[OF F p]
  obtain url w2 where u: "fs_upload F w1 = (url, w2)" by fastforce
  obtain r w3 where r: "fs_temp_dir F ''empty-dir'' w1 = (r, w3)" by fastforce
  have r': "tmps w3 = tmps w \<union> (case r of Inl _ \<Rightarrow> {} | Inr d \<Rightarrow> {d})" "\<And>d. r = Ok d \<Longrightarrow> d \<noteq> [] \<and> d \<notin> tmps w"
    using temp_fs_step(1,2)[OF F] r w1 by (cases r; fastforce)+
  have "[] \<notin> tmps w" using F by (simp add: temp_fs_def)
  then show ?thesis
    using assms(2) True w1 r' temp_fs_step(7)[OF F u]
    by (cases r) (auto simp: load_context_def Let_def io_simps p u r temp_dir_or_empty_def split: if_splits)
next
  case False
  then show ?thesis using assms(2)
    by (auto simp: load_context_def Let_def io_simps split: if_splits)
qed

lemma LoadInputs_dirs:
  assumes "temp_fs tmps F" and "LoadInputs F inp t w = (Ok (t', dirs), w')"
  shows "tmps w' = tmps w \<union> (set dirs - {[]}) \<and> set dirs \<inter> tmps w = {} \<and> tmps (remove_dirs F dirs w') = tmps w"
proof -
  obtain st w1 where st: "load_context F inp t w = (Ok st, w1)"
    using assms(2) by (auto simp: LoadInputs_def io_simps split: if_splits)
  note c = load_context_tmps[OF assms(1) st]
  have "tmps w' = tmps w \<union> (set dirs - {[]}) \<and> set dirs \<inter> tmps w = {}"
  proof (cases "is_stdin st")
    case True
    obtain r w2 where r: "createTempDockerfile F w1 = (r, w2)" by fastforce
    obtain d where d: "createTempDockerfile F w1 = (Ok d, w')" "dirs = is_remove st @ [d]"
      using assms(2) st True r
      by (cases r) (auto simp: LoadInputs_def Let_def io_bind_step io_ok_def io_err_iff split: if_splits)
    have "d \<noteq> []" using assms(1) createTempDockerfile_tmps[OF assms(1) d(1)] by (auto simp: temp_fs_def)
    then show ?thesis using c d(2) createTempDockerfile_tmps[OF assms(1) d(1)] by auto
  next
    case False
    then have "w' = w1" "dirs = is_remove st"
      using assms(2) st by (simp_all add: LoadInputs_def Let_def io_bind_step io_ok_def io_err_iff split: if_splits)
    then show ?thesis using c by simp
  qed
  moreover from this have "tmps w' - set dirs = tmps w" by blast
  ultimately show ?thesis using tmps_remove_dirs[OF assms(1), of dirs w'] by simp
qed

section \<open>A file system for examples\<close>

text \<open>The world is the list of the temporary directories; a new one has a longer name than all.\<close>

definition example_fs :: "string list fs" where
  "example_fs =
     \<lparr>fs_is_dir = (\<lambda>p w. p = ''.''), fs_remove = (\<lambda>p w. (None, w)),
      fs_temp_dir = (\<lambda>p w. let d = CHR ''/'' # p @ replicate (sum_list (map length w)) CHR ''0'' in (Ok d, d # w)),
      fs_create = (\<lambda>p w. (None, w)), fs_copy_stdin = (\<lambda>p w. (None, w)), fs_remove_all = removeAll,
      fs_write_file = (\<lambda>p c w. (None, w)), fs_peek = (\<lambda>k w. ((''FROM scratch'', Some io_EOF), w)),
      fs_is_tar = (\<lambda>s. False), fs_upload = (\<lambda>w. (''http://upload'', w)),
      fs_is_git_url = (\<lambda>s. False), fs_is_url = (\<lambda>s. has_prefix s ''https://'')\<rparr>"

lemma example_temp_fs: "temp_fs (\<lambda>w. set w - {[]}) example_fs"
proof -
  have "length d \<le> sum_list (map length w)" if "d \<in> set w" for d :: string and w
    using that by (simp add: member_le_sum_list)
  then have "CHR ''/'' # p @ replicate (sum_list (map length w)) c \<notin> set w" for p c and w :: "string list"
    by fastforce
  then show ?thesis by (auto simp: temp_fs_def example_fs_def Let_def)
qed

definition no_solve_opt :: solve_opt where
  "no_solve_opt =
     \<lparr>so_frontend = ''dockerfile.v0'', so_attrs = Map.empty, so_local_dirs = Map.empty, so_cache_exports = [],
      so_cache_imports = [], so_allow = [], so_session = []\<rparr>"

lemma example_local_inputs:
  "LoadInputs example_fs \<lparr>inp_context = ''.'', inp_dockerfile = []\<rparr> no_solve_opt w =
     (Ok (set_local_dir ''dockerfile'' ''.'' (set_attr ''filename'' ''Dockerfile''
        (set_local_dir ''context'' ''.'' no_solve_opt)), []), w)"
  by (simp add: LoadInputs_def load_context_def example_fs_def Let_def io_bind_def io_get_def io_ok_def)

theorem LoadInputs_spec_example:
  "\<exists>t'. fst (LoadInputs example_fs \<lparr>inp_context = ''.'', inp_dockerfile = []\<rparr> no_solve_opt []) = Ok (t', []) \<and>
     so_attrs t' ''filename'' \<noteq> None"
  using LoadInputs_spec[OF example_local_inputs[of "[]"]] unfolding example_local_inputs
  by (simp add: no_solve_opt_def) blast

end
