(* ===== verification/SolveOpt.thy ===== *)
theory SolveOpt
  imports BuildInputs
begin

text \<open>
  The options of a solve: \<open>toSolveOpt\<close> of \<open>pkg/build/build.go\<close> and what it calls. A build
  has one slice of exports, which every driver of the target shares: the function returns the
  slice as it has left it. The functions that it defers are values, run by \<open>run_release\<close>.
  The parser of image references and the loader callback are arguments.
\<close>

section \<open>Options of a target\<close>

text \<open>Labels and build arguments are Go maps: association lists with distinct keys.\<close>

record options =
  op_inputs :: inputs
  op_tags :: "string list"
  op_labels :: "(string \<times> string) list"
  op_build_args :: "(string \<times> string) list"
  op_pull :: bool
  op_image_id_file :: string
  op_extra_hosts :: "string list"
  op_network :: string
  op_no_cache :: bool
  op_target :: string
  op_platforms :: "platform list"
  op_exports :: "export_entry list"
  op_session :: "attachable list"
  op_cache_from :: "cache_entry list"
  op_cache_to :: "cache_entry list"
  op_allow :: "entitlement list"
  op_frontend :: string

text \<open>What is to be undone: directories to remove, or the readers of a loader to close.\<close>

datatype release = ReleaseDirs "string list" | ReleaseLoader string "string list"

fun run_release :: "'w fs \<Rightarrow> (string \<Rightarrow> string list \<Rightarrow> 'w \<Rightarrow> 'w) \<Rightarrow> release \<Rightarrow> 'w \<Rightarrow> 'w" where
  "run_release F close (ReleaseDirs dirs) w = remove_dirs F dirs w"
| "run_release F close (ReleaseLoader runtime pods) w = close runtime pods w"

definition run_releases :: "'w fs \<Rightarrow> (string \<Rightarrow> string list \<Rightarrow> 'w \<Rightarrow> 'w) \<Rightarrow> release list \<Rightarrow> 'w \<Rightarrow> 'w" where
  "run_releases F close rs w = fold (run_release F close) rs w"

text \<open>The callback sees the exports as they are when it is called.\<close>

type_synonym 'w load_callback = "export_entry list \<Rightarrow> (writer \<times> release, 'w) io"

section \<open>Checks\<close>

definition notSupported :: "'w driver \<Rightarrow> feature \<Rightarrow> go_error" where
  "notSupported d f =
     Errorf (''%s feature is currently not supported for %s driver. Please switch to a different driver (eg. ''
        @ [DQ] @ ''kubectl buildkit create --use'' @ [DQ] @ '')'') [f, dr_Factory_Name d]"

definition has_feature :: "(feature \<rightharpoonup> bool) \<Rightarrow> feature \<Rightarrow> bool" where
  "has_feature m f \<longleftrightarrow> m f = Some True"

definition os_IsNotExist :: "go_error \<Rightarrow> bool" where
  "os_IsNotExist e = (case e of NotFound _ \<Rightarrow> True | _ \<Rightarrow> False)"

definition remove_image_id :: "'w fs \<Rightarrow> bool \<Rightarrow> options \<Rightarrow> (unit, 'w) io" where
  "remove_image_id F multiDriver opt =
     (if op_image_id_file opt = [] then io_ok ()
      else if multiDriver \<or> op_platforms opt \<noteq> [] then
        io_err (Errorf ''image ID file cannot be specified when building for multiple platforms'' [])
      else
        (\<lambda>w. case fs_remove F (op_image_id_file opt) w of
               (None, w) \<Rightarrow> (Ok (), w)
             | (Some e, w) \<Rightarrow> (if os_IsNotExist e then Ok () else Err (Wrapf e ''removing image ID file'' []), w)))"

definition cache_to_of :: "options \<Rightarrow> cache_entry list" where
  "cache_to_of opt =
     (case map_of (op_build_args opt) ''BUILDKIT_INLINE_CACHE'' of
        Some v \<Rightarrow>
          if parse_bool_or_false v then op_cache_to opt @ [\<lparr>ce_type = ''inline'', ce_attrs = Map.empty\<rparr>]
          else op_cache_to opt
      | None \<Rightarrow> op_cache_to opt)"

fun check_cache_exports :: "'w driver \<Rightarrow> cache_entry list \<Rightarrow> (unit, 'w) io" where
  "check_cache_exports d [] = io_ok ()"
| "check_cache_exports d (e # es) =
     (if ce_type e \<noteq> ''inline'' then
        io_bind (io_get (dr_Features d)) (\<lambda>m.
          if has_feature m CacheExport then check_cache_exports d es else io_err (notSupported d CacheExport))
      else check_cache_exports d es)"

definition base_solve_opt :: "bool \<Rightarrow> options \<Rightarrow> solve_opt" where
  "base_solve_opt multiDriver opt =
     (let so = \<lparr>so_frontend = ''dockerfile.v0'', so_attrs = Map.empty, so_local_dirs = Map.empty,
                so_cache_exports = cache_to_of opt, so_cache_imports = op_cache_from opt,
                so_allow = op_allow opt, so_session = op_session opt\<rparr>;
          so = (if op_frontend opt \<noteq> []
                then set_attr ''source'' (op_frontend opt) (so\<lparr>so_frontend := ''gateway.v0''\<rparr>) else so)
      in if multiDriver then set_attr ''multi-platform'' ''true'' so else so)"

section \<open>Exports\<close>

definition check_one_export :: "export_entry list \<Rightarrow> unit result" where
  "check_one_export exports =
     (if length exports = 1 then Ok ()
      else if exports = [] then Err (Errorf ''zero outputs currently unsupported'' [])
      else Err (Errorf ''multiple outputs currently unsupported'' []))"

text \<open>A load into the cluster's runtime becomes the exporter of the builder's runtime.\<close>

definition runtime_export :: "(feature \<rightharpoonup> bool) \<Rightarrow> export_entry \<Rightarrow> export_entry result" where
  "runtime_export feats e =
     (if ee_type e = ''runtime'' then
        if has_feature feats ContainerdExporter then Ok (e\<lparr>ee_type := ''image''\<rparr>)
        else if has_feature feats DockerExporter then Ok (e\<lparr>ee_type := ''docker''\<rparr>)
        else Err (Errorf ''loading image into cluster runtime not supported by this builder, please specify --push or a client local output: --output=type=local,dest=. --output=type=tar,dest=out.tar '' [])
      else Ok e)"

definition parse_tag :: "(string \<Rightarrow> string result) \<Rightarrow> string \<Rightarrow> string result" where
  "parse_tag parse_ref tag =
     (case parse_ref tag of
        Inl e \<Rightarrow> Err (Wrapf e ''invalid tag %q'' [tag])
      | Inr ref \<Rightarrow> Ok ref)"

definition named_export :: "string list \<Rightarrow> export_entry \<Rightarrow> export_entry" where
  "named_export tags e =
     (if ee_type e = ''image'' \<or> ee_type e = ''oci'' \<or> ee_type e = ''docker''
      then e\<lparr>ee_attrs := (ee_attrs e)(''name'' \<mapsto> join_with [COMMA] tags)\<rparr> else e)"

definition check_tagged :: "export_entry \<Rightarrow> export_entry result" where
  "check_tagged e =
     (if ee_type e = ''image'' \<and> lookup_str (ee_attrs e) ''name'' = [] \<and> lookup_str (ee_attrs e) ''push'' \<noteq> [] \<and>
         parse_bool_or_false (lookup_str (ee_attrs e) ''push'')
      then Err (Errorf ''tag is needed when pushing to registry'' []) else Ok e)"

definition name_exports :: "(string \<Rightarrow> string result) \<Rightarrow> string list \<Rightarrow> export_entry list \<Rightarrow> export_entry list result" where
  "name_exports parse_ref tags exports =
     (if tags \<noteq> [] then and_then (map_res (parse_tag parse_ref) tags) (\<lambda>tags. Ok (map (named_export tags) exports))
      else map_res check_tagged exports)"

definition pushing :: "export_entry \<Rightarrow> bool" where
  "pushing e = (case ee_attrs e ''push'' of Some p \<Rightarrow> parse_bool_or_false p | None \<Rightarrow> False)"

definition multi_node :: "builder list \<Rightarrow> bool" where
  "multi_node builders \<longleftrightarrow>
     length builders > 1 \<or> length builders = 1 \<and> length (b_nodes (builders ! 0)) > 1"

text \<open>The body of the loop over the exports. \<open>dl\<close> is the callback after the entry is written
  back into the slice.\<close>

definition set_exporter ::
  "'w driver \<Rightarrow> (feature \<rightharpoonup> bool) \<Rightarrow> bool \<Rightarrow> (export_entry \<Rightarrow> (writer \<times> release, 'w) io) \<Rightarrow> export_entry \<Rightarrow>
     (export_entry \<times> release list, 'w) io" where
  "set_exporter d feats iid dl e =
     (let load = (\<lambda>e. io_bind (dl e) (\<lambda>(wr, r). io_ok (e\<lparr>ee_output := Some wr\<rparr>, [r]))) in
      if (ee_type e = ''local'' \<or> ee_type e = ''tar'') \<and> iid then
        io_err (Errorf ''local and tar exporters are incompatible with image ID file'' [])
      else if ee_type e = ''oci'' \<and> \<not> has_feature feats OCIExporter then io_err (notSupported d OCIExporter)
      else if ee_type e = ''docker'' then
        if \<not> has_feature feats DockerExporter then io_err (notSupported d DockerExporter)
        else if ee_output e = None then load e
        else io_ok (e, [])
      else if ee_type e = ''containerd'' then io_err (notSupported d ContainerdExporter)
      else if ee_type e = ''image'' \<and> \<not> pushing e then
        if \<not> has_feature feats ContainerdExporter then io_err (notSupported d ContainerdExporter)
        else
          io_bind (dr_List d) (\<lambda>builders.
            if ee_output e = None \<and> multi_node builders then load (e\<lparr>ee_type := ''oci''\<rparr>)
            else io_ok (e, []))
      else io_ok (e, []))"

text \<open>The loop: what it has to release is known on an error too.\<close>

fun set_exporters ::
  "'w driver \<Rightarrow> (feature \<rightharpoonup> bool) \<Rightarrow> bool \<Rightarrow> 'w load_callback \<Rightarrow> export_entry list \<Rightarrow> release list \<Rightarrow>
     export_entry list \<Rightarrow> 'w \<Rightarrow> export_entry list result \<times> release list \<times> 'w" where
  "set_exporters d feats iid dl ready rel [] w = (Ok ready, rel, w)"
| "set_exporters d feats iid dl ready rel (e # es) w =
     (case set_exporter d feats iid (\<lambda>e. dl (ready @ e # es)) e w of
        (Inl err, w) \<Rightarrow> (Err err, rel, w)
      | (Inr (e, r), w) \<Rightarrow> set_exporters d feats iid dl (ready @ [e]) (rel @ r) es w)"

text \<open>Everything up to the first deferred function.\<close>

definition prepare_exports ::
  "'w fs \<Rightarrow> (string \<Rightarrow> string result) \<Rightarrow> 'w driver \<Rightarrow> bool \<Rightarrow> options \<Rightarrow>
     ((feature \<rightharpoonup> bool) \<times> export_entry list, 'w) io" where
  "prepare_exports F parse_ref d multiDriver opt =
     io_bind (remove_image_id F multiDriver opt) (\<lambda>_.
     io_bind (check_cache_exports d (cache_to_of opt)) (\<lambda>_.
     io_bind (io_lift (check_one_export (op_exports opt))) (\<lambda>_.
     io_bind (io_get (dr_Features d)) (\<lambda>feats.
     io_bind (io_lift (map_res (runtime_export feats) (op_exports opt))) (\<lambda>exports.
     io_bind (io_lift (name_exports parse_ref (op_tags opt) exports)) (\<lambda>exports.
     io_ok (feats, exports)))))))"

section \<open>Attributes\<close>

definition option_attrs :: "options \<Rightarrow> solve_opt \<Rightarrow> solve_opt" where
  "option_attrs opt so =
     (let so = (if op_pull opt then set_attr ''image-resolve-mode'' ''pull'' so else so);
          so = (if op_target opt \<noteq> [] then set_attr ''target'' (op_target opt) so else so);
          so = (if op_no_cache opt then set_attr ''no-cache'' [] so else so);
          so = fold (\<lambda>(k, v). set_attr (''build-arg:'' @ k) v) (op_build_args opt) so
      in fold (\<lambda>(k, v). set_attr (''label:'' @ k) v) (op_labels opt) so)"

definition platform_attr :: "'w driver \<Rightarrow> options \<Rightarrow> solve_opt \<Rightarrow> (solve_opt, 'w) io" where
  "platform_attr d opt so =
     (if op_platforms opt = [] then io_ok so
      else
        let pp = map Format_platform (op_platforms opt);
            so = set_attr ''platform'' (join_with [COMMA] pp) so
        in if length pp > 1 then
             io_bind (io_get (dr_Features d)) (\<lambda>m.
               if has_feature m MultiPlatform then io_ok so else io_err (notSupported d MultiPlatform))
           else io_ok so)"

definition network_mode :: "options \<Rightarrow> solve_opt \<Rightarrow> solve_opt result" where
  "network_mode opt so =
     (let n = op_network opt in
      if n = ''host'' \<or> n = ''none'' then
        Ok ((set_attr ''force-network-mode'' n so)\<lparr>so_allow := so_allow so @ [EntitlementNetworkHost]\<rparr>)
      else if n = [] \<or> n = ''default'' then Ok so
      else Err (Errorf ''network mode %q not supported by buildkit'' [n]))"

definition finish_solve :: "'w driver \<Rightarrow> options \<Rightarrow> solve_opt \<Rightarrow> (solve_opt, 'w) io" where
  "finish_solve d opt so =
     io_bind (platform_attr d opt (option_attrs opt so)) (\<lambda>so.
     io_bind (io_lift (network_mode opt so)) (\<lambda>so.
     io_bind (io_lift (toBuildkitExtraHosts (op_extra_hosts opt))) (\<lambda>hosts.
     io_ok (set_attr ''add-hosts'' hosts so))))"

section \<open>The whole function\<close>

definition toSolveOpt ::
  "'w fs \<Rightarrow> (string \<Rightarrow> string list \<Rightarrow> 'w \<Rightarrow> 'w) \<Rightarrow> (string \<Rightarrow> string result) \<Rightarrow> 'w driver \<Rightarrow> bool \<Rightarrow> options \<Rightarrow>
     'w load_callback \<Rightarrow> (solve_opt \<times> export_entry list \<times> release list, 'w) io" where
  "toSolveOpt F close parse_ref d multiDriver opt dl =
     io_bind (prepare_exports F parse_ref d multiDriver opt) (\<lambda>(feats, exports) w.
       case set_exporters d feats (op_image_id_file opt \<noteq> []) dl [] [] exports w of
         (Inl e, rel, w) \<Rightarrow> (Err e, run_releases F close rel w)
       | (Inr exports, rel, w) \<Rightarrow>
           (case LoadInputs F (op_inputs opt) (base_solve_opt multiDriver opt) w of
              (Inl e, w) \<Rightarrow> (Err e, run_releases F close rel w)
            | (Inr (so, dirs), w) \<Rightarrow>
                let rel = rel @ [ReleaseDirs dirs] in
                (case finish_solve d opt so w of
                   (Inl e, w) \<Rightarrow> (Err e, run_releases F close rel w)
                 | (Inr so, w) \<Rightarrow> (Ok (so, exports, rel), w))))"


section \<open>Lemmas\<close>

lemma set_attr_simps [simp]:
  "so_attrs (set_attr k v so) = (so_attrs so)(k \<mapsto> v)"
  "so_frontend (set_attr k v so) = so_frontend so" "so_allow (set_attr k v so) = so_allow so"
  "so_local_dirs (set_attr k v so) = so_local_dirs so" "so_session (set_attr k v so) = so_session so"
  "so_cache_exports (set_attr k v so) = so_cache_exports so"
  "so_cache_imports (set_attr k v so) = so_cache_imports so"
  by (simp_all add: set_attr_def)

text \<open>A loop over a Go map that sets one attribute for each key, under a prefix.\<close>

definition under_prefix :: "string \<Rightarrow> (string \<rightharpoonup> string) \<Rightarrow> string \<rightharpoonup> string" where
  "under_prefix pre m x = (if has_prefix x pre then m (drop (length pre) x) else None)"

lemma under_prefix_key [simp]: "under_prefix pre m (pre @ k) = m k"
  by (simp add: under_prefix_def has_prefix_def)

lemma under_prefix_other [simp]: "\<not> has_prefix x pre \<Longrightarrow> under_prefix pre m x = None"
  by (simp add: under_prefix_def)

lemma so_attrs_fold:
  "so_attrs (fold (\<lambda>(k, v). set_attr (pre @ k) v) kvs so) = so_attrs so ++ under_prefix pre (map_of (rev kvs))"
proof (induction kvs arbitrary: so)
  case Nil
  then show ?case by (simp add: under_prefix_def fun_eq_iff map_add_def)
next
  case (Cons kv kvs)
  obtain k v where kv: "kv = (k, v)" by fastforce
  have "has_prefix x pre \<and> drop (length pre) x = k \<longleftrightarrow> x = pre @ k" for x
    unfolding has_prefix_def by (metis append_eq_conv_conj append_take_drop_id)
  then show ?case
    unfolding kv by (auto simp: Cons under_prefix_def map_add_def fun_eq_iff split: option.splits)
qed

lemma fold_set_attr_simps [simp]:
  "so_frontend (fold (\<lambda>(k, v). set_attr (pre @ k) v) kvs so) = so_frontend so"
  "so_allow (fold (\<lambda>(k, v). set_attr (pre @ k) v) kvs so) = so_allow so"
  by (induction kvs arbitrary: so) (auto split: prod.splits)

text \<open>An attribute that is set under a condition.\<close>

definition upd_if :: "bool \<Rightarrow> string \<Rightarrow> string \<Rightarrow> (string \<rightharpoonup> string) \<Rightarrow> string \<rightharpoonup> string" where
  "upd_if b k v m = (if b then m(k \<mapsto> v) else m)"

lemma upd_if_apply [simp]: "upd_if b k v m x = (if b \<and> x = k then Some v else m x)"
  by (simp add: upd_if_def)

lemma if_set_attr_simps [simp]:
  "so_attrs (if b then set_attr k v so else so) = upd_if b k v (so_attrs so)"
  "so_frontend (if b then set_attr k v so else so) = so_frontend so"
  "so_allow (if b then set_attr k v so else so) = so_allow so"
  by (simp_all add: upd_if_def)

lemma option_attrs_sel:
  "so_attrs (option_attrs opt so) =
     upd_if (op_no_cache opt) ''no-cache'' [] (upd_if (op_target opt \<noteq> []) ''target'' (op_target opt)
       (upd_if (op_pull opt) ''image-resolve-mode'' ''pull'' (so_attrs so)))
     ++ under_prefix ''build-arg:'' (map_of (rev (op_build_args opt)))
     ++ under_prefix ''label:'' (map_of (rev (op_labels opt)))"
  "so_frontend (option_attrs opt so) = so_frontend so" "so_allow (option_attrs opt so) = so_allow so"
  by (simp_all only: option_attrs_def Let_def so_attrs_fold if_set_attr_simps fold_set_attr_simps)

lemma toSolveOpt_Ok:
  assumes "toSolveOpt F close parse_ref d multi opt dl w = (Ok (so, exports, rel), w')"
  obtains feats ex1 w1 rel0 w2 so1 dirs w3 where
    "prepare_exports F parse_ref d multi opt w = (Ok (feats, ex1), w1)"
    "set_exporters d feats (op_image_id_file opt \<noteq> []) dl [] [] ex1 w1 = (Ok exports, rel0, w2)"
    "LoadInputs F (op_inputs opt) (base_solve_opt multi opt) w2 = (Ok (so1, dirs), w3)"
    "finish_solve d opt so1 w3 = (Ok so, w')" "rel = rel0 @ [ReleaseDirs dirs]"
proof -
  obtain feats ex1 w1 where 1: "prepare_exports F parse_ref d multi opt w = (Ok (feats, ex1), w1)"
    using assms by (auto simp: toSolveOpt_def io_bind_iff)
  obtain r2 rel0 w2 where 2: "set_exporters d feats (op_image_id_file opt \<noteq> []) dl [] [] ex1 w1 = (r2, rel0, w2)"
    by (rule prod_cases3)
  obtain ex2 where ex2: "r2 = Ok ex2" using assms 1 2 by (cases r2) (auto simp: toSolveOpt_def io_bind_step)
  obtain r3 w3 where 3: "LoadInputs F (op_inputs opt) (base_solve_opt multi opt) w2 = (r3, w3)" by fastforce
  obtain so1 dirs where so1: "r3 = Ok (so1, dirs)"
    using assms 1 2 3 ex2 by (cases r3) (auto simp: toSolveOpt_def io_bind_step)
  obtain r4 w4 where 4: "finish_solve d opt so1 w3 = (r4, w4)" by fastforce
  show thesis
    using assms 1 2 3 4 ex2 so1 that[of feats ex1 w1 rel0 w2 so1 dirs w3]
    by (cases r4) (auto simp: toSolveOpt_def io_bind_step)
qed

text \<open>The attributes and the entitlements after the last part of the function.\<close>

lemma finish_solve_Ok:
  assumes "finish_solve d opt so1 w = (Ok so, w')"
  obtains hosts where "toBuildkitExtraHosts (op_extra_hosts opt) = Ok hosts"
    "so_attrs so = (upd_if (op_network opt = ''host'' \<or> op_network opt = ''none'') ''force-network-mode'' (op_network opt)
       (upd_if (op_platforms opt \<noteq> []) ''platform'' (join_with [COMMA] (map Format_platform (op_platforms opt)))
         (so_attrs (option_attrs opt so1))))(''add-hosts'' \<mapsto> hosts)"
    "so_allow so = so_allow so1 @ (if op_network opt = ''host'' \<or> op_network opt = ''none'' then [EntitlementNetworkHost] else [])"
    "so_frontend so = so_frontend so1"
proof -
  obtain so2 w2 so3 hosts where
    p: "platform_attr d opt (option_attrs opt so1) w = (Ok so2, w2)" "network_mode opt so2 = Ok so3"
    "toBuildkitExtraHosts (op_extra_hosts opt) = Ok hosts" "so = set_attr ''add-hosts'' hosts so3"
    using assms by (auto simp: finish_solve_def io_simps)
  have 2: "so2 = (if op_platforms opt \<noteq> []
      then set_attr ''platform'' (join_with [COMMA] (map Format_platform (op_platforms opt))) (option_attrs opt so1)
      else option_attrs opt so1)"
    using p(1) by (auto simp: platform_attr_def Let_def io_simps split: if_splits)
  have 3: "so_attrs so3 = upd_if (op_network opt = ''host'' \<or> op_network opt = ''none'') ''force-network-mode'' (op_network opt) (so_attrs so2)"
    "so_allow so3 = so_allow so2 @ (if op_network opt = ''host'' \<or> op_network opt = ''none'' then [EntitlementNetworkHost] else [])"
    "so_frontend so3 = so_frontend so2"
    using p(2) by (auto simp: network_mode_def Let_def upd_if_def split: if_splits)
  show thesis
    by (rule that[OF p(3)]) (simp_all only: p(4) 2 3 set_attr_simps if_set_attr_simps option_attrs_sel)
qed

lemma base_solve_opt_sel:
  "so_attrs (base_solve_opt multi opt) =
     upd_if multi ''multi-platform'' ''true'' (upd_if (op_frontend opt \<noteq> []) ''source'' (op_frontend opt) Map.empty)"
  "so_frontend (base_solve_opt multi opt) = (if op_frontend opt = [] then ''dockerfile.v0'' else ''gateway.v0'')"
  "so_allow (base_solve_opt multi opt) = op_allow opt"
  "so_local_dirs (base_solve_opt multi opt) = Map.empty"
  by (simp_all add: base_solve_opt_def Let_def upd_if_def)

section \<open>Properties\<close>


text \<open>What the loop body settles about the entry that it leaves.\<close>

lemma set_exporter_Ok:
  assumes "set_exporter d feats iid dl e w = (Ok (e', r), w')" and "ee_type e \<noteq> ''runtime''"
  shows "ee_attrs e' = ee_attrs e" and "ee_type e' \<noteq> ''runtime''" and "ee_type e' \<noteq> ''containerd''"
    and "ee_type e' = ''docker'' \<Longrightarrow> has_feature feats DockerExporter \<and> ee_output e' \<noteq> None"
    and "ee_type e' = ''image'' \<Longrightarrow> ee_type e = ''image'' \<and> (pushing e \<or> has_feature feats ContainerdExporter)"
    and "iid \<Longrightarrow> ee_type e' \<noteq> ''local'' \<and> ee_type e' \<noteq> ''tar''"
  using assms by (auto simp: set_exporter_def Let_def io_simps split: if_splits)

lemma prepare_exports_Ok:
  assumes "prepare_exports F parse_ref d multi opt w = (Ok (feats, ex), w')"
  obtains e w1 where "ex = [e]" "feats = fst (dr_Features d w1)" "ee_type e \<noteq> ''runtime''"
    "ee_type e = ''image'' \<longrightarrow> pushing e \<longrightarrow> ee_attrs e ''name'' \<noteq> None"
    "op_image_id_file opt \<noteq> [] \<longrightarrow> \<not> multi \<and> op_platforms opt = []"
proof -
  obtain w1 w2 e0 e1 where p: "remove_image_id F multi opt w = (Ok (), w1)" "op_exports opt = [e0]"
    "dr_Features d w2 = (feats, w')" "runtime_export feats e0 = Ok e1" "name_exports parse_ref (op_tags opt) [e1] = Ok ex"
    using assms by (auto simp: prepare_exports_def io_simps check_one_export_def length_Suc_conv and_then_Inr_iff split: if_splits)
  have t: "ee_type e1 \<noteq> ''runtime''" using p(4) by (auto simp: runtime_export_def split: if_splits)
  have feats: "feats = fst (dr_Features d w2)" using p(3) by simp
  have iid: "op_image_id_file opt \<noteq> [] \<longrightarrow> \<not> multi \<and> op_platforms opt = []"
    using p(1) by (auto simp: remove_image_id_def io_simps split: if_splits)
  show thesis
  proof (cases "op_tags opt = []")
    case False
    then obtain tags where ex: "ex = [named_export tags e1]"
      using p(5) by (auto simp: name_exports_def and_then_Inr_iff)
    show thesis
      by (rule that[OF ex feats _ _ iid]) (use t in \<open>auto simp: named_export_def\<close>)
  next
    case True
    then have ex: "ex = [e1]" and c: "check_tagged e1 = Ok e1"
      using p(5) by (auto simp: name_exports_def and_then_Inr_iff check_tagged_def split: if_splits)
    have "ee_attrs e1 ''name'' \<noteq> None" if "ee_type e1 = ''image''" "pushing e1"
    proof -
      have "parse_bool_or_false (lookup_str (ee_attrs e1) ''push'')" "lookup_str (ee_attrs e1) ''push'' \<noteq> []"
        using that(2) by (auto simp: pushing_def lookup_str_def parse_bool_or_false_def parse_bool_def split: option.splits if_splits)
      then show ?thesis using c that(1) by (auto simp: check_tagged_def lookup_str_def split: if_splits option.splits)
    qed
    then show thesis by (intro that[OF ex feats t _ iid]) auto
  qed
qed

text \<open>
  C2: What reaches the builder is one export that the builder can do: never the generic load
  nor the plain containerd exporter, a docker export only with a docker runtime and with a
  place to write to, an image that is not pushed only with a containerd runtime, a pushed
  image only under a name; and with an image ID file neither a local nor a tar export, and
  only one platform.
\<close>

theorem toSolveOpt_export:
  assumes "toSolveOpt F close parse_ref d multi opt dl w = (Ok (so, exports, rel), w')"
  shows "\<exists>e w1. exports = [e] \<and> ee_type e \<notin> {''runtime'', ''containerd''} \<and>
    (ee_type e = ''docker'' \<longrightarrow> has_feature (fst (dr_Features d w1)) DockerExporter \<and> ee_output e \<noteq> None) \<and>
    (ee_type e = ''image'' \<longrightarrow>
       (if pushing e then ee_attrs e ''name'' \<noteq> None else has_feature (fst (dr_Features d w1)) ContainerdExporter)) \<and>
    (op_image_id_file opt \<noteq> [] \<longrightarrow> ee_type e \<notin> {''local'', ''tar''} \<and> \<not> multi \<and> op_platforms opt = [])"
proof -
  from assms obtain feats ex1 w1 rel0 w2 where
    pre: "prepare_exports F parse_ref d multi opt w = (Ok (feats, ex1), w1)"
    and set: "set_exporters d feats (op_image_id_file opt \<noteq> []) dl [] [] ex1 w1 = (Ok exports, rel0, w2)"
    by (rule toSolveOpt_Ok)
  from pre obtain e1 w0 where e1: "ex1 = [e1]" "feats = fst (dr_Features d w0)" "ee_type e1 \<noteq> ''runtime''"
    "ee_type e1 = ''image'' \<longrightarrow> pushing e1 \<longrightarrow> ee_attrs e1 ''name'' \<noteq> None"
    "op_image_id_file opt \<noteq> [] \<longrightarrow> \<not> multi \<and> op_platforms opt = []"
    by (rule prepare_exports_Ok)
  obtain e where e: "exports = [e]"
    "set_exporter d feats (op_image_id_file opt \<noteq> []) (\<lambda>e. dl [e]) e1 w1 = (Ok (e, rel0), w2)"
    using set e1(1) by (auto split: prod.splits sum.splits)
  note s = set_exporter_Ok[OF e(2) e1(3)]
  have "pushing e = pushing e1" using s(1) by (simp add: pushing_def)
  then show ?thesis using e s e1 by (intro exI[of _ e] exI[of _ w0]) auto
qed

text \<open>A world whose other calls leave the temporary directories alone.\<close>

definition keeps_temps ::
  "('w \<Rightarrow> string set) \<Rightarrow> 'w fs \<Rightarrow> (string \<Rightarrow> string list \<Rightarrow> 'w \<Rightarrow> 'w) \<Rightarrow> 'w driver \<Rightarrow> 'w load_callback \<Rightarrow> bool" where
  "keeps_temps tmps F close d dl \<longleftrightarrow>
     temp_fs tmps F \<and> (\<forall>w. tmps (snd (dr_Features d w)) = tmps w) \<and> (\<forall>w. tmps (snd (dr_List d w)) = tmps w) \<and>
     (\<forall>r p w. tmps (close r p w) = tmps w) \<and>
     (\<forall>ex w. case dl ex w of (Inl _, w1) \<Rightarrow> tmps w1 = tmps w
        | (Inr (_, r), w1) \<Rightarrow> tmps w1 = tmps w \<and> (\<exists>runtime pods. r = ReleaseLoader runtime pods))"

lemma keeps_temps_step:
  assumes "keeps_temps tmps F close d dl"
  shows "dr_Features d w = (x, w1) \<Longrightarrow> tmps w1 = tmps w" "dr_List d w = (y, w1) \<Longrightarrow> tmps w1 = tmps w"
    "dl ex w = (Ok (wr, r), w1) \<Longrightarrow> tmps w1 = tmps w \<and> (\<exists>runtime pods. r = ReleaseLoader runtime pods)"
    "dl ex w = (Err e, w1) \<Longrightarrow> tmps w1 = tmps w"
    "tmps (close runtime pods w) = tmps w"
proof -
  note parts = assms[unfolded keeps_temps_def]
  have dl: "case dl ex w of (Inl _, w1) \<Rightarrow> tmps w1 = tmps w
      | (Inr (_, r), w1) \<Rightarrow> tmps w1 = tmps w \<and> (\<exists>runtime pods. r = ReleaseLoader runtime pods)"
    by (rule parts[THEN conjunct2, THEN conjunct2, THEN conjunct2, THEN conjunct2, THEN spec, THEN spec])
  have feats: "tmps (snd (dr_Features d w)) = tmps w" and list: "tmps (snd (dr_List d w)) = tmps w"
    and close: "tmps (close runtime pods w) = tmps w"
    using parts by simp_all
  from feats show "dr_Features d w = (x, w1) \<Longrightarrow> tmps w1 = tmps w" by simp
  from list show "dr_List d w = (y, w1) \<Longrightarrow> tmps w1 = tmps w" by simp
  from dl show "dl ex w = (Ok (wr, r), w1) \<Longrightarrow> tmps w1 = tmps w \<and> (\<exists>runtime pods. r = ReleaseLoader runtime pods)"
    "dl ex w = (Err e, w1) \<Longrightarrow> tmps w1 = tmps w" by simp_all
  from close show "tmps (close runtime pods w) = tmps w" .
qed

lemma check_cache_exports_tmps:
  assumes "keeps_temps tmps F close d dl"
  shows "check_cache_exports d es w = (Ok u, w') \<Longrightarrow> tmps w' = tmps w"
proof (induction es arbitrary: w)
  case Nil
  then show ?case by (simp add: io_simps)
next
  case (Cons e es)
  then show ?case using keeps_temps_step(1)[OF assms]
    by (auto simp: io_simps split: if_splits)
qed

lemma prepare_exports_tmps:
  assumes "keeps_temps tmps F close d dl" and "prepare_exports F parse_ref d multi opt w = (Ok r, w')"
  shows "tmps w' = tmps w"
proof -
  obtain w1 w2 feats where p: "remove_image_id F multi opt w = (Ok (), w1)"
    "check_cache_exports d (cache_to_of opt) w1 = (Ok (), w2)" "dr_Features d w2 = (feats, w')"
    using assms(2) by (auto simp: prepare_exports_def io_simps)
  have F: "temp_fs tmps F" using assms(1) by (simp add: keeps_temps_def)
  obtain x v where v: "fs_remove F (op_image_id_file opt) w = (x, v)" by fastforce
  have "tmps w1 = tmps w"
    using p(1) v temp_fs_step(3)[OF F v]
    by (auto simp: remove_image_id_def io_simps split: if_splits option.splits)
  then show ?thesis
    using check_cache_exports_tmps[OF assms(1) p(2)] keeps_temps_step(1)[OF assms(1) p(3)] by simp
qed

lemma set_exporter_tmps:
  assumes "keeps_temps tmps F close d dl" and "set_exporter d feats iid (\<lambda>e. dl (f e)) e w = (Ok (e', rs), w')"
  shows "tmps w' = tmps w \<and> (\<exists>ls. rs = map (\<lambda>(r, p). ReleaseLoader r p) ls)"
proof -
  have one: "\<exists>ls. [ReleaseLoader r p] = map (\<lambda>(r, p). ReleaseLoader r p) ls" for r p
    by (rule exI[of _ "[(r, p)]"]) simp
  show ?thesis
    using assms(2) keeps_temps_step(2)[OF assms(1)] keeps_temps_step(3)[OF assms(1)] one
    by (auto simp: set_exporter_def Let_def io_simps split: if_splits) metis+
qed

text \<open>The directories that release functions remove.\<close>

fun dirs_of :: "release \<Rightarrow> string set" where
  "dirs_of (ReleaseDirs dirs) = set dirs"
| "dirs_of (ReleaseLoader runtime pods) = {}"

definition release_dirs :: "release list \<Rightarrow> string set" where
  "release_dirs rel = \<Union> (dirs_of ` set rel)"

lemma release_dirs_simps [simp]:
  "release_dirs [] = {}" "release_dirs (r # rs) = dirs_of r \<union> release_dirs rs"
  "release_dirs (rs @ ts) = release_dirs rs \<union> release_dirs ts"
  by (auto simp: release_dirs_def)

lemma tmps_run_releases:
  assumes "temp_fs tmps F" and "\<And>r p w. tmps (close r p w) = tmps w"
  shows "tmps (run_releases F close rel w) = tmps w - release_dirs rel"
proof -
  have "tmps (fold (run_release F close) rel w) = tmps w - release_dirs rel"
  proof (induction rel arbitrary: w)
    case Nil
    show ?case by simp
  next
    case (Cons r rs)
    have "tmps (run_release F close r w) = tmps w - dirs_of r"
      using tmps_remove_dirs[OF assms(1)] assms(2) by (cases r) auto
    then show ?case using Cons by auto
  qed
  then show ?thesis by (simp add: run_releases_def)
qed

text \<open>The directories that prepared solve options have made are new, and those to release.\<close>

lemma toSolveOpt_temps:
  assumes "keeps_temps tmps F close d dl"
    and "toSolveOpt F close parse_ref d multi opt dl w = (Ok (so, exports, rel), w')"
  shows "tmps w' = tmps w \<union> (release_dirs rel - {[]})" and "release_dirs rel \<inter> tmps w = {}"
proof -
  from assms(2) obtain feats ex1 w1 rel0 w2 so1 dirs w3 where
    pre: "prepare_exports F parse_ref d multi opt w = (Ok (feats, ex1), w1)"
    and set: "set_exporters d feats (op_image_id_file opt \<noteq> []) dl [] [] ex1 w1 = (Ok exports, rel0, w2)"
    and load: "LoadInputs F (op_inputs opt) (base_solve_opt multi opt) w2 = (Ok (so1, dirs), w3)"
    and fin: "finish_solve d opt so1 w3 = (Ok so, w')" and rel: "rel = rel0 @ [ReleaseDirs dirs]"
    by (rule toSolveOpt_Ok)
  have F: "temp_fs tmps F" using assms(1) by (simp add: keeps_temps_def)
  from pre obtain e1 where e1: "ex1 = [e1]" by (rule prepare_exports_Ok)
  obtain e where e: "set_exporter d feats (op_image_id_file opt \<noteq> []) (\<lambda>e. dl [e]) e1 w1 = (Ok (e, rel0), w2)"
    using set e1(1) by (auto split: prod.splits sum.splits)
  obtain ls where ls: "tmps w2 = tmps w1" "rel0 = map (\<lambda>(r, p). ReleaseLoader r p) ls"
    using set_exporter_tmps[OF assms(1) e] by blast
  have none: "release_dirs rel0 = {}" unfolding ls(2) by (induction ls) auto
  have "tmps w' = tmps w3"
    using fin keeps_temps_step(1)[OF assms(1)]
    by (auto simp: finish_solve_def platform_attr_def Let_def io_simps split: if_splits)
  then show "tmps w' = tmps w \<union> (release_dirs rel - {[]})" "release_dirs rel \<inter> tmps w = {}"
    using LoadInputs_dirs[OF F load] prepare_exports_tmps[OF assms(1) pre] ls(1)
    by (auto simp: rel none)
qed

text \<open>Nothing but an upload joins the session after the options.\<close>

lemma finish_solve_session: "finish_solve d opt so1 w = (Ok so, w') \<Longrightarrow> so_session so = so_session so1"
proof -
  assume run: "finish_solve d opt so1 w = (Ok so, w')"
  have fold: "so_session (fold (\<lambda>(k, v). set_attr (pre @ k) v) kvs s) = so_session s" for pre kvs s
    by (induction kvs arbitrary: s) auto
  have opts: "so_session (option_attrs opt so1) = so_session so1"
    by (simp only: option_attrs_def Let_def fold if_distrib[of so_session] set_attr_simps if_cancel)
  obtain so2 w2 so3 hosts where
    p: "platform_attr d opt (option_attrs opt so1) w = (Ok so2, w2)" "network_mode opt so2 = Ok so3"
    "so = set_attr ''add-hosts'' hosts so3"
    using run by (auto simp: finish_solve_def io_simps)
  have "so_session so2 = so_session (option_attrs opt so1)"
    using p(1) by (auto simp: platform_attr_def Let_def io_simps split: if_splits)
  moreover have "so_session so3 = so_session so2"
    using p(2) by (auto simp: network_mode_def Let_def split: if_splits)
  ultimately show ?thesis using p(3) opts by simp
qed

lemma toSolveOpt_session:
  assumes "toSolveOpt F close parse_ref d multi opt dl w = (Ok (so, exports, rel), w')"
  shows "\<exists>up. so_session so = op_session opt @ map UploadProvider up"
proof -
  from assms obtain so1 dirs w2 w3 where
    l: "LoadInputs F (op_inputs opt) (base_solve_opt multi opt) w2 = (Ok (so1, dirs), w3)"
    and f: "finish_solve d opt so1 w3 = (Ok so, w')"
    by (rule toSolveOpt_Ok)
  have "so_session (base_solve_opt multi opt) = op_session opt" by (simp add: base_solve_opt_def Let_def)
  then show ?thesis using LoadInputs_frame(6)[OF l] finish_solve_session[OF f] by simp
qed

text \<open>
  The release functions of prepared solve options undo the load of the inputs: when the
  loader and the driver leave the temporary directories alone, then after the release
  functions the directories are those from before.
\<close>

theorem toSolveOpt_release:
  assumes "keeps_temps tmps F close d dl"
    and "toSolveOpt F close parse_ref d multi opt dl w = (Ok (so, exports, rel), w')"
  shows "tmps (run_releases F close rel w') = tmps w"
proof -
  have "temp_fs tmps F" using assms(1) by (simp add: keeps_temps_def)
  then have "tmps (run_releases F close rel w') = tmps w' - release_dirs rel" and "[] \<notin> tmps w"
    using tmps_run_releases[of tmps F close] keeps_temps_step(5)[OF assms(1)] by (auto simp: temp_fs_def)
  then show ?thesis using toSolveOpt_temps[OF assms] by auto
qed

section \<open>An example\<close>

definition image_driver :: "string list driver" where
  "image_driver =
     \<lparr>dr_Bootstrap = (\<lambda>l w. (None, w)), dr_Info = (\<lambda>w. (Ok \<lparr>in_status = Running, in_nodes = []\<rparr>, w)),
      dr_Stop = (\<lambda>f w. (None, w)), dr_Rm = (\<lambda>f w. (None, w)), dr_Clients = (\<lambda>w. (Ok example_clients, w)),
      dr_Features = (\<lambda>w. ([ContainerdExporter \<mapsto> True, OCIExporter \<mapsto> True, CacheExport \<mapsto> True, MultiPlatform \<mapsto> True], w)),
      dr_List = (\<lambda>w. (Ok [], w)), dr_RuntimeSockProxy = (\<lambda>n w. (Err (External ''none''), w)),
      dr_GetVersion = (\<lambda>w. (Ok ''v1'', w)), dr_GetAuthHintMessage = (\<lambda>w. []), dr_Factory_Name = ''example'',
      dr_GetAuthProvider = (\<lambda>n w. n), dr_GetAuthWrapper = (\<lambda>n w. n)\<rparr>"

definition example_options :: options where
  "example_options =
     \<lparr>op_inputs = \<lparr>inp_context = ''.'', inp_dockerfile = []\<rparr>, op_tags = [''img''], op_labels = [(''a'', ''b'')],
      op_build_args = [(''V'', ''1'')], op_pull = False, op_image_id_file = [], op_extra_hosts = [],
      op_network = ''none'', op_no_cache = True, op_target = ''bin'', op_platforms = [],
      op_exports = [new_export ''runtime'' Map.empty], op_session = [], op_cache_from = [], op_cache_to = [],
      op_allow = [], op_frontend = []\<rparr>"

definition no_loader :: "string list load_callback" where
  "no_loader = (\<lambda>ex. io_err io_EOF)"

lemma example_solve:
  "\<exists>so exports rel w'. toSolveOpt example_fs (\<lambda>r p w. w) Ok image_driver multi example_options no_loader w =
     (Ok (so, exports, rel), w')"
  by (simp add: toSolveOpt_def prepare_exports_def remove_image_id_def cache_to_of_def check_one_export_def
      name_exports_def runtime_export_def has_feature_def parse_tag_def named_export_def set_exporter_def
      multi_node_def pushing_def new_export_def finish_solve_def platform_attr_def network_mode_def
      toBuildkitExtraHosts_def LoadInputs_def load_context_def example_fs_def example_options_def image_driver_def
      feature_defs Let_def io_bind_def io_ok_def io_get_def io_lift_def)


theorem toSolveOpt_export_witness:
  "\<exists>so exports rel w' e. toSolveOpt example_fs (\<lambda>r p w. w) Ok image_driver False example_options no_loader [] =
     (Ok (so, exports, rel), w') \<and> exports = [e] \<and> ee_type e \<noteq> ''runtime''"
proof -
  obtain so exports rel w' where run: "toSolveOpt example_fs (\<lambda>r p w. w) Ok image_driver False example_options no_loader [] =
     (Ok (so, exports, rel), w')" using example_solve by blast
  from toSolveOpt_export[OF run] run show ?thesis by auto
qed

theorem toSolveOpt_release_example:
  "\<exists>so exports rel w'. toSolveOpt example_fs (\<lambda>r p w. w) Ok image_driver False example_options no_loader [''/tmp''] =
     (Ok (so, exports, rel), w') \<and> set (run_releases example_fs (\<lambda>r p w. w) rel w') - {[]} = {''/tmp''}"
proof -
  have keep: "keeps_temps (\<lambda>w. set w - {[]}) example_fs (\<lambda>r p w. w) image_driver no_loader"
    using example_temp_fs by (simp add: keeps_temps_def image_driver_def no_loader_def io_err_def)
  obtain so exports rel w' where run:
    "toSolveOpt example_fs (\<lambda>r p w. w) Ok image_driver False example_options no_loader [''/tmp''] = (Ok (so, exports, rel), w')"
    using example_solve by blast
  from toSolveOpt_release[OF keep run] run show ?thesis by auto
qed

end
