(* ===== verification/BuildDrivers.thy ===== *)
theory BuildDrivers
  imports SolveOpt
begin

text \<open>
  Which driver builds what: the first part of \<open>pkg/build/build.go\<close>, from
  \<open>filterAvailableDrivers\<close> to \<open>toRepoOnly\<close>. The targets of a build are a Go map, an
  association list in the order in which this run visits it; where the code ranges over a map
  that it has just made, the order is an argument. The goroutines of an error group run when
  the group is waited for, one after the other: a failure cancels their context, and a boot
  under a cancelled context makes no call (\<open>Boot_cancelled\<close>).
\<close>

section \<open>Drivers\<close>

record 'w driver_info =
  di_driver :: "'w driver option"
  di_name :: string
  di_platforms :: "platform list"
  di_err :: "go_error option"

definition available :: "'w driver_info \<Rightarrow> bool" where
  "available di \<longleftrightarrow> di_err di = None \<and> di_driver di \<noteq> None"

definition filterAvailableDrivers :: "'w driver_info list \<Rightarrow> 'w driver_info list result" where
  "filterAvailableDrivers drivers =
     (let out = filter available drivers;
          err = foldl (\<lambda>err di. case di_err di of Some e \<Rightarrow> e | None \<Rightarrow> err) (Errorf ''no drivers found'' []) drivers
      in if out \<noteq> [] then Ok out else Err err)"

text \<open>The solve options of a pair are filled in later, by the build.\<close>

record driver_pair =
  dp_index :: nat
  dp_platforms :: "platform list"

type_synonym 'a targets = "(string \<times> 'a) list"

definition driverIndexes :: "driver_pair list targets \<Rightarrow> nat list" where
  "driverIndexes m =
     foldl (\<lambda>out d. if dp_index d \<in> set out then out else out @ [dp_index d]) [] (concat (map snd m))"

definition allIndexes :: "nat \<Rightarrow> nat list" where
  "allIndexes l = [0..<l]"

section \<open>Booting\<close>

type_synonym clients = "(string \<times> (string \<times> exec_conn) list) list"

definition nth_driver :: "'w driver_info list \<Rightarrow> nat \<Rightarrow> 'w driver result" where
  "nth_driver drivers i =
     (if i < length drivers then
        (case di_driver (drivers ! i) of
           Some d \<Rightarrow> Ok d
         | None \<Rightarrow> Err (Panic ''nil pointer dereference''))
      else Err (Panic ''index out of range''))"

definition reset_clients :: "'w driver_info list \<Rightarrow> nat list \<Rightarrow> clients" where
  "reset_clients drivers idxs = foldl (\<lambda>cs i. AList.update (di_name (drivers ! i)) [] cs) [] idxs"

definition add_client :: "string \<Rightarrow> node_client \<Rightarrow> clients \<Rightarrow> clients" where
  "add_client name nc cs =
     (let nodes = (case map_of cs name of Some ns \<Rightarrow> ns | None \<Rightarrow> [])
      in AList.update name (AList.update (nc_name nc) (nc_client nc) nodes) cs)"

fun boot_all ::
  "'w sys \<Rightarrow> 'w driver_info list \<Rightarrow> 'w logger option \<Rightarrow> nat list \<Rightarrow> clients \<Rightarrow> 'w \<Rightarrow> (clients result \<times> 'w) option" where
  "boot_all sys drivers pw [] cs w = Some (Ok cs, w)"
| "boot_all sys drivers pw (i # is) cs w =
     (case nth_driver drivers i of
        Inl e \<Rightarrow> Some (Err e, w)
      | Inr d \<Rightarrow>
          (case Boot sys d pw w of
             None \<Rightarrow> None
           | Some (Inl e, w) \<Rightarrow> Some (Err e, w)
           | Some (Inr bc, w) \<Rightarrow>
               boot_all sys drivers pw is (add_client (di_name (drivers ! i)) (bc_chosen bc) cs) w))"

definition ensureBooted ::
  "'w sys \<Rightarrow> 'w driver_info list \<Rightarrow> nat list \<Rightarrow> 'w logger option \<Rightarrow> 'w \<Rightarrow> (clients result \<times> 'w) option" where
  "ensureBooted sys drivers idxs pw w = boot_all sys drivers pw idxs (reset_clients drivers idxs) w"

section \<open>Platforms\<close>

type_synonym platform_table = "string \<rightharpoonup> nat"

definition platform_index :: "platform_table \<Rightarrow> platform \<Rightarrow> nat" where
  "platform_index av p = (case av (Format_platform p) of Some i \<Rightarrow> i | None \<Rightarrow> 0)"

definition add_platform :: "platform_table \<Rightarrow> (nat \<times> platform list) list \<Rightarrow> platform \<Rightarrow> (nat \<times> platform list) list" where
  "add_platform av mm p =
     (let idx = platform_index av p; pp = (case map_of mm idx of Some pp \<Rightarrow> pp | None \<Rightarrow> [])
      in AList.update idx (pp @ [p]) mm)"

definition split_target ::
  "((nat \<times> platform list) list \<Rightarrow> (nat \<times> platform list) list) \<Rightarrow> platform_table \<Rightarrow> platform list \<Rightarrow> driver_pair list" where
  "split_target visit av ps =
     map (\<lambda>(idx, pp). \<lparr>dp_index = idx, dp_platforms = pp\<rparr>) (visit (foldl (add_platform av) [] ps))"

definition splitToDriverPairs ::
  "((nat \<times> platform list) list \<Rightarrow> (nat \<times> platform list) list) \<Rightarrow> platform_table \<Rightarrow> options targets \<Rightarrow> driver_pair list targets" where
  "splitToDriverPairs visit av opts = map (\<lambda>(k, opt). (k, split_target visit av (op_platforms opt))) opts"

definition availablePlatforms :: "'w driver_info list \<Rightarrow> platform_table" where
  "availablePlatforms drivers =
     foldl (\<lambda>av (i, d). foldl (\<lambda>av p. av(Format_platform p \<mapsto> i)) av (di_platforms d)) Map.empty (List.enumerate 0 drivers)"

definition platforms_of :: "options targets \<Rightarrow> platform list" where
  "platforms_of opts = concat (map (\<lambda>(_, opt). op_platforms opt) opts)"

section \<open>Asking the workers\<close>

text \<open>
  The environment of the slow path: the orders in which the maps are visited; how many
  drivers further the loop over the clients is when the goroutine of a driver reads the loop
  variable, which they share; and the call of the builder, with the platforms of each worker.
\<close>

record 'w resolve_env =
  re_visit_pairs :: "(nat \<times> platform list) list \<Rightarrow> (nat \<times> platform list) list"
  re_visit_clients :: "clients \<Rightarrow> clients"
  re_lag :: "nat \<Rightarrow> nat"
  re_list_workers :: "exec_conn \<Rightarrow> (platform list list, 'w) io"
  re_host :: host

text \<open>The goroutines: the driver's position in the visit and the name of the node.\<close>

definition worker_calls :: "clients \<Rightarrow> (nat \<times> string) list" where
  "worker_calls cs = concat (map (\<lambda>(j, _, nodes). map (\<lambda>(node, _). (j, node)) nodes) (List.enumerate 0 cs))"

definition client_at :: "clients \<Rightarrow> nat \<Rightarrow> string \<Rightarrow> exec_conn result" where
  "client_at cs j node =
     (case map_of (snd (cs ! min j (length cs - 1))) node of
        Some c \<Rightarrow> Ok c
      | None \<Rightarrow> Err (Panic ''nil pointer dereference''))"

text \<open>\<open>workers[i] = ww\<close> for the \<open>i\<close>-th goroutine; the slice has an element for each driver name.\<close>

definition list_worker :: "'w resolve_env \<Rightarrow> clients \<Rightarrow> nat \<Rightarrow> nat \<times> string \<Rightarrow> (platform list list, 'w) io" where
  "list_worker E cs i = (\<lambda>(j, node).
     io_bind (io_lift (client_at cs (j + re_lag E j) node)) (\<lambda>c w.
       case re_list_workers E c w of
         (Inl e, w) \<Rightarrow> (Err (Wrapf e ''listing workers'' []), w)
       | (Inr ww, w) \<Rightarrow> if i < length cs then (Ok ww, w) else (Err (Panic ''index out of range''), w)))"

definition list_all_workers :: "'w resolve_env \<Rightarrow> clients \<Rightarrow> (platform list list list, 'w) io" where
  "list_all_workers E cs =
     io_map (\<lambda>(i, call). list_worker E cs i call) (List.enumerate 0 (worker_calls cs))"

definition merge_workers :: "host \<Rightarrow> platform_table \<Rightarrow> platform list list list \<Rightarrow> platform_table" where
  "merge_workers h av workers =
     foldl (\<lambda>av (i, ww). foldl (\<lambda>av p.
         let ps = Format_platform (Normalize h p) in if av ps = None then av(ps \<mapsto> i) else av) av (concat ww))
       av (List.enumerate 0 workers)"

section \<open>Resolving\<close>

definition resolveDrivers ::
  "'w sys \<Rightarrow> 'w resolve_env \<Rightarrow> 'w driver_info list \<Rightarrow> options targets \<Rightarrow> 'w logger option \<Rightarrow> 'w \<Rightarrow>
     ((driver_pair list targets \<times> clients) result \<times> 'w) option" where
  "resolveDrivers sys E drivers opts pw w =
     (let av = availablePlatforms drivers;
          undetected = list_ex (\<lambda>p. av (Format_platform p) = None) (platforms_of opts);
          booted = (\<lambda>m. case ensureBooted sys drivers (driverIndexes m) pw w of
             None \<Rightarrow> None
           | Some (Inl e, w) \<Rightarrow> Some (Err e, w)
           | Some (Inr cs, w) \<Rightarrow> Some (Ok (m, cs), w))
      in
      if length drivers = 1 \<or> platforms_of opts = [] then
        booted (map (\<lambda>(k, opt). (k, [\<lparr>dp_index = 0, dp_platforms = op_platforms opt\<rparr>])) opts)
      else if \<not> undetected then booted (splitToDriverPairs (re_visit_pairs E) av opts)
      else
        (case ensureBooted sys drivers (allIndexes (length drivers)) pw w of
           None \<Rightarrow> None
         | Some (Inl e, w) \<Rightarrow> Some (Err e, w)
         | Some (Inr cs, w) \<Rightarrow>
             (case list_all_workers E (re_visit_clients E cs) w of
                (Inl e, w) \<Rightarrow> Some (Err e, w)
              | (Inr workers, w) \<Rightarrow>
                  Some (Ok (splitToDriverPairs (re_visit_pairs E) (merge_workers (re_host E) av workers) opts, cs), w))))"

section \<open>Repository names\<close>

text \<open>The names without tags, each once; \<open>visit\<close> is the order of the set.\<close>

definition toRepoOnly ::
  "(string \<Rightarrow> string result) \<Rightarrow> (string list \<Rightarrow> string list) \<Rightarrow> string \<Rightarrow> string result" where
  "toRepoOnly parse_named visit s =
     and_then (map_res parse_named (split_on COMMA s)) (\<lambda>names. Ok (join_with [COMMA] (visit (remdups names))))"


section \<open>Lemmas\<close>

lemma filterAvailableDrivers_Ok:
  assumes "filterAvailableDrivers drivers = Ok out"
  shows "out = filter available drivers" and "out \<noteq> []" and "list_all available out"
  using assms by (auto simp: filterAvailableDrivers_def Let_def list_all_iff split: if_splits)

lemma Boot_cancelled:
  assumes "sys_done sys w"
  shows "\<exists>e. Boot sys d pw w = Some (Err e, w)"
  using assms by (simp add: Boot_def loop_Return boot_round_def)

subsection \<open>Splitting\<close>

text \<open>The groups of a target: each index once, with its platforms in their order.\<close>

definition groups :: "platform_table \<Rightarrow> platform list \<Rightarrow> (nat \<times> platform list) list" where
  "groups av ps = map (\<lambda>i. (i, filter (\<lambda>p. platform_index av p = i) ps)) (rev (remdups (rev (map (platform_index av) ps))))"

lemma update_map_pair:
  assumes "distinct is"
  shows "AList.update i v (map (\<lambda>j. (j, g j)) is) =
    (if i \<in> set is then map (\<lambda>j. (j, if j = i then v else g j)) is else map (\<lambda>j. (j, g j)) is @ [(i, v)])"
  using assms by (induction "is") auto

lemma map_of_pair: "map_of (map (\<lambda>j. (j, g j)) is) i = (if i \<in> set is then Some (g i) else None)"
  by (induction "is") auto

lemma add_platform_groups: "add_platform av (groups av ps) p = groups av (ps @ [p])"
proof -
  let ?is = "rev (remdups (rev (map (platform_index av) ps)))" and ?i = "platform_index av p"
  have mem: "?i \<in> set ?is \<longleftrightarrow> ?i \<in> platform_index av ` set ps" by simp
  have none: "filter (\<lambda>q. platform_index av q = ?i) ps = []" if "?i \<notin> set ?is"
    using that by (auto simp: filter_empty_conv image_iff)
  show ?thesis
  proof (cases "?i \<in> set ?is")
    case True
    have "AList.update ?i (filter (\<lambda>q. platform_index av q = ?i) ps @ [p]) (groups av ps) =
        map (\<lambda>j. (j, if j = ?i then filter (\<lambda>q. platform_index av q = ?i) ps @ [p]
          else filter (\<lambda>q. platform_index av q = j) ps)) ?is"
      unfolding groups_def by (subst update_map_pair) (use True in auto)
    then show ?thesis using True
      by (auto simp: add_platform_def Let_def groups_def map_of_pair)
  next
    case False
    then show ?thesis
      using none[OF False]
      by (auto simp: add_platform_def Let_def groups_def map_of_pair update_map_pair)
  qed
qed

lemma foldl_add_platform: "foldl (add_platform av) [] ps = groups av ps"
proof (induction ps rule: rev_induct)
  case Nil
  show ?case by (simp add: groups_def)
next
  case (snoc p ps)
  then show ?case by (simp add: add_platform_groups)
qed

text \<open>Platforms sorted into groups are all there.\<close>

lemma mset_groups: "distinct is \<Longrightarrow> set (map f ps) \<subseteq> set is \<Longrightarrow>
  mset (concat (map (\<lambda>i. filter (\<lambda>p. f p = i) ps) is)) = mset ps"
proof (induction ps)
  case Nil
  then show ?case by (induction "is") auto
next
  case (Cons p ps)
  have step: "mset (concat (map (\<lambda>i. filter (\<lambda>q. f q = i) (p # ps)) js)) =
      (if f p \<in> set js then {#p#} else {#}) + mset (concat (map (\<lambda>i. filter (\<lambda>q. f q = i) ps) js))"
    if "distinct js" for js
    using that by (induction js) auto
  show ?case using Cons step[OF Cons.prems(1)] by simp
qed

lemma split_target_platforms:
  assumes "\<And>xs. mset (visit xs) = mset xs"
  shows "mset (concat (map dp_platforms (split_target visit av ps))) = mset ps"
proof -
  let ?is = "rev (remdups (rev (map (platform_index av) ps)))"
  have "mset (concat (map dp_platforms (split_target visit av ps))) = sum_mset (image_mset (mset \<circ> snd) (mset (visit (groups av ps))))"
    by (simp add: split_target_def foldl_add_platform mset_concat image_mset.compositionality comp_def split_beta flip: sum_mset_sum_list)
  also have "\<dots> = mset (concat (map snd (groups av ps)))"
    by (simp add: assms mset_concat image_mset.compositionality comp_def flip: sum_mset_sum_list)
  also have "\<dots> = mset (concat (map (\<lambda>i. filter (\<lambda>p. platform_index av p = i) ps) ?is))"
    by (simp only: groups_def list.map_comp comp_def snd_conv)
  also have "\<dots> = mset ps"
    by (rule mset_groups) auto
  finally show ?thesis .
qed

subsection \<open>Indexes and clients\<close>

lemma foldl_keeps:
  "(\<And>s x. P s \<Longrightarrow> x \<in> set xs \<Longrightarrow> P (f s x)) \<Longrightarrow> P s \<Longrightarrow> P (foldl f s xs)"
  by (induction xs arbitrary: s) auto

lemma io_map_Ok:
  assumes "io_map f xs w = (Ok ys, w')"
  shows "length ys = length xs" and "x \<in> set xs \<Longrightarrow> \<exists>w1 y w2. f x w1 = (Ok y, w2)"
  using assms by (induction xs arbitrary: w ys) (auto simp: io_simps)

definition has_client :: "clients \<Rightarrow> string \<Rightarrow> bool" where
  "has_client cs n \<longleftrightarrow> (\<exists>nodes. map_of cs n = Some nodes \<and> nodes \<noteq> [])"

lemma add_client_simps:
  "has_client (add_client n nc cs) m \<longleftrightarrow> m = n \<or> has_client cs m"
  "fst ` set (add_client n nc cs) = insert n (fst ` set cs)"
  "distinct (map fst cs) \<Longrightarrow> distinct (map fst (add_client n nc cs))"
  by (auto simp: has_client_def add_client_def Let_def update_conv dom_update distinct_update update_nonempty)

lemma boot_all_Ok:
  "boot_all sys drivers pw is cs w = Some (Ok cs', w') \<Longrightarrow>
     (\<forall>i \<in> set is. i < length drivers \<and> has_client cs' (di_name (drivers ! i))) \<and>
     (\<forall>n. has_client cs n \<longrightarrow> has_client cs' n) \<and>
     fst ` set cs' = fst ` set cs \<union> (\<lambda>i. di_name (drivers ! i)) ` set is \<and>
     (distinct (map fst cs) \<longrightarrow> distinct (map fst cs'))"
proof (induction "is" arbitrary: cs w)
  case (Cons i "is")
  obtain d where d: "nth_driver drivers i = Ok d" "i < length drivers"
    using Cons.prems by (auto simp: nth_driver_def split: sum.splits if_splits option.splits)
  obtain bc w1 where "Boot sys d pw w = Some (Ok bc, w1)"
    and "boot_all sys drivers pw is (add_client (di_name (drivers ! i)) (bc_chosen bc) cs) w1 = Some (Ok cs', w')"
    using Cons.prems d by (auto split: option.splits sum.splits)
  from Cons.IH[OF this(2)] d(2) show ?case by (auto simp: add_client_simps)
qed simp

lemma reset_clients_keys:
  "fst ` set (reset_clients drivers is) = (\<lambda>i. di_name (drivers ! i)) ` set is"
  "distinct (map fst (reset_clients drivers is))"
proof -
  have *: "fst ` set (foldl (\<lambda>cs i. AList.update (di_name (drivers ! i)) [] cs) cs is) =
      fst ` set cs \<union> (\<lambda>i. di_name (drivers ! i)) ` set is" for cs :: clients
    by (induction "is" arbitrary: cs) (auto simp: dom_update)
  show "fst ` set (reset_clients drivers is) = (\<lambda>i. di_name (drivers ! i)) ` set is"
    using *[of "[]"] by (simp add: reset_clients_def)
  show "distinct (map fst (reset_clients drivers is))"
    unfolding reset_clients_def by (rule foldl_keeps) (auto simp: distinct_update)
qed

lemma ensureBooted_Ok:
  assumes "ensureBooted sys drivers is pw w = Some (Ok cs, w')"
  shows "i \<in> set is \<Longrightarrow> i < length drivers \<and> has_client cs (di_name (drivers ! i))"
    and "length cs \<le> length drivers"
proof -
  note b = boot_all_Ok[OF assms[unfolded ensureBooted_def]]
  then show "i \<in> set is \<Longrightarrow> i < length drivers \<and> has_client cs (di_name (drivers ! i))" by blast
  have keys: "fst ` set cs \<subseteq> di_name ` set drivers"
    using b by (auto simp: reset_clients_keys)
  have "length cs = card (fst ` set cs)"
    using b reset_clients_keys(2) by (metis distinct_card length_map set_map)
  also have "\<dots> \<le> card (di_name ` set drivers)" by (rule card_mono) (use keys in auto)
  also have "\<dots> \<le> length drivers" by (meson card_image_le card_length finite_set le_trans)
  finally show "length cs \<le> length drivers" .
qed

definition below :: "nat \<Rightarrow> platform_table \<Rightarrow> bool" where
  "below n av \<longleftrightarrow> (\<forall>i \<in> ran av. i < n)"

lemma below_upd: "below n av \<Longrightarrow> i < n \<Longrightarrow> below n (av(k \<mapsto> i))"
  by (auto simp: below_def ran_def)

lemma below_less: "below n av \<Longrightarrow> av k = Some i \<Longrightarrow> i < n"
  by (auto simp: below_def ran_def)

lemma availablePlatforms_below: "below (length drivers) (availablePlatforms drivers)"
  unfolding availablePlatforms_def
proof (rule foldl_keeps[where P = "below (length drivers)"])
  show "below (length drivers) Map.empty" by (simp add: below_def)
  fix av id assume av: "below (length drivers) av" and "id \<in> set (List.enumerate 0 drivers)"
  then obtain i d where id: "id = (i, d)" "i < length drivers" by (cases id) (auto simp: in_set_enumerate_eq)
  show "below (length drivers) (case id of (i, d) \<Rightarrow> foldl (\<lambda>av p. av(Format_platform p \<mapsto> i)) av (di_platforms d))"
    unfolding id(1) prod.case by (rule foldl_keeps[where P = "below (length drivers)"]) (use av id(2) below_upd in auto)
qed

lemma merge_workers_below:
  assumes "below n av" and "length workers \<le> n"
  shows "below n (merge_workers h av workers)"
  unfolding merge_workers_def
proof (rule foldl_keeps[where P = "below n"])
  show "below n av" by (rule assms(1))
  fix av iw assume av: "below n av" and "iw \<in> set (List.enumerate 0 workers)"
  then obtain i ww where iw: "iw = (i, ww)" "i < n" using assms(2) by (cases iw) (auto simp: in_set_enumerate_eq)
  show "below n (case iw of (i, ww) \<Rightarrow> foldl (\<lambda>av p. let ps = Format_platform (Normalize h p)
      in if av ps = None then av(ps \<mapsto> i) else av) av (concat ww))"
    unfolding iw(1) prod.case by (rule foldl_keeps[where P = "below n"]) (use av iw(2) below_upd in \<open>auto simp: Let_def\<close>)
qed

lemma platform_index_less: "below n av \<Longrightarrow> 0 < n \<Longrightarrow> platform_index av p < n"
  by (auto simp: platform_index_def below_less split: option.split)

lemma list_worker_Ok: "list_worker E cs i call w = (Ok y, w') \<Longrightarrow> i < length cs"
proof -
  assume run: "list_worker E cs i call w = (Ok y, w')"
  obtain j node where call: "call = (j, node)" by fastforce
  obtain c where c: "client_at cs (j + re_lag E j) node = Ok c"
    using run by (auto simp: list_worker_def call io_simps)
  obtain r w1 where "re_list_workers E c w = (r, w1)" by fastforce
  then show "i < length cs"
    using run c by (cases r) (auto simp: list_worker_def call io_bind_def io_lift_def split: if_splits)
qed

lemma list_all_workers_length:
  assumes "list_all_workers E cs w = (Ok workers, w')"
  shows "length workers \<le> length cs"
proof (cases "worker_calls cs")
  case Nil
  then show ?thesis using io_map_Ok(1)[OF assms[unfolded list_all_workers_def]] by simp
next
  case (Cons c rest)
  let ?n = "length rest"
  have "?n < length (worker_calls cs)" by (simp add: Cons)
  then have "(?n, worker_calls cs ! ?n) \<in> set (List.enumerate 0 (worker_calls cs))"
    by (simp add: in_set_enumerate_eq)
  then obtain w1 y w2 where "list_worker E cs ?n (worker_calls cs ! ?n) w1 = (Ok y, w2)"
    using io_map_Ok(2)[OF assms[unfolded list_all_workers_def]] by fastforce
  then have "?n < length cs" by (rule list_worker_Ok)
  then show ?thesis
    using io_map_Ok(1)[OF assms[unfolded list_all_workers_def]] Cons by simp
qed

lemma split_target_index:
  assumes "\<And>xs. mset (visit xs) = mset xs" and "dp \<in> set (split_target visit av ps)"
  shows "\<exists>p \<in> set ps. dp_index dp = platform_index av p"
proof -
  have "set (visit xs) = set xs" for xs using assms(1) by (metis mset_eq_setD)
  then show ?thesis using assms(2) by (auto simp: split_target_def foldl_add_platform groups_def)
qed


lemma driverIndexes_mem:
  assumes "dps \<in> snd ` set m" and "dp \<in> set dps"
  shows "dp_index dp \<in> set (driverIndexes m)"
proof -
  have *: "set (foldl (\<lambda>out d. if dp_index d \<in> set out then out else out @ [dp_index d]) out ds) = set out \<union> dp_index ` set ds" for out ds
    by (induction ds arbitrary: out) auto
  have "set (driverIndexes m) = dp_index ` set (concat (map snd m))" unfolding driverIndexes_def * by simp
  then show ?thesis using assms by auto
qed

definition covers :: "options targets \<Rightarrow> driver_pair list targets \<Rightarrow> bool" where
  "covers opts m \<longleftrightarrow> map fst m = map fst opts \<and>
     list_all2 (\<lambda>(_, opt) (_, dps). mset (concat (map dp_platforms dps)) = mset (op_platforms opt)) opts m"

lemma covers_split:
  assumes "\<And>xs. mset (visit xs) = mset xs"
  shows "covers opts (splitToDriverPairs visit av opts)"
  by (induction opts) (auto simp: covers_def splitToDriverPairs_def split_target_platforms[OF assms])

lemma splitToDriverPairs_mem:
  "dps \<in> snd ` set (splitToDriverPairs visit av opts) \<Longrightarrow> \<exists>ps. dps = split_target visit av ps"
  unfolding splitToDriverPairs_def by (induction opts) auto

lemma covers_fast: "covers opts (map (\<lambda>(k, opt). (k, [\<lparr>dp_index = 0, dp_platforms = op_platforms opt\<rparr>])) opts)"
  by (induction opts) (auto simp: covers_def)

text \<open>The ways in which the drivers are resolved.\<close>

lemma resolveDrivers_Ok:
  assumes "resolveDrivers sys E drivers opts pw w = Some (Ok (m, cs), w')"
  obtains (direct) "covers opts m \<or> m = splitToDriverPairs (re_visit_pairs E) (availablePlatforms drivers) opts"
      "ensureBooted sys drivers (driverIndexes m) pw w = Some (Ok cs, w')"
  | (slow) w1 workers where "ensureBooted sys drivers (allIndexes (length drivers)) pw w = Some (Ok cs, w1)"
      "list_all_workers E (re_visit_clients E cs) w1 = (Ok workers, w')"
      "m = splitToDriverPairs (re_visit_pairs E) (merge_workers (re_host E) (availablePlatforms drivers) workers) opts"
proof -
  let ?fast = "map (\<lambda>(k, opt). (k, [\<lparr>dp_index = 0, dp_platforms = op_platforms opt\<rparr>])) opts"
  let ?known = "splitToDriverPairs (re_visit_pairs E) (availablePlatforms drivers) opts"
  let ?booted = "\<lambda>m. case ensureBooted sys drivers (driverIndexes m) pw w of None \<Rightarrow> None
    | Some (Inl e, w) \<Rightarrow> Some (Err e, w) | Some (Inr cs, w) \<Rightarrow> Some (Ok (m, cs), w)"
  have booted: "m = m' \<and> ensureBooted sys drivers (driverIndexes m) pw w = Some (Ok cs, w')"
    if "?booted m' = Some (Ok (m, cs), w')" for m'
    using that by (auto split: option.splits sum.splits)
  show thesis
  proof (cases "length drivers = 1 \<or> platforms_of opts = []")
    case True
    then have "?booted ?fast = Some (Ok (m, cs), w')" using assms by (simp add: resolveDrivers_def Let_def)
    then show thesis using direct booted covers_fast by blast
  next
    case False
    show thesis
    proof (cases "list_ex (\<lambda>p. availablePlatforms drivers (Format_platform p) = None) (platforms_of opts)")
      case True
      obtain cs' w1 where boot: "ensureBooted sys drivers (allIndexes (length drivers)) pw w = Some (Ok cs', w1)"
        using assms False True by (simp add: resolveDrivers_def Let_def split: option.splits sum.splits prod.splits)
      obtain r w2 where list: "list_all_workers E (re_visit_clients E cs') w1 = (r, w2)" by fastforce
      show thesis
        using assms False True boot list slow[of w1]
        by (cases r) (simp_all add: resolveDrivers_def Let_def)
    next
      case known: False
      then have "?booted ?known = Some (Ok (m, cs), w')" using assms False by (simp add: resolveDrivers_def Let_def)
      then show thesis using direct booted by blast
    qed
  qed
qed

section \<open>Properties\<close>

text \<open>
  C1: The drivers of a build cover it. For every target, the platforms of its driver pairs are
  the platforms of the target, each as often as it was asked for, in whatever order the maps
  are visited; and the driver of each pair exists and has a client, so that the build will
  not run into a nil client.
\<close>

theorem resolveDrivers_covers:
  assumes "\<And>xs. mset (re_visit_pairs E xs) = mset xs" and "\<And>xs. mset (re_visit_clients E xs) = mset xs"
    and "drivers \<noteq> []" and "resolveDrivers sys E drivers opts pw w = Some (Ok (m, cs), w')"
  shows "map fst m = map fst opts \<and>
    list_all2 (\<lambda>(_, opt) (_, dps). mset (concat (map dp_platforms dps)) = mset (op_platforms opt)) opts m \<and>
    (\<forall>dps \<in> snd ` set m. \<forall>dp \<in> set dps. dp_index dp < length drivers \<and> has_client cs (di_name (drivers ! dp_index dp)))"
proof -
  let ?av = "availablePlatforms drivers"
  from assms(4) have "covers opts m \<and> (\<forall>dps \<in> snd ` set m. \<forall>dp \<in> set dps. dp_index dp < length drivers \<and> has_client cs (di_name (drivers ! dp_index dp)))"
  proof (cases rule: resolveDrivers_Ok)
    case direct
    have "covers opts m" using direct(1) covers_split[OF assms(1)] by auto
    then show ?thesis using ensureBooted_Ok(1)[OF direct(2) driverIndexes_mem] by simp
  next
    case (slow w1 workers)
    note boot = slow(1) and list = slow(2) and m = slow(3)
    have "length (re_visit_clients E cs) = length cs" by (metis assms(2) size_mset)
    then have "length workers \<le> length drivers"
      using list_all_workers_length[OF list] ensureBooted_Ok(2)[OF boot] by simp
    then have av: "below (length drivers) (merge_workers (re_host E) ?av workers)"
      by (intro merge_workers_below availablePlatforms_below)
    have idx: "dp_index dp < length drivers" if "dps \<in> snd ` set m" "dp \<in> set dps" for dps dp
    proof -
      from that(1)[unfolded m] have *: "\<exists>ps. dps = split_target (re_visit_pairs E) (merge_workers (re_host E) ?av workers) ps"
        by (rule splitToDriverPairs_mem)
      note dp = that(2)
      from * obtain ps where ps: "dps = split_target (re_visit_pairs E) (merge_workers (re_host E) ?av workers) ps" ..
      obtain p where "dp_index dp = platform_index (merge_workers (re_host E) ?av workers) p"
        using split_target_index[OF assms(1) dp[unfolded ps]] by blast
      then show ?thesis using platform_index_less[OF av, of p] assms(3) by simp
    qed
    then have "\<forall>dps \<in> snd ` set m. \<forall>dp \<in> set dps. dp_index dp < length drivers \<and> has_client cs (di_name (drivers ! dp_index dp))"
      using ensureBooted_Ok(1)[OF boot] by (auto simp: allIndexes_def)
    then show ?thesis using m covers_split[OF assms(1)] by simp
  qed
  then show ?thesis by (simp add: covers_def)
qed


section \<open>Examples\<close>

definition still_sys :: "string list sys" where
  "still_sys =
     \<lparr>sys_now = (\<lambda>w. (0, w)), sys_id = (\<lambda>w. (''id'', w)), sys_draw = (\<lambda>n w. (Ok 0, w)),
      sys_sleep = (\<lambda>n w. w), sys_done = (\<lambda>w. False), sys_text = (\<lambda>e. ''failed'')\<rparr>"

definition pod_conn :: "string \<Rightarrow> exec_conn" where
  "pod_conn pod = \<lparr>x_namespace = ''default'', x_pod = pod, x_container = ''buildkitd'', x_cmd = [''buildctl'', ''dial-stdio'']\<rparr>"

text \<open>A driver that is up, with one pod.\<close>

definition pod_driver :: "string \<Rightarrow> string list driver_info" where
  "pod_driver pod =
     \<lparr>di_driver = Some (image_driver\<lparr>dr_Clients := \<lambda>w. (Ok \<lparr>bc_chosen =
        \<lparr>nc_name = pod, nc_addr = [], nc_client = pod_conn pod\<rparr>, bc_others = []\<rparr>, w)\<rparr>),
      di_name = pod, di_platforms = [], di_err = None\<rparr>"

definition linux_on :: "string \<Rightarrow> platform" where
  "linux_on arch = no_platform\<lparr>pf_os := ''linux'', pf_arch := arch\<rparr>"

text \<open>The pod \<open>intel\<close> builds for amd64, the pod \<open>apple\<close> for arm64.\<close>

definition two_workers :: "exec_conn \<Rightarrow> (platform list list, string list) io" where
  "two_workers c = io_ok [[linux_on (if x_pod c = ''intel'' then ''amd64'' else ''arm64'')]]"

definition example_resolve :: "(clients \<Rightarrow> clients) \<Rightarrow> string list resolve_env" where
  "example_resolve visit =
     \<lparr>re_visit_pairs = id, re_visit_clients = visit, re_lag = (\<lambda>_. 0), re_list_workers = two_workers,
      re_host = linux_host\<rparr>"

lemma Boot_pod_driver:
  "Boot still_sys (the (di_driver (pod_driver pod))) None w =
     Some (Ok \<lparr>bc_chosen = \<lparr>nc_name = pod, nc_addr = [], nc_client = pod_conn pod\<rparr>, bc_others = []\<rparr>, w)"
  by (simp add: Boot_def loop_Return boot_round_def still_sys_def pod_driver_def image_driver_def)

lemma pod_driver_sel:
  "di_name (pod_driver pod) = pod" "di_platforms (pod_driver pod) = []"
  by (simp_all add: pod_driver_def)

lemma pod_conn_sel: "x_pod (pod_conn pod) = pod"
  by (simp add: pod_conn_def)

lemma nth_pod_driver:
  "nth_driver [pod_driver a, pod_driver b] 0 = Ok (the (di_driver (pod_driver a)))"
  "nth_driver [pod_driver a, pod_driver b] (Suc 0) = Ok (the (di_driver (pod_driver b)))"
  "nth_driver [pod_driver a] 0 = Ok (the (di_driver (pod_driver a)))"
  by (simp_all add: nth_driver_def pod_driver_def)

lemma format_arm: "Format_platform (linux_on ''arm64'') = ''linux/arm64''"
    "Format_platform (linux_on ''amd64'') = ''linux/amd64''"
    "Normalize linux_host (linux_on ''arm64'') = linux_on ''arm64''"
    "Normalize linux_host (linux_on ''amd64'') = linux_on ''amd64''"
  by code_simp+


theorem resolveDrivers_covers_witness:
  "\<exists>m cs w'. resolveDrivers still_sys (example_resolve id) [pod_driver ''intel''] [(''default'', example_options)] None [] =
     Some (Ok (m, cs), w') \<and> map fst m = [''default'']"
proof -
  have run: "resolveDrivers still_sys (example_resolve id) [pod_driver ''intel''] [(''default'', example_options)] None [] =
     Some (Ok ([(''default'', [\<lparr>dp_index = 0, dp_platforms = op_platforms example_options\<rparr>])],
       [(''intel'', [(''intel'', pod_conn ''intel'')])]), [])"
    by (simp add: resolveDrivers_def Let_def ensureBooted_def driverIndexes_def reset_clients_def nth_pod_driver
        Boot_pod_driver add_client_def pod_driver_sel)
  from resolveDrivers_covers[OF _ _ _ run] show ?thesis
    unfolding run by (simp add: example_resolve_def)
qed

end
