(* ===== verification/Loaders.thy ===== *)
theory Loaders
  imports SolveOpt
begin

text \<open>
  Loading a built image into the runtimes of the cluster: \<open>newDockerLoader\<close>,
  \<open>newContainerdLoader\<close> and \<open>waitingWriter\<close> of \<open>pkg/build/build.go\<close>. A loader is named by its
  runtime and the pods that it loads through; the client libraries are functions of the
  record \<open>loader_env\<close>.

  The goroutines of a writer read the pipes while the build writes. A pipe hands a chunk over
  or fails with the error by which its reader was closed, so what a loader does to the writes
  is \<open>le_feed\<close>, asked for each chunk; what it does to the world is the body of the goroutine,
  which runs when the writer is closed and all the bytes are there.
\<close>

section \<open>The pods of a builder\<close>

definition builder_pods :: "builder list \<Rightarrow> string \<Rightarrow> string list" where
  "builder_pods builders name = concat (map (\<lambda>b. map bn_name (b_nodes b)) (filter (\<lambda>b. b_name b = name) builders))"

section \<open>The client libraries\<close>

datatype feed = Taken | Refused go_error | Stalled

text \<open>\<open>le_feed runtime conn data dt\<close>: what the reader of a pipe does with the chunk \<open>dt\<close> after
  \<open>data\<close>; \<open>conn\<close> is what dialing the runtime gave. A loaded docker image answers with a body to
  copy, an import with the names of the images to unpack.\<close>

record 'w loader_env =
  le_sys :: "'w sys"
  le_send :: "'w logger"
  le_docker_client :: "string \<Rightarrow> 'w action"
  le_containerd_client :: "string \<Rightarrow> 'w action"
  le_feed :: "string \<Rightarrow> exec_conn result \<Rightarrow> string \<Rightarrow> string \<Rightarrow> feed"
  le_image_load :: "exec_conn result \<Rightarrow> string \<Rightarrow> ('w action, 'w) io"
  le_import :: "exec_conn result \<Rightarrow> string \<Rightarrow> (string list, 'w) io"
  le_unpack :: "exec_conn result \<Rightarrow> string \<Rightarrow> 'w action"

section \<open>Making a loader\<close>

definition make_clients :: "(string \<Rightarrow> 'w action) \<Rightarrow> string \<Rightarrow> string list \<Rightarrow> (unit list, 'w) io" where
  "make_clients mk msg pods =
     io_map (\<lambda>pod w. case mk pod w of
         (Some e, w) \<Rightarrow> (Err (Wrapf e msg []), w)
       | (None, w) \<Rightarrow> (Ok (), w)) pods"

definition newDockerLoader :: "'w loader_env \<Rightarrow> 'w driver \<Rightarrow> string \<Rightarrow> (writer \<times> release, 'w) io" where
  "newDockerLoader L d name =
     io_bind (dr_List d) (\<lambda>builders.
     let pods = builder_pods builders name in
     if pods = [] then io_err (Errorf ''no builders found for %s'' [name])
     else
       io_bind (make_clients (le_docker_client L) ''failed to set up docker client via proxy'' pods) (\<lambda>_.
       io_ok (WLoader ''docker'' pods, ReleaseLoader ''docker'' pods)))"

definition newContainerdLoader :: "'w loader_env \<Rightarrow> 'w driver \<Rightarrow> string \<Rightarrow> (writer \<times> release, 'w) io" where
  "newContainerdLoader L d name =
     io_bind (dr_List d) (\<lambda>builders.
     let pods = builder_pods builders name in
     io_bind (make_clients (le_containerd_client L) ''failed to set up containerd client via proxy'' pods) (\<lambda>_.
     io_ok (WLoader ''containerd'' pods, ReleaseLoader ''containerd'' pods)))"

text \<open>The callback of \<open>Build\<close>: the first export of a type that can be loaded decides.\<close>

definition loader_callback :: "'w loader_env \<Rightarrow> 'w driver \<Rightarrow> string \<Rightarrow> 'w load_callback" where
  "loader_callback L d name exports =
     (case find (\<lambda>e. ee_type e = ''docker'' \<or> ee_type e = ''oci'') exports of
        None \<Rightarrow> io_err (Errorf ''raw push scenario not yet supported'' [])
      | Some e \<Rightarrow>
          if ee_type e = ''docker'' then newDockerLoader L d name else newContainerdLoader L d name)"

section \<open>The goroutines\<close>

definition dial_runtime :: "'w driver \<Rightarrow> string \<Rightarrow> string \<Rightarrow> 'w \<Rightarrow> exec_conn result \<times> 'w" where
  "dial_runtime d runtime pod w =
     (case dr_RuntimeSockProxy d pod w of
        (Inl e, w) \<Rightarrow> (Err (Wrapf e ''failed to set up %s runtime proxies through pod %s'' [runtime, pod]), w)
      | (Inr conn, w) \<Rightarrow> (Ok conn, w))"

text \<open>The result is the error by which the reader is closed.\<close>

definition docker_load :: "'w loader_env \<Rightarrow> string \<Rightarrow> exec_conn result \<Rightarrow> string \<Rightarrow> 'w action" where
  "docker_load L pod conn data w =
     (case le_image_load L conn data w of
        (Inl e, w) \<Rightarrow> (Some e, w)
      | (Inr copy, w) \<Rightarrow>
          (None, FromReader (le_sys L) (\<lambda>st. le_send L (forward [] False st)) (\<lambda>w. w)
             (''loading image to docker runtime via pod '' @ pod) copy w))"

fun unpack_all :: "'w loader_env \<Rightarrow> exec_conn result \<Rightarrow> string list \<Rightarrow> 'w action" where
  "unpack_all L conn [] w = (None, w)"
| "unpack_all L conn (img # imgs) w =
     (case le_unpack L conn img w of
        (Some e, w) \<Rightarrow> (Some e, w)
      | (None, w) \<Rightarrow> unpack_all L conn imgs w)"

definition containerd_load :: "'w loader_env \<Rightarrow> exec_conn result \<Rightarrow> string \<Rightarrow> 'w action" where
  "containerd_load L conn data w =
     (case le_import L conn data w of
        (Inl e, w) \<Rightarrow> (Some e, w)
      | (Inr imgs, w) \<Rightarrow> unpack_all L conn imgs w)"

definition run_loader :: "'w loader_env \<Rightarrow> string \<Rightarrow> string \<Rightarrow> exec_conn result \<Rightarrow> string \<Rightarrow> 'w action" where
  "run_loader L runtime pod conn data =
     (if runtime = ''docker'' then docker_load L pod conn data else containerd_load L conn data)"

section \<open>waitingWriter\<close>

text \<open>One pipe: its pod, what dialing gave, and the bytes that its reader has taken.\<close>

record pipe =
  pi_pod :: string
  pi_conn :: "exec_conn result"
  pi_data :: string

text \<open>\<open>ww_pipes\<close> is \<open>None\<close> until \<open>once\<close> has started the goroutines.\<close>

record waiting_writer =
  ww_runtime :: string
  ww_pods :: "string list"
  ww_pipes :: "pipe list option"

definition new_writer :: "string \<Rightarrow> string list \<Rightarrow> waiting_writer" where
  "new_writer runtime pods = \<lparr>ww_runtime = runtime, ww_pods = pods, ww_pipes = None\<rparr>"

fun dial_all :: "'w driver \<Rightarrow> string \<Rightarrow> string list \<Rightarrow> 'w \<Rightarrow> pipe list \<times> 'w" where
  "dial_all d runtime [] w = ([], w)"
| "dial_all d runtime (pod # pods) w =
     (let (conn, w) = dial_runtime d runtime pod w; (pipes, w) = dial_all d runtime pods w
      in (\<lparr>pi_pod = pod, pi_conn = conn, pi_data = []\<rparr> # pipes, w))"

text \<open>\<open>io.MultiWriter\<close>: the pipes in order, up to the first that fails. \<open>None\<close>: the write
  waits for a reader that does not read.\<close>

fun write_pipes :: "'w loader_env \<Rightarrow> string \<Rightarrow> string \<Rightarrow> pipe list \<Rightarrow> (go_error option \<times> pipe list) option" where
  "write_pipes L runtime dt [] = Some (None, [])"
| "write_pipes L runtime dt (p # ps) =
     (case le_feed L runtime (pi_conn p) (pi_data p) dt of
        Stalled \<Rightarrow> None
      | Refused e \<Rightarrow> Some (Some e, p # ps)
      | Taken \<Rightarrow>
          (case write_pipes L runtime dt ps of
             None \<Rightarrow> None
           | Some (err, ps) \<Rightarrow> Some (err, p\<lparr>pi_data := pi_data p @ dt\<rparr> # ps)))"

definition ww_start :: "'w driver \<Rightarrow> waiting_writer \<Rightarrow> 'w \<Rightarrow> pipe list \<times> 'w" where
  "ww_start d ww w =
     (case ww_pipes ww of
        Some pipes \<Rightarrow> (pipes, w)
      | None \<Rightarrow> dial_all d (ww_runtime ww) (ww_pods ww) w)"

definition ww_Write ::
  "'w loader_env \<Rightarrow> 'w driver \<Rightarrow> string \<Rightarrow> waiting_writer \<Rightarrow> 'w \<Rightarrow> (go_error option \<times> waiting_writer \<times> 'w) option" where
  "ww_Write L d dt ww w =
     (let (pipes, w) = ww_start d ww w in
      case write_pipes L (ww_runtime ww) dt pipes of
        None \<Rightarrow> None
      | Some (err, pipes) \<Rightarrow> Some (err, ww\<lparr>ww_pipes := Some pipes\<rparr>, w))"

fun load_pipes :: "'w loader_env \<Rightarrow> string \<Rightarrow> pipe list \<Rightarrow> 'w \<Rightarrow> 'w" where
  "load_pipes L runtime [] w = w"
| "load_pipes L runtime (p # ps) w =
     load_pipes L runtime ps (snd (run_loader L runtime (pi_pod p) (pi_conn p) (pi_data p) w))"

text \<open>Closing a pipe cannot fail; then the writer waits for every goroutine to have signalled.
  \<open>None\<close>: they were never started.\<close>

definition ww_Close :: "'w loader_env \<Rightarrow> waiting_writer \<Rightarrow> 'w \<Rightarrow> (go_error option \<times> 'w) option" where
  "ww_Close L ww w =
     (case ww_pipes ww of
        Some pipes \<Rightarrow> Some (None, load_pipes L (ww_runtime ww) pipes w)
      | None \<Rightarrow> if ww_pods ww = [] then Some (None, w) else None)"

text \<open>What the exporter of the build does with a writer: it writes the chunks until one fails,
  and closes it.\<close>

fun ww_write_all ::
  "'w loader_env \<Rightarrow> 'w driver \<Rightarrow> string list \<Rightarrow> waiting_writer \<Rightarrow> 'w \<Rightarrow> (go_error option \<times> waiting_writer \<times> 'w) option" where
  "ww_write_all L d [] ww w = Some (None, ww, w)"
| "ww_write_all L d (dt # dts) ww w =
     (case ww_Write L d dt ww w of
        None \<Rightarrow> None
      | Some (Some e, ww, w) \<Rightarrow> Some (Some e, ww, w)
      | Some (None, ww, w) \<Rightarrow> ww_write_all L d dts ww w)"


section \<open>Lemmas\<close>

lemma make_clients_length: "make_clients mk msg pods w = (Ok us, w') \<Longrightarrow> length us = length pods"
  unfolding make_clients_def
  by (induction pods arbitrary: us w) (auto simp: io_simps)

lemma dial_all_pods: "dial_all d runtime pods w = (pipes, w') \<Longrightarrow>
    map pi_pod pipes = pods \<and> (\<forall>p \<in> set pipes. pi_data p = [])"
  by (induction pods arbitrary: pipes w w') (auto simp: Let_def split: prod.splits)

lemma write_pipes_pods: "write_pipes L runtime dt pipes = Some (err, pipes') \<Longrightarrow> map pi_pod pipes' = map pi_pod pipes \<and> map pi_conn pipes' = map pi_conn pipes"
  by (induction pipes arbitrary: pipes' err) (auto split: feed.splits option.splits)

lemma write_pipes_ok: "write_pipes L runtime dt pipes = Some (None, pipes') \<Longrightarrow> pipes' = map (\<lambda>p. p\<lparr>pi_data := pi_data p @ dt\<rparr>) pipes"
  by (induction pipes arbitrary: pipes') (auto split: feed.splits option.splits)

lemma ww_Write_ok:
  assumes "ww_Write L d dt ww w = Some (None, ww', w')" and "ww_start d ww w = (pipes, w1)"
  shows "ww' = ww\<lparr>ww_pipes := Some (map (\<lambda>p. p\<lparr>pi_data := pi_data p @ dt\<rparr>) pipes)\<rparr>" and "w' = w1"
  using assms by (auto simp: ww_Write_def dest!: write_pipes_ok split: option.splits)

lemma ww_write_all_started:
  assumes "ww_write_all L d dts ww w = Some (None, ww', w')" and "ww_pipes ww = Some pipes"
  shows "ww' = ww\<lparr>ww_pipes := Some (map (\<lambda>p. p\<lparr>pi_data := pi_data p @ concat dts\<rparr>) pipes)\<rparr> \<and> w' = w"
  using assms
proof (induction dts arbitrary: ww w pipes)
  case Nil
  then show ?case by (cases ww) auto
next
  case (Cons dt dts)
  have start: "ww_start d ww w = (pipes, w)" using Cons.prems(2) by (simp add: ww_start_def)
  obtain ww1 w1 where w1: "ww_Write L d dt ww w = Some (None, ww1, w1)" "ww_write_all L d dts ww1 w1 = Some (None, ww', w')"
    using Cons.prems(1) by (auto split: option.splits)
  note ww1 = ww_Write_ok[OF w1(1) start]
  have "ww_pipes ww1 = Some (map (\<lambda>p. p\<lparr>pi_data := pi_data p @ dt\<rparr>) pipes)" by (simp add: ww1)
  from Cons.IH[OF w1(2) this] show ?case by (simp add: ww1 comp_def)
qed

section \<open>The interface of a loader\<close>

lemma prepare_exports_runtime:
  assumes "prepare_exports F parse_ref d multi opt w = (Ok (feats, ex), w')" and "op_exports opt = [new_export ''runtime'' Map.empty]"
  obtains e where "ex = [e]" "ee_output e = None" "\<not> pushing e"
    "ee_type e = ''image'' \<or> ee_type e = ''docker''"
proof -
  obtain e1 where p: "runtime_export feats (new_export ''runtime'' Map.empty) = Ok e1" "name_exports parse_ref (op_tags opt) [e1] = Ok ex"
    using assms by (auto simp: prepare_exports_def io_simps and_then_Inr_iff)
  have e1: "ee_output e1 = None" "ee_attrs e1 = Map.empty" "ee_type e1 = ''image'' \<or> ee_type e1 = ''docker''"
    using p(1) by (auto simp: runtime_export_def new_export_def split: if_splits)
  show thesis
  proof (cases "op_tags opt = []")
    case True
    then have "ex = [e1]" using p(2) by (auto simp: name_exports_def and_then_Inr_iff check_tagged_def split: if_splits)
    then show thesis using e1 by (intro that[of e1]) (auto simp: pushing_def)
  next
    case False
    then obtain tags where "ex = [named_export tags e1]" using p(2) by (auto simp: name_exports_def and_then_Inr_iff)
    then show thesis using e1 by (intro that[of "named_export tags e1"]) (auto simp: pushing_def named_export_def)
  qed
qed


text \<open>What \<open>toSolveOpt\<close> needs of its callback: a writer to the pods of one builder, for docker
  never to none.\<close>

locale image_loader =
  fixes dl :: "'w load_callback" and d :: "'w driver" and pods :: "builder list \<Rightarrow> string list"
  assumes docker_writer: "dl [e] w = (Ok (wr, r), w') \<Longrightarrow> ee_type e = ''docker'' \<Longrightarrow>
      \<exists>bs w1. dr_List d w = (Ok bs, w1) \<and> wr = WLoader ''docker'' (pods bs) \<and> pods bs \<noteq> []"
    and oci_writer: "dl [e] w = (Ok (wr, r), w') \<Longrightarrow> ee_type e = ''oci'' \<Longrightarrow>
      \<exists>bs w1. dr_List d w = (Ok bs, w1) \<and> wr = WLoader ''containerd'' (pods bs)"
begin

lemma set_exporter_loads:
  assumes "set_exporter d feats iid (\<lambda>e. dl [e]) e1 w1 = (Ok (e, rel), w2)"
    and "ee_output e1 = None" and "\<not> pushing e1" and "ee_type e1 = ''image'' \<or> ee_type e1 = ''docker''"
  shows "\<exists>bs w3 w4. dr_List d w3 = (Ok bs, w4) \<and>
    (ee_type e = ''docker'' \<and> ee_output e = Some (WLoader ''docker'' (pods bs)) \<and> pods bs \<noteq> [] \<or>
     ee_type e = ''oci'' \<and> ee_output e = Some (WLoader ''containerd'' (pods bs)) \<or>
     ee_type e = ''image'' \<and> ee_output e = None \<and> \<not> pushing e \<and> \<not> multi_node bs)"
  using assms(4)
proof
  assume docker: "ee_type e1 = ''docker''"
  then obtain wr r w3 where l: "dl [e1] w1 = (Ok (wr, r), w3)" "e = e1\<lparr>ee_output := Some wr\<rparr>"
    using assms(1,2) by (auto simp: set_exporter_def Let_def io_simps split: if_splits)
  then show ?thesis using docker_writer[OF l(1) docker] docker by auto
next
  assume image: "ee_type e1 = ''image''"
  then obtain bs w3 where bs: "dr_List d w1 = (Ok bs, w3)"
    "(if multi_node bs then io_bind (dl [e1\<lparr>ee_type := ''oci''\<rparr>])
        (\<lambda>(wr, r). io_ok (e1\<lparr>ee_type := ''oci'', ee_output := Some wr\<rparr>, [r])) else io_ok (e1, [])) w3 = (Ok (e, rel), w2)"
    using assms(1-3) by (auto simp: set_exporter_def Let_def io_simps split: if_splits)
  show ?thesis
  proof (cases "multi_node bs")
    case True
    then obtain wr r w4 where l: "dl [e1\<lparr>ee_type := ''oci''\<rparr>] w3 = (Ok (wr, r), w4)"
      "e = e1\<lparr>ee_type := ''oci'', ee_output := Some wr\<rparr>"
      using bs(2) by (auto simp: io_simps)
    then show ?thesis using oci_writer[OF l(1)] by auto
  next
    case False
    then have "e = e1" using bs(2) by (simp add: io_simps)
    then show ?thesis using False assms(2,3) image bs(1)
      by (intro exI[of _ bs] exI[of _ w1] exI[of _ w3]) simp
  qed
qed

text \<open>The generic load comes out of \<open>toSolveOpt\<close> as one of three exports.\<close>

lemma toSolveOpt_loads:
  assumes "toSolveOpt F close parse_ref d multi opt dl w = (Ok (so, exports, rel), w')"
    and "op_exports opt = [new_export ''runtime'' Map.empty]"
  shows "\<exists>e bs w1 w2. exports = [e] \<and> dr_List d w1 = (Ok bs, w2) \<and>
    (ee_type e = ''docker'' \<and> ee_output e = Some (WLoader ''docker'' (pods bs)) \<and> pods bs \<noteq> [] \<or>
     ee_type e = ''oci'' \<and> ee_output e = Some (WLoader ''containerd'' (pods bs)) \<or>
     ee_type e = ''image'' \<and> ee_output e = None \<and> \<not> pushing e \<and> \<not> multi_node bs)"
proof -
  from assms(1) obtain feats ex1 w1 rel0 w2 where
    pre: "prepare_exports F parse_ref d multi opt w = (Ok (feats, ex1), w1)"
    and set: "set_exporters d feats (op_image_id_file opt \<noteq> []) dl [] [] ex1 w1 = (Ok exports, rel0, w2)"
    by (rule toSolveOpt_Ok)
  from prepare_exports_runtime[OF pre assms(2)] obtain e1 where
    e1: "ex1 = [e1]" "ee_output e1 = None" "\<not> pushing e1" "ee_type e1 = ''image'' \<or> ee_type e1 = ''docker''" .
  obtain e where e: "exports = [e]"
    "set_exporter d feats (op_image_id_file opt \<noteq> []) (\<lambda>e. dl [e]) e1 w1 = (Ok (e, rel0), w2)"
    using set e1(1) by (auto split: prod.splits sum.splits)
  from set_exporter_loads[OF e(2) e1(2-4)] e(1) show ?thesis by blast
qed

end

text \<open>The callback of the build is one, for the pods of the driver's builder.\<close>

interpretation loads: image_loader "loader_callback L d name" d "\<lambda>bs. builder_pods bs name" for L d name
  by unfold_locales
    (auto simp: loader_callback_def newDockerLoader_def newContainerdLoader_def Let_def io_simps split: if_splits)

section \<open>Properties\<close>


text \<open>
  C11: A loader is made only for pods of the builder. For docker it fails when the builder is
  not listed. For containerd it does not: the loader then has no pods, and writing any image
  to it and closing it succeeds and does nothing, so the build reports an image as loaded
  that is nowhere.
\<close>

theorem containerd_loader_nowhere:
  assumes "dr_List d w = (Ok builders, w1)" and "builder_pods builders name = []"
  shows "newContainerdLoader L d name w = (Ok (WLoader ''containerd'' [], ReleaseLoader ''containerd'' []), w1) \<and>
    newDockerLoader L d name w = (Err (Errorf ''no builders found for %s'' [name]), w1) \<and>
    (\<exists>ww. ww_write_all L d dts (new_writer ''containerd'' []) w1 = Some (None, ww, w1) \<and> ww_Close L ww w1 = Some (None, w1))"
proof -
  have "\<exists>ww'. ww_write_all L d dts ww w1 = Some (None, ww', w1) \<and> ww_Close L ww' w1 = Some (None, w1)"
    if "ww_pods ww = []" "ww_pipes ww = None \<or> ww_pipes ww = Some []" for ww
    using that
  proof (induction dts arbitrary: ww)
    case Nil
    then show ?case by (auto simp: ww_Close_def)
  next
    case (Cons dt dts)
    then have "ww_Write L d dt ww w1 = Some (None, ww\<lparr>ww_pipes := Some []\<rparr>, w1)"
      by (auto simp: ww_Write_def ww_start_def)
    then show ?case using Cons.IH[of "ww\<lparr>ww_pipes := Some []\<rparr>"] Cons.prems(1) by simp
  qed
  from this[of "new_writer ''containerd'' []"] assms show ?thesis
    by (simp add: newContainerdLoader_def newDockerLoader_def io_bind_def make_clients_def io_ok_def io_err_def new_writer_def)
qed


section \<open>An example\<close>

text \<open>Loads that take every byte and then fail.\<close>

definition example_loader :: "string list loader_env" where
  "example_loader =
     \<lparr>le_sys = \<lparr>sys_now = (\<lambda>w. (0, w)), sys_id = (\<lambda>w. (''id'', w)), sys_draw = (\<lambda>n w. (Ok 0, w)),
        sys_sleep = (\<lambda>n w. w), sys_done = (\<lambda>w. False), sys_text = (\<lambda>e. ''failed'')\<rparr>,
      le_send = (\<lambda>st w. w), le_docker_client = (\<lambda>pod w. (None, w)), le_containerd_client = (\<lambda>pod w. (None, w)),
      le_feed = (\<lambda>runtime conn data dt. Taken),
      le_image_load = (\<lambda>conn data. io_err (External ''load'')), le_import = (\<lambda>conn data. io_err (External ''import'')),
      le_unpack = (\<lambda>conn img w. (None, w))\<rparr>"


theorem containerd_loader_nowhere_witness:
  "newContainerdLoader example_loader image_driver ''buildkit'' [] =
     (Ok (WLoader ''containerd'' [], ReleaseLoader ''containerd'' []), [])"
proof -
  have "dr_List image_driver [] = (Ok [], [])" "builder_pods [] ''buildkit'' = []"
    by (simp_all add: image_driver_def builder_pods_def)
  from containerd_loader_nowhere[OF this] show ?thesis by blast
qed

end
