(* ===== verification/Build.thy ===== *)
theory Build
  imports BuildDrivers Loaders ImageTools
begin

text \<open>
  The build: the function \<open>Build\<close> of \<open>pkg/build/build.go\<close>, from the choice of the drivers to
  the merged manifest list. It prepares the solve options of every target and driver, launches
  the goroutines, and waits for them.

  The goroutines are jobs, each of which runs as one step: the solve of one pair, and what a
  target does when its solves are done. The environment gives the order in which they run
  (\<open>legal\<close> says that a target finishes after its solves); the first error of a job is the
  error of the build, and cancels the context of the jobs that run later. A \<open>Build\<close> that
  returns before it waits leaves the jobs that it has launched: they do not run here.

  A target has one slice of exports and one map of attributes for all its pairs, so both
  are threaded through the loops. The registry clients, the BuildKit client and the clock are
  functions of the record \<open>build_env\<close>.
\<close>

section \<open>The environment\<close>

type_synonym response = "string \<rightharpoonup> string"

datatype job = Solve string nat | Finish string

text \<open>A pair with its driver and its solve options.\<close>

record 'w prepared_pair =
  pp_driver :: "'w driver"
  pp_name :: string
  pp_solve :: solve_opt

record 'w prepared =
  pr_key :: string
  pr_options :: options
  pr_pairs :: "'w prepared_pair list"

text \<open>\<open>be_visit_targets\<close> is the order of the second loop over the map of targets.
  \<open>be_solve cancelled conn so exports\<close>: the response, and the reports that it has sent.
  \<open>be_display\<close> is the error of the display when it is done.\<close>

record 'w build_env =
  be_sys :: "'w sys"
  be_send :: "'w logger"
  be_close_status :: "'w \<Rightarrow> 'w"
  be_display :: "'w \<Rightarrow> go_error option"
  be_fs :: "'w fs"
  be_resolve :: "'w resolve_env"
  be_loader :: "'w loader_env"
  be_close_loader :: "string \<Rightarrow> string list \<Rightarrow> 'w \<Rightarrow> 'w"
  be_parse_ref :: "string \<Rightarrow> string result"
  be_repo_name :: "string \<Rightarrow> string result"
  be_visit_names :: "string list \<Rightarrow> string list"
  be_codec :: codec
  be_registry :: "(string \<Rightarrow> (string \<times> string) result) \<Rightarrow> 'w resolver"
  be_auth_config :: "string \<Rightarrow> string \<Rightarrow> auth_config result"
  be_solve :: "bool \<Rightarrow> exec_conn \<Rightarrow> solve_opt \<Rightarrow> export_entry list \<Rightarrow> 'w \<Rightarrow> (response result \<times> solve_status list) \<times> 'w"
  be_visit_targets :: "'w prepared list \<Rightarrow> 'w prepared list"
  be_schedule :: "job list \<Rightarrow> job list"

section \<open>Preparing the pairs\<close>

text \<open>What the loops thread: the name of the authenticator once there is one, and the release
  functions.\<close>

record build_state =
  bs_auth :: "string option"
  bs_releases :: "release list"

definition join_auth :: "'w driver \<Rightarrow> string \<Rightarrow> 'w \<Rightarrow> build_state \<times> options \<Rightarrow> build_state \<times> options" where
  "join_auth d secret w = (\<lambda>(st, opt).
     case bs_auth st of
       Some _ \<Rightarrow> (st, opt)
     | None \<Rightarrow>
         (st\<lparr>bs_auth := Some (dr_GetAuthWrapper d secret w)\<rparr>,
          opt\<lparr>op_session := op_session opt @ [AuthProvider (dr_GetAuthProvider d secret w)]\<rparr>))"

fun prepare_pairs ::
  "'w build_env \<Rightarrow> 'w driver_info list \<Rightarrow> string \<Rightarrow> bool \<Rightarrow> driver_pair list \<Rightarrow> build_state \<Rightarrow> options \<Rightarrow> 'w \<Rightarrow>
     ('w prepared_pair list \<times> options) result \<times> build_state \<times> 'w" where
  "prepare_pairs E drivers secret multi [] st opt w = (Ok ([], opt), st, w)"
| "prepare_pairs E drivers secret multi (dp # dps) st opt w =
     (case nth_driver drivers (dp_index dp) of
        Inl e \<Rightarrow> (Err e, st, w)
      | Inr d \<Rightarrow>
          let name = di_name (drivers ! dp_index dp);
              (st, opt) = join_auth d secret w (st, opt\<lparr>op_platforms := dp_platforms dp\<rparr>)
          in (case toSolveOpt (be_fs E) (be_close_loader E) (be_parse_ref E) d multi opt (loader_callback (be_loader E) d name) w of
                (Inl e, w) \<Rightarrow> (Err e, st, w)
              | (Inr (so, exports, rel), w) \<Rightarrow>
                  (case prepare_pairs E drivers secret multi dps (st\<lparr>bs_releases := bs_releases st @ rel\<rparr>)
                          (opt\<lparr>op_exports := exports\<rparr>) w of
                     (Inl e, st, w) \<Rightarrow> (Err e, st, w)
                   | (Inr (pps, opt), st, w) \<Rightarrow>
                       (Ok (\<lparr>pp_driver = d, pp_name = name, pp_solve = so\<rparr> # pps, opt), st, w))))"

fun prepare_targets ::
  "'w build_env \<Rightarrow> 'w driver_info list \<Rightarrow> string \<Rightarrow> driver_pair list targets \<Rightarrow> options targets \<Rightarrow> build_state \<Rightarrow> 'w \<Rightarrow>
     'w prepared list result \<times> build_state \<times> 'w" where
  "prepare_targets E drivers secret m [] st w = (Ok [], st, w)"
| "prepare_targets E drivers secret m ((k, opt) # opts) st w =
     (let dps = (case map_of m k of Some dps \<Rightarrow> dps | None \<Rightarrow> []) in
      case prepare_pairs E drivers secret (length dps > 1) dps st opt w of
        (Inl e, st, w) \<Rightarrow> (Err e, st, w)
      | (Inr (pps, opt), st, w) \<Rightarrow>
          (case prepare_targets E drivers secret m opts st w of
             (Inl e, st, w) \<Rightarrow> (Err e, st, w)
           | (Inr prs, st, w) \<Rightarrow> (Ok (\<lparr>pr_key = k, pr_options = opt, pr_pairs = pps\<rparr> # prs), st, w)))"

section \<open>Launching\<close>

text \<open>Several drivers: an image that is to be pushed is pushed by digest, and the names go to the
  manifest list.\<close>

definition by_digest :: "'w build_env \<Rightarrow> export_entry list \<times> string \<Rightarrow> export_entry \<Rightarrow> (export_entry list \<times> string) result" where
  "by_digest E = (\<lambda>(done_exports, push_names) e.
     if ee_type e = ''oci'' \<or> ee_type e = ''tar'' then
       Err (Errorf ''%s for multi-node builds currently not supported'' [ee_type e])
     else if ee_type e = ''image'' \<and> push_names = [] \<and> parse_bool_or_false (lookup_str (ee_attrs e) ''push'') then
       let name = lookup_str (ee_attrs e) ''name'' in
       if name = [] then Err (Errorf ''tag is needed when pushing to registry'' [])
       else
         and_then (toRepoOnly (be_repo_name E) (be_visit_names E) name) (\<lambda>names.
           Ok (done_exports @ [e\<lparr>ee_attrs := (ee_attrs e)(''name'' \<mapsto> names, ''push-by-digest'' \<mapsto> ''true'')\<rparr>], name))
     else Ok (done_exports @ [e], push_names))"

definition share_exports :: "'w build_env \<Rightarrow> export_entry list \<times> string \<Rightarrow> (export_entry list \<times> string) result" where
  "share_exports E = (\<lambda>(exports, push_names). fold_res (by_digest E) ([], push_names) exports)"

text \<open>A launched target: the start of the clock of each pair's writer, the exports that all its
  solves see, and the names to push.\<close>

record 'w launched =
  la_target :: "'w prepared"
  la_starts :: "int list"
  la_exports :: "export_entry list"
  la_push_names :: string

fun launch_pairs ::
  "'w build_env \<Rightarrow> bool \<Rightarrow> 'w prepared_pair list \<Rightarrow> export_entry list \<Rightarrow> string \<Rightarrow> (int list \<times> export_entry list \<times> string, 'w) io" where
  "launch_pairs E multi [] exports push_names = io_ok ([], exports, push_names)"
| "launch_pairs E multi (pp # pps) exports push_names =
     io_bind (io_lift (if multi then share_exports E (exports, push_names) else Ok (exports, push_names))) (\<lambda>(exports, push_names).
     io_bind (io_get (sys_now (be_sys E))) (\<lambda>tm.
     io_bind (launch_pairs E multi pps exports push_names) (\<lambda>(tms, rest).
     io_ok (tm # tms, rest))))"

definition launch_target :: "'w build_env \<Rightarrow> 'w prepared \<Rightarrow> ('w launched, 'w) io" where
  "launch_target E pr =
     io_bind (launch_pairs E (length (pr_pairs pr) > 1) (pr_pairs pr) (op_exports (pr_options pr)) []) (\<lambda>(tms, exports, push_names).
     io_ok \<lparr>la_target = pr, la_starts = tms, la_exports = exports, la_push_names = push_names\<rparr>)"

definition find_target :: "'w launched list \<Rightarrow> string \<Rightarrow> 'w launched option" where
  "find_target ls k = find (\<lambda>l. pr_key (la_target l) = k) ls"

definition jobs_of :: "'w launched list \<Rightarrow> job list" where
  "jobs_of ls = concat (map (\<lambda>l. map (Solve (pr_key (la_target l))) [0..<length (pr_pairs (la_target l))]
     @ [Finish (pr_key (la_target l))]) ls)"

section \<open>The jobs\<close>

text \<open>\<open>rs_res\<close> is the slice of responses of each target, \<open>rs_resp\<close> the result of the build.\<close>

record run_state =
  rs_err :: "go_error option"
  rs_res :: "string \<times> nat \<rightharpoonup> response"
  rs_resp :: "string \<rightharpoonup> response"

definition fail_run :: "go_error \<Rightarrow> run_state \<Rightarrow> run_state" where
  "fail_run e st = (case rs_err st of None \<Rightarrow> st\<lparr>rs_err := Some e\<rparr> | Some _ \<Rightarrow> st)"

definition choose_client :: "clients \<Rightarrow> string \<Rightarrow> exec_conn result" where
  "choose_client cs name =
     (case map_of cs name of
        Some ((_, c) # _) \<Rightarrow> Ok c
      | _ \<Rightarrow> Err (Panic ''nil pointer dereference''))"

definition auth_hint :: "'w build_env \<Rightarrow> 'w driver \<Rightarrow> 'w \<Rightarrow> go_error \<Rightarrow> go_error" where
  "auth_hint E d w e =
     (if contains_str (to_lower (sys_text (be_sys E) e)) ''401 unauthorized''
      then Wrapf e (dr_GetAuthHintMessage d w) [] else e)"

definition solve_job ::
  "'w build_env \<Rightarrow> clients \<Rightarrow> bool \<Rightarrow> 'w launched \<Rightarrow> nat \<Rightarrow> run_state \<Rightarrow> 'w \<Rightarrow> run_state \<times> 'w" where
  "solve_job E cs multiTarget l i st w =
     (let k = pr_key (la_target l); pp = pr_pairs (la_target l) ! i in
      case choose_client cs (pp_name pp) of
        Inl e \<Rightarrow> (fail_run e st, w)
      | Inr c \<Rightarrow>
          let ((r, sts), w) = be_solve E (rs_err st \<noteq> None) c (pp_solve pp) (la_exports l) w;
              w = fold (\<lambda>s. be_send E (forward k multiTarget s)) (ResetTime (la_starts l ! i) sts) w
          in (case r of
                Inl e \<Rightarrow> (fail_run (auth_hint E (pp_driver pp) w e) st, w)
              | Inr rr \<Rightarrow> (st\<lparr>rs_res := (rs_res st)((k, i) \<mapsto> rr)\<rparr>, w)))"

text \<open>The responses that the display of a merge passes along, beside the world.\<close>

definition on_world :: "('w \<Rightarrow> 'a \<times> 'w) \<Rightarrow> 'w \<times> 's \<Rightarrow> 'a \<times> 'w \<times> 's" where
  "on_world f = (\<lambda>(w, s). case f w of (x, w) \<Rightarrow> (x, w, s))"

definition sys_beside :: "'w sys \<Rightarrow> ('w \<times> 's) sys" where
  "sys_beside sys =
     \<lparr>sys_now = on_world (sys_now sys), sys_id = on_world (sys_id sys), sys_draw = (\<lambda>n. on_world (sys_draw sys n)),
      sys_sleep = (\<lambda>n (w, s). (sys_sleep sys n w, s)), sys_done = (\<lambda>(w, s). sys_done sys w), sys_text = sys_text sys\<rparr>"

definition digest_key :: string where
  "digest_key = ''containerimage.digest''"

definition response_descs :: "response list \<Rightarrow> descriptor list" where
  "response_descs res =
     map (\<lambda>s. \<lparr>ds_media = MediaTypeDockerSchema2ManifestList, ds_digest = s, ds_size = -1, ds_urls = [],
              ds_annotations = None, ds_platform = None\<rparr>)
       (List.map_filter (\<lambda>r. r digest_key) res)"

text \<open>The new response of the target, when there is one.\<close>

definition merge_lists ::
  "'w build_env \<Rightarrow> string option \<Rightarrow> string \<Rightarrow> string \<Rightarrow> response list \<Rightarrow> (response option, 'w) io" where
  "merge_lists E auth image_id_file push_names res =
     (let descs = response_descs res; C = be_codec E;
          R = be_registry E (toCredentialsFunc (be_auth_config E (case auth of Some a \<Rightarrow> a | None \<Rightarrow> [])));
          names = split_on COMMA push_names in
      if descs = [] then io_ok None
      else
        io_bind (Combine C R (hd names) descs) (\<lambda>(dt, desc).
        if image_id_file \<noteq> [] then
          io_bind (io_act (fs_write_file (be_fs E) image_id_file (ds_digest desc))) (\<lambda>_. io_ok None)
        else
          io_bind (io_map (\<lambda>n. io_bind (io_lift (cd_parse_named C n)) (\<lambda>nn. Push C R nn desc dt)) names) (\<lambda>_.
          io_ok (Some [digest_key \<mapsto> ds_digest desc]))))"

definition merge_action ::
  "(response option, 'w) io \<Rightarrow> string \<Rightarrow> ('w \<times> (string \<rightharpoonup> response)) action" where
  "merge_action m k = (\<lambda>(w, resp).
     case m w of
       (Inl e, w) \<Rightarrow> (Some e, w, resp)
     | (Inr None, w) \<Rightarrow> (None, w, resp)
     | (Inr (Some r), w) \<Rightarrow> (None, w, resp(k \<mapsto> r)))"

text \<open>What a target does after \<open>wg.Wait()\<close>. When a response is missing a solve has failed or not
  run: the job goes on only after the cancellation.\<close>

definition finish_job :: "'w build_env \<Rightarrow> string option \<Rightarrow> 'w launched \<Rightarrow> run_state \<Rightarrow> 'w \<Rightarrow> run_state \<times> 'w" where
  "finish_job E auth l st w =
     (let pr = la_target l; k = pr_key pr; iid = op_image_id_file (pr_options pr);
          rs = map (\<lambda>i. rs_res st (k, i)) [0..<length (pr_pairs pr)] in
      if rs_err st \<noteq> None \<or> None \<in> set rs then (st, w)
      else if rs = [] then (fail_run (Panic ''index out of range'') st, w)
      else
        let res = map the rs; st = st\<lparr>rs_resp := (rs_resp st)(k \<mapsto> res ! 0)\<rparr> in
        if length res = 1 then
          if iid \<noteq> [] then
            (case fs_write_file (be_fs E) iid (lookup_str (res ! 0) digest_key) w of
               (Some e, w) \<Rightarrow> (fail_run e st, w)
             | (None, w) \<Rightarrow> (st, w))
          else (st, w)
        else if la_push_names l \<noteq> [] then
          let (w, resp) = Write (sys_beside (be_sys E)) (\<lambda>s (w, resp). (be_send E (forward ''default'' False s) w, resp))
                (''merging manifest list '' @ la_push_names l)
                (merge_action (merge_lists E auth iid (la_push_names l) res) k) (w, rs_resp st)
          in (st\<lparr>rs_resp := resp\<rparr>, w)
        else (st, w))"

definition run_job ::
  "'w build_env \<Rightarrow> clients \<Rightarrow> string option \<Rightarrow> bool \<Rightarrow> 'w launched list \<Rightarrow> job \<Rightarrow> run_state \<times> 'w \<Rightarrow> run_state \<times> 'w" where
  "run_job E cs auth multiTarget ls j = (\<lambda>(st, w).
     case j of
       Solve k i \<Rightarrow>
         (case find_target ls k of
            Some l \<Rightarrow> solve_job E cs multiTarget l i st w
          | None \<Rightarrow> (st, w))
     | Finish k \<Rightarrow>
         (case find_target ls k of
            Some l \<Rightarrow> finish_job E auth l st w
          | None \<Rightarrow> (st, w)))"

text \<open>\<open>eg.Wait()\<close>: all the jobs, and the display of every pair.\<close>

definition run_jobs ::
  "'w build_env \<Rightarrow> clients \<Rightarrow> string option \<Rightarrow> bool \<Rightarrow> 'w launched list \<Rightarrow> 'w \<Rightarrow> (string \<rightharpoonup> response) result \<times> 'w" where
  "run_jobs E cs auth multiTarget ls w =
     (let (st, w) = fold (run_job E cs auth multiTarget ls) (be_schedule E (jobs_of ls))
            (\<lparr>rs_err = None, rs_res = Map.empty, rs_resp = Map.empty\<rparr>, w);
          st = (case be_display E w of
                  Some e \<Rightarrow> if list_ex (\<lambda>l. pr_pairs (la_target l) \<noteq> []) ls then fail_run e st else st
                | None \<Rightarrow> st)
      in (case rs_err st of Some e \<Rightarrow> Err e | None \<Rightarrow> Ok (rs_resp st), w))"

section \<open>The build\<close>

text \<open>From the first deferred function on. Only an error runs the release functions.\<close>

definition build_resolved ::
  "'w build_env \<Rightarrow> 'w driver_info list \<Rightarrow> options targets \<Rightarrow> string \<Rightarrow> driver_pair list targets \<Rightarrow> clients \<Rightarrow> 'w \<Rightarrow>
     (string \<rightharpoonup> response) result \<times> 'w" where
  "build_resolved E drivers opts secret m cs w =
     (let release = (\<lambda>st. run_releases (be_fs E) (be_close_loader E) (bs_releases st)) in
      case prepare_targets E drivers secret m opts \<lparr>bs_auth = None, bs_releases = []\<rparr> w of
        (Inl e, st, w) \<Rightarrow> (Err e, release st w)
      | (Inr prs, st, w) \<Rightarrow>
          (case io_map (launch_target E) (be_visit_targets E prs) w of
             (Inl e, w) \<Rightarrow> (Err e, release st w)
           | (Inr ls, w) \<Rightarrow>
               (case run_jobs E cs (bs_auth st) (length opts > 1) ls w of
                  (Inl e, w) \<Rightarrow> (Err e, release st w)
                | (Inr resp, w) \<Rightarrow> (Ok resp, w))))"

text \<open>\<open>None\<close>: a boot goes on for ever.\<close>

definition Build ::
  "'w build_env \<Rightarrow> 'w driver_info list \<Rightarrow> options targets \<Rightarrow> string \<Rightarrow> 'w \<Rightarrow> ((string \<rightharpoonup> response) result \<times> 'w) option" where
  "Build E drivers opts secret w =
     (if drivers = [] then Some (Err (Errorf ''driver required for build'' []), w)
      else
        case filterAvailableDrivers drivers of
          Inl e \<Rightarrow> Some (Err (Wrapf e ''no valid drivers found'' []), w)
        | Inr drivers \<Rightarrow>
            (case resolveDrivers (be_sys E) (be_resolve E) drivers opts (Some (be_send E)) w of
               None \<Rightarrow> None
             | Some (Inl e, w) \<Rightarrow> Some (Err e, be_close_status E w)
             | Some (Inr (m, cs), w) \<Rightarrow> Some (build_resolved E drivers opts secret m cs w)))"

end
