(* ===== verification/BuildSpec.thy ===== *)
theory BuildSpec
  imports Build
begin

text \<open>
  What the build guarantees: it cleans up after an error, it answers for every target, for one
  target and one driver it is a straight line of calls; and where it falls short: who gets an
  authenticator, and a manifest list that is not pushed.
\<close>

section \<open>The registry\<close>

definition resolver_keeps :: "('w \<Rightarrow> 'v) \<Rightarrow> 'w resolver \<Rightarrow> bool" where
  "resolver_keeps f R \<longleftrightarrow>
     (\<forall>s. io_keeps f (rv_fetcher R s)) \<and> (\<forall>s d. io_keeps f (rv_fetch R s d)) \<and> (\<forall>s. io_keeps f (rv_read R s)) \<and>
     (\<forall>s. io_keeps f (rv_pusher R s)) \<and> (\<forall>s d. io_keeps f (rv_push R s d)) \<and>
     (\<forall>s dt n dg w. f (snd (rv_copy R s dt n dg w)) = f w)"

lemma GetDescriptor_keeps: "resolver_keeps f R \<Longrightarrow> io_keeps f (GetDescriptor R s d)"
  unfolding GetDescriptor_def by (intro io_keeps_intros) (auto simp: resolver_keeps_def)

lemma Combine_keeps: "resolver_keeps f R \<Longrightarrow> io_keeps f (Combine C R s descs)"
  unfolding Combine_def load_source_def loadPlatform_def Let_def
  by (intro io_keeps_intros GetDescriptor_keeps) auto

lemma Push_keeps:
  assumes "resolver_keeps f R"
  shows "io_keeps f (Push C R s desc dt)"
proof -
  have push: "io_keeps f (rv_push R t desc)" and copy: "\<And>w. f (snd (rv_copy R t dt n dg w)) = f w"
    and pusher: "io_keeps f (rv_pusher R t)" for t n dg
    using assms by (simp_all add: resolver_keeps_def)
  show ?thesis
    unfolding Push_def Let_def
  proof (intro io_keeps_bind pusher)
    show "io_keeps f (\<lambda>w. case rv_push R (cd_tag_name_only C s) desc w of
          (Inl e, w) \<Rightarrow> (if rv_already_exists R e then Ok () else Err e, w)
        | (Inr _, w) \<Rightarrow>
            (case rv_copy R (cd_tag_name_only C s) dt (ds_size desc) (ds_digest desc) w of
               (Some e, w) \<Rightarrow> (if rv_already_exists R e then Ok () else Err e, w)
             | (None, w) \<Rightarrow> (Ok (), w)))"
      unfolding io_keeps_def
    proof
      fix w
      obtain r w1 where 1: "rv_push R (cd_tag_name_only C s) desc w = (r, w1)" by fastforce
      obtain x w2 where 2: "rv_copy R (cd_tag_name_only C s) dt (ds_size desc) (ds_digest desc) w1 = (x, w2)" by fastforce
      have "f w1 = f w" "f w2 = f w1" using io_keepsD[OF push 1] copy 2 by (auto, metis snd_conv)
      then show "f (snd (case rv_push R (cd_tag_name_only C s) desc w of
          (Inl e, w) \<Rightarrow> (if rv_already_exists R e then Ok () else Err e, w)
        | (Inr _, w) \<Rightarrow>
            (case rv_copy R (cd_tag_name_only C s) dt (ds_size desc) (ds_digest desc) w of
               (Some e, w) \<Rightarrow> (if rv_already_exists R e then Ok () else Err e, w)
             | (None, w) \<Rightarrow> (Ok (), w)))) = f w"
        using 1 2 by (cases r; cases x) auto
    qed
  qed
qed

section \<open>What the build leaves alone\<close>

definition build_keeps :: "('w \<Rightarrow> string set) \<Rightarrow> 'w build_env \<Rightarrow> 'w driver_info list \<Rightarrow> bool" where
  "build_keeps tmps E drivers \<longleftrightarrow>
     temp_fs tmps (be_fs E) \<and>
     (\<forall>di \<in> set drivers. \<forall>d name. di_driver di = Some d \<longrightarrow>
        keeps_temps tmps (be_fs E) (be_close_loader E) d (loader_callback (be_loader E) d name)) \<and>
     (\<forall>r p w. tmps (be_close_loader E r p w) = tmps w) \<and>
     (\<forall>w. tmps (snd (sys_now (be_sys E) w)) = tmps w) \<and> (\<forall>w. tmps (snd (sys_id (be_sys E) w)) = tmps w) \<and>
     (\<forall>st w. tmps (be_send E st w) = tmps w) \<and> (\<forall>b c so ex w. tmps (snd (be_solve E b c so ex w)) = tmps w) \<and>
     (\<forall>p c w. tmps (snd (fs_write_file (be_fs E) p c w)) = tmps w) \<and> (\<forall>cf. resolver_keeps tmps (be_registry E cf))"

lemma build_keeps_step:
  assumes "build_keeps tmps E drivers"
  shows "temp_fs tmps (be_fs E)"
    "nth_driver drivers i = Ok d \<Longrightarrow> keeps_temps tmps (be_fs E) (be_close_loader E) d (loader_callback (be_loader E) d name)"
    "tmps (be_close_loader E r p w) = tmps w"
    "tmps (snd (sys_now (be_sys E) w)) = tmps w" "tmps (snd (sys_id (be_sys E) w)) = tmps w"
    "tmps (be_send E st w) = tmps w" "tmps (snd (be_solve E b c so ex w)) = tmps w"
    "tmps (snd (fs_write_file (be_fs E) path dt w)) = tmps w" "resolver_keeps tmps (be_registry E cf)"
proof -
  show "keeps_temps tmps (be_fs E) (be_close_loader E) d (loader_callback (be_loader E) d name)" if "nth_driver drivers i = Ok d"
  proof -
    have "drivers ! i \<in> set drivers" "di_driver (drivers ! i) = Some d"
      using that by (auto simp: nth_driver_def split: if_splits option.splits)
    with assms[unfolded build_keeps_def, THEN conjunct2, THEN conjunct1] show ?thesis by simp
  qed
qed (use assms in \<open>simp_all add: build_keeps_def\<close>)

lemma prepare_pairs_Cons:
  assumes "prepare_pairs E drivers secret multi (dp # dps) st opt w = (Ok (pps, opt'), st', w')"
  obtains d st1 opt1 so exports rel w1 pps1 where "nth_driver drivers (dp_index dp) = Ok d"
    "join_auth d secret w (st, opt\<lparr>op_platforms := dp_platforms dp\<rparr>) = (st1, opt1)"
    "toSolveOpt (be_fs E) (be_close_loader E) (be_parse_ref E) d multi opt1
       (loader_callback (be_loader E) d (di_name (drivers ! dp_index dp))) w = (Ok (so, exports, rel), w1)"
    "prepare_pairs E drivers secret multi dps (st1\<lparr>bs_releases := bs_releases st1 @ rel\<rparr>) (opt1\<lparr>op_exports := exports\<rparr>) w1 =
       (Ok (pps1, opt'), st', w')"
    "pps = \<lparr>pp_driver = d, pp_name = di_name (drivers ! dp_index dp), pp_solve = so\<rparr> # pps1"
proof -
  obtain d where d: "nth_driver drivers (dp_index dp) = Ok d" using assms by (cases "nth_driver drivers (dp_index dp)") auto
  obtain st1 opt1 where j: "join_auth d secret w (st, opt\<lparr>op_platforms := dp_platforms dp\<rparr>) = (st1, opt1)" by fastforce
  obtain r w1 where t: "toSolveOpt (be_fs E) (be_close_loader E) (be_parse_ref E) d multi opt1
       (loader_callback (be_loader E) d (di_name (drivers ! dp_index dp))) w = (r, w1)" by fastforce
  obtain so exports rel where r: "r = Ok (so, exports, rel)" using assms d j t by (cases r) auto
  obtain r2 st2 w2 where p: "prepare_pairs E drivers secret multi dps (st1\<lparr>bs_releases := bs_releases st1 @ rel\<rparr>) (opt1\<lparr>op_exports := exports\<rparr>) w1 =
       (r2, st2, w2)" by (rule prod_cases3)
  show thesis
    using assms d j t r p that[OF d j t[unfolded r]] by (cases r2) auto
qed

lemma join_auth_releases: "join_auth d secret w (st, opt) = (st', opt') \<Longrightarrow> bs_releases st' = bs_releases st"
  by (auto simp: join_auth_def split: option.splits)

definition released_since :: "('w \<Rightarrow> string set) \<Rightarrow> build_state \<Rightarrow> 'w \<Rightarrow> build_state \<Rightarrow> 'w \<Rightarrow> bool" where
  "released_since tmps st w st' w' \<longleftrightarrow>
     (\<exists>rel. bs_releases st' = bs_releases st @ rel \<and> tmps w' = tmps w \<union> (release_dirs rel - {[]}) \<and> release_dirs rel \<inter> tmps w = {})"

lemma released_since_refl: "released_since tmps st w st w"
  by (auto simp: released_since_def intro: exI[of _ "[]"])

lemma released_since_trans:
  "released_since tmps st w st1 w1 \<Longrightarrow> released_since tmps st1 w1 st2 w2 \<Longrightarrow> released_since tmps st w st2 w2"
proof -
  assume "released_since tmps st w st1 w1" "released_since tmps st1 w1 st2 w2"
  then obtain r1 r2 where "bs_releases st1 = bs_releases st @ r1" "tmps w1 = tmps w \<union> (release_dirs r1 - {[]})" "release_dirs r1 \<inter> tmps w = {}"
    "bs_releases st2 = bs_releases st1 @ r2" "tmps w2 = tmps w1 \<union> (release_dirs r2 - {[]})" "release_dirs r2 \<inter> tmps w1 = {}"
    by (auto simp: released_since_def)
  then show ?thesis unfolding released_since_def by (intro exI[of _ "r1 @ r2"]) auto
qed

lemma prepare_pairs_temps:
  assumes "build_keeps tmps E drivers"
  shows "prepare_pairs E drivers secret multi dps st opt w = (Ok (pps, opt'), st', w') \<Longrightarrow> released_since tmps st w st' w'"
proof (induction dps arbitrary: st opt w pps)
  case Nil
  then show ?case by (simp add: released_since_refl)
next
  case (Cons dp dps)
  from Cons.prems obtain d st1 opt1 so exports rel w1 pps1 where s: "nth_driver drivers (dp_index dp) = Ok d"
    "join_auth d secret w (st, opt\<lparr>op_platforms := dp_platforms dp\<rparr>) = (st1, opt1)"
    "toSolveOpt (be_fs E) (be_close_loader E) (be_parse_ref E) d multi opt1
       (loader_callback (be_loader E) d (di_name (drivers ! dp_index dp))) w = (Ok (so, exports, rel), w1)"
    "prepare_pairs E drivers secret multi dps (st1\<lparr>bs_releases := bs_releases st1 @ rel\<rparr>) (opt1\<lparr>op_exports := exports\<rparr>) w1 =
       (Ok (pps1, opt'), st', w')"
    by (rule prepare_pairs_Cons)
  have "released_since tmps st w (st1\<lparr>bs_releases := bs_releases st1 @ rel\<rparr>) w1"
    using toSolveOpt_temps[OF build_keeps_step(2)[OF assms s(1)] s(3)] join_auth_releases[OF s(2)]
    by (auto simp: released_since_def)
  then show ?case using Cons.IH[OF s(4)] by (rule released_since_trans)
qed

lemma prepare_targets_Cons:
  assumes "prepare_targets E drivers secret m ((k, opt) # opts) st w = (Ok prs, st', w')"
  obtains dps pps opt1 st1 w1 prs1 where "dps = (case map_of m k of Some dps \<Rightarrow> dps | None \<Rightarrow> [])"
    "prepare_pairs E drivers secret (length dps > 1) dps st opt w = (Ok (pps, opt1), st1, w1)"
    "prepare_targets E drivers secret m opts st1 w1 = (Ok prs1, st', w')"
    "prs = \<lparr>pr_key = k, pr_options = opt1, pr_pairs = pps\<rparr> # prs1"
proof -
  let ?dps = "case map_of m k of Some dps \<Rightarrow> dps | None \<Rightarrow> []"
  obtain r st1 w1 where p: "prepare_pairs E drivers secret (length ?dps > 1) ?dps st opt w = (r, st1, w1)" by (rule prod_cases3)
  obtain pps opt1 where r: "r = Ok (pps, opt1)" using assms p by (cases r) (auto simp: Let_def)
  obtain r2 st2 w2 where t: "prepare_targets E drivers secret m opts st1 w1 = (r2, st2, w2)" by (rule prod_cases3)
  show thesis
    using assms p r t that[OF refl p[unfolded r]] by (cases r2) (auto simp: Let_def)
qed

lemma prepare_targets_temps:
  assumes "build_keeps tmps E drivers"
  shows "prepare_targets E drivers secret m opts st w = (Ok prs, st', w') \<Longrightarrow> released_since tmps st w st' w'"
proof (induction opts arbitrary: st w prs)
  case Nil
  then show ?case by (simp add: released_since_refl)
next
  case (Cons kopt opts)
  obtain k opt where kopt: "kopt = (k, opt)" by fastforce
  show ?case
    using Cons.prems[unfolded kopt]
    by (rule prepare_targets_Cons) (metis Cons.IH prepare_pairs_temps[OF assms] released_since_trans)
qed


lemma launch_pairs_keeps:
  assumes "build_keeps tmps E drivers"
  shows "io_keeps tmps (launch_pairs E multi pps exports push_names)"
  by (induction pps arbitrary: exports push_names)
    (auto intro!: io_keeps_intros simp: build_keeps_step[OF assms])

lemma launch_target_keeps: "build_keeps tmps E drivers \<Longrightarrow> io_keeps tmps (launch_target E pr)"
  unfolding launch_target_def by (intro io_keeps_intros launch_pairs_keeps)

lemma merge_lists_keeps: "build_keeps tmps E drivers \<Longrightarrow> io_keeps tmps (merge_lists E auth iid names res)"
  unfolding merge_lists_def Let_def
  by (intro io_keeps_intros Combine_keeps Push_keeps build_keeps_step) assumption+

lemma Write_keeps:
  assumes "\<And>w. f (snd (sys_id sys w)) = f w" and "\<And>w. f (snd (sys_now sys w)) = f w"
    and "\<And>st w. f (send st w) = f w" and "\<And>w. f (snd (act w)) = f w"
  shows "f (Write sys send name act w) = f w"
  using assms by (simp add: Write_def Let_def split_beta)

lemma solve_job_keeps:
  assumes "build_keeps tmps E drivers" and "solve_job E cs multiTarget l i st w = (st', w')"
  shows "tmps w' = tmps w"
proof -
  have send: "tmps (fold (\<lambda>s. be_send E (forward k b s)) sts v) = tmps v" for sts k b v
    by (induction sts arbitrary: v) (auto simp: build_keeps_step(6)[OF assms(1)])
  note keep = build_keeps_step(7)[OF assms(1)]
  show ?thesis
    using assms(2) keep
    by (auto simp: solve_job_def Let_def send split: sum.splits prod.splits) (metis snd_conv send)+
qed

lemma finish_job_keeps:
  assumes "build_keeps tmps E drivers" and "finish_job E auth l st w = (st', w')"
  shows "tmps w' = tmps w"
proof -
  note step = build_keeps_step[OF assms(1)]
  let ?sys = "sys_beside (be_sys E)" and ?send = "\<lambda>s (w, resp). (be_send E (forward ''default'' False s) w, resp)"
  have act: "tmps (fst (snd (merge_action (merge_lists E auth iid names res) k v))) = tmps (fst v)" for iid names res k v
    using io_keepsD[OF merge_lists_keeps[OF assms(1)]]
    by (cases v) (auto simp: merge_action_def split: prod.splits sum.splits option.splits)
  have "(tmps \<circ> fst) (Write ?sys ?send name (merge_action (merge_lists E auth iid names res) k) v) = (tmps \<circ> fst) v"
    for name iid names res k v
    by (rule Write_keeps) (auto simp: sys_beside_def on_world_def act split_beta step)
  then have merged: "tmps v' = tmps v" if "Write ?sys ?send name (merge_action (merge_lists E auth iid names res) k) (v, x) = (v', y)"
    for name iid names res k v x v' y
    using that by (metis comp_apply fst_conv)
  have wrote: "tmps v' = tmps v" if "fs_write_file (be_fs E) p c v = (x, v')" for p c v x v'
    using that step(8) by (metis snd_conv)
  show ?thesis
    using assms(2) by (auto simp: finish_job_def Let_def split: if_splits option.splits prod.splits dest: merged wrote)
qed

lemma run_jobs_keeps:
  assumes "build_keeps tmps E drivers" and "run_jobs E cs auth multiTarget ls w = (r, w')"
  shows "tmps w' = tmps w"
proof -
  have job: "tmps (snd (run_job E cs auth multiTarget ls j p)) = tmps (snd p)" for j p
    using solve_job_keeps[OF assms(1)] finish_job_keeps[OF assms(1)]
    by (cases p; cases j) (auto simp: run_job_def split: option.splits, (metis prod.collapse)+)
  have "tmps (snd (fold (run_job E cs auth multiTarget ls) js p)) = tmps (snd p)" for js p
    by (induction js arbitrary: p) (simp_all add: job)
  then have jobs: "tmps v = tmps w" if "fold (run_job E cs auth multiTarget ls) js (st, w) = (st', v)" for js st st' v
    using that by (metis snd_conv)
  obtain st v where "fold (run_job E cs auth multiTarget ls) (be_schedule E (jobs_of ls))
      (\<lparr>rs_err = None, rs_res = Map.empty, rs_resp = Map.empty\<rparr>, w) = (st, v)" by fastforce
  with assms(2) jobs[OF this] show ?thesis by (simp add: run_jobs_def Let_def)
qed

section \<open>Temporary directories\<close>


section \<open>Sessions\<close>

lemma join_auth_some: "bs_auth st = Some a \<Longrightarrow> join_auth d secret w (st, opt) = (st, opt)"
  by (simp add: join_auth_def)

lemma join_auth_done:
  assumes "join_auth d secret w (st, opt) = (st', opt')"
  shows "bs_auth st' \<noteq> None" and "\<exists>as. op_session opt' = op_session opt @ map AuthProvider as \<and> (bs_auth st = None \<longleftrightarrow> as \<noteq> [])"
  using assms by (auto simp: join_auth_def intro: exI[of _ "[dr_GetAuthProvider d secret w]"] split: option.splits)

text \<open>The pairs after the first one, or of a later target, get no new authenticator.\<close>

lemma prepare_pairs_sessions:
  assumes "prepare_pairs E drivers secret multi dps st opt w = (Ok (pps, opt'), st', w')"
    and "bs_auth st \<noteq> None" and "pp \<in> set pps"
  shows "\<exists>up. so_session (pp_solve pp) = op_session opt @ map UploadProvider up"
  using assms
proof (induction dps arbitrary: st opt w pps)
  case Nil
  then show ?case by simp
next
  case (Cons dp dps)
  from Cons.prems(1) obtain d st1 opt1 so exports rel w1 pps1 where s:
    "join_auth d secret w (st, opt\<lparr>op_platforms := dp_platforms dp\<rparr>) = (st1, opt1)"
    "toSolveOpt (be_fs E) (be_close_loader E) (be_parse_ref E) d multi opt1
       (loader_callback (be_loader E) d (di_name (drivers ! dp_index dp))) w = (Ok (so, exports, rel), w1)"
    "prepare_pairs E drivers secret multi dps (st1\<lparr>bs_releases := bs_releases st1 @ rel\<rparr>) (opt1\<lparr>op_exports := exports\<rparr>) w1 =
       (Ok (pps1, opt'), st', w')"
    "pps = \<lparr>pp_driver = d, pp_name = di_name (drivers ! dp_index dp), pp_solve = so\<rparr> # pps1"
    by (rule prepare_pairs_Cons)
  have st1: "st1 = st" "op_session opt1 = op_session opt"
    using s(1) Cons.prems(2) by (auto simp: join_auth_some)
  show ?case
  proof (cases "pp \<in> set pps1")
    case True
    then show ?thesis using Cons.IH[OF s(3)] st1 Cons.prems(2) by simp
  next
    case False
    then have "pp_solve pp = so" using Cons.prems(3) s(4) by auto
    then show ?thesis using toSolveOpt_session[OF s(2)] st1 by simp
  qed
qed

lemma prepare_pairs_auth:
  assumes "prepare_pairs E drivers secret multi dps st opt w = (Ok (pps, opt'), st', w')"
  shows "bs_auth st' = None \<longleftrightarrow> bs_auth st = None \<and> dps = []"
  using assms
proof (induction dps arbitrary: st opt w pps)
  case Nil
  then show ?case by simp
next
  case (Cons dp dps)
  from Cons.prems obtain d st1 opt1 so exports rel w1 pps1 where s:
    "join_auth d secret w (st, opt\<lparr>op_platforms := dp_platforms dp\<rparr>) = (st1, opt1)"
    "prepare_pairs E drivers secret multi dps (st1\<lparr>bs_releases := bs_releases st1 @ rel\<rparr>) (opt1\<lparr>op_exports := exports\<rparr>) w1 =
       (Ok (pps1, opt'), st', w')"
    by (rule prepare_pairs_Cons)
  show ?case using Cons.IH[OF s(2)] join_auth_done(1)[OF s(1)] by simp
qed

lemma prepare_targets_sessions:
  assumes "prepare_targets E drivers secret m opts st w = (Ok prs, st', w')" and "bs_auth st \<noteq> None"
    and "pr \<in> set prs" and "pp \<in> set (pr_pairs pr)"
  shows "\<exists>k opt up. (k, opt) \<in> set opts \<and> pr_key pr = k \<and> so_session (pp_solve pp) = op_session opt @ map UploadProvider up"
  using assms
proof (induction opts arbitrary: st w prs)
  case Nil
  then show ?case by simp
next
  case (Cons kopt opts)
  obtain k opt where kopt: "kopt = (k, opt)" by fastforce
  from Cons.prems(1)[unfolded kopt] obtain dps pps opt1 st1 w1 prs1 where t:
    "prepare_pairs E drivers secret (length dps > 1) dps st opt w = (Ok (pps, opt1), st1, w1)"
    "prepare_targets E drivers secret m opts st1 w1 = (Ok prs1, st', w')"
    "prs = \<lparr>pr_key = k, pr_options = opt1, pr_pairs = pps\<rparr> # prs1"
    by (rule prepare_targets_Cons)
  show ?case
  proof (cases "pr \<in> set prs1")
    case True
    then show ?thesis
      using Cons.IH[OF t(2)] prepare_pairs_auth[OF t(1)] Cons.prems(2,4) by auto
  next
    case False
    then have "pr_key pr = k" "pp \<in> set pps" using Cons.prems(3,4) t(3) by auto
    then show ?thesis using prepare_pairs_sessions[OF t(1) Cons.prems(2)] kopt by auto
  qed
qed

text \<open>
  C7: Only the target that is visited first can authenticate. When it has a pair, each of its
  solves has the authenticator in its session; the solves of the other targets have in
  theirs what the options gave and uploads, and no authenticator.
\<close>

theorem only_first_target_authenticates:
  assumes "prepare_targets E drivers secret m ((k, opt) # opts) \<lparr>bs_auth = None, bs_releases = []\<rparr> w = (Ok (pr # prs), st, w')"
    and "map_of m k = Some dps" and "dps \<noteq> []"
    and "\<And>k opt a. (k, opt) \<in> set opts \<Longrightarrow> AuthProvider a \<notin> set (op_session opt)"
  shows "(\<exists>a. \<forall>pp \<in> set (pr_pairs pr). AuthProvider a \<in> set (so_session (pp_solve pp))) \<and>
    (\<forall>pr' \<in> set prs. \<forall>pp \<in> set (pr_pairs pr'). \<forall>a. AuthProvider a \<notin> set (so_session (pp_solve pp)))"
proof -
  from assms(1) obtain dps' pps opt1 st1 w1 prs1 where t: "dps' = (case map_of m k of Some dps \<Rightarrow> dps | None \<Rightarrow> [])"
    "prepare_pairs E drivers secret (length dps' > 1) dps' \<lparr>bs_auth = None, bs_releases = []\<rparr> opt w = (Ok (pps, opt1), st1, w1)"
    "prepare_targets E drivers secret m opts st1 w1 = (Ok prs1, st, w')"
    "pr # prs = \<lparr>pr_key = k, pr_options = opt1, pr_pairs = pps\<rparr> # prs1"
    by (rule prepare_targets_Cons)
  obtain dp rest where dps: "dps' = dp # rest" using t(1) assms(2,3) by (cases dps) auto
  from t(2)[unfolded dps] obtain d st2 opt2 so exports rel w2 pps1 where s:
    "join_auth d secret w (\<lparr>bs_auth = None, bs_releases = []\<rparr>, opt\<lparr>op_platforms := dp_platforms dp\<rparr>) = (st2, opt2)"
    "toSolveOpt (be_fs E) (be_close_loader E) (be_parse_ref E) d (length (dp # rest) > 1) opt2
       (loader_callback (be_loader E) d (di_name (drivers ! dp_index dp))) w = (Ok (so, exports, rel), w2)"
    "prepare_pairs E drivers secret (length (dp # rest) > 1) rest (st2\<lparr>bs_releases := bs_releases st2 @ rel\<rparr>) (opt2\<lparr>op_exports := exports\<rparr>) w2 =
       (Ok (pps1, opt1), st1, w1)"
    "pps = \<lparr>pp_driver = d, pp_name = di_name (drivers ! dp_index dp), pp_solve = so\<rparr> # pps1"
    by (rule prepare_pairs_Cons)
  have auth: "bs_auth st2 \<noteq> None" "AuthProvider (dr_GetAuthProvider d secret w) \<in> set (op_session opt2)"
    using s(1) by (auto simp: join_auth_def)
  then obtain a where a: "AuthProvider a \<in> set (op_session opt2)" "bs_auth st2 \<noteq> None" by blast
  have "AuthProvider a \<in> set (so_session (pp_solve pp))" if "pp \<in> set (pr_pairs pr)" for pp
  proof (cases "pp \<in> set pps1")
    case True
    then obtain up where "so_session (pp_solve pp) = op_session opt2 @ map UploadProvider up"
      using prepare_pairs_sessions[OF s(3) _ True] a(2) by auto
    then show ?thesis using a(1) by simp
  next
    case False
    then have "pp_solve pp = so" using that t(4) s(4) by auto
    then show ?thesis using toSolveOpt_session[OF s(2)] a(1) by auto
  qed
  moreover have "bs_auth st1 \<noteq> None" using prepare_pairs_auth[OF t(2)] dps by simp
  then have "AuthProvider a' \<notin> set (so_session (pp_solve pp))" if "pr' \<in> set prs" "pp \<in> set (pr_pairs pr')" for pr' pp a'
    using prepare_targets_sessions[OF t(3)] that t(4) assms(4) by fastforce
  ultimately show ?thesis by blast
qed

section \<open>Merging\<close>

text \<open>
  C8: A manifest list that cannot be combined or pushed does not fail the build: when the solves
  of a target for several drivers are done and the merge fails, the job sets no error, and
  the response of the target is that of its first solve.
\<close>

theorem merge_failure_ignored:
  assumes "rs_err st = None" and "length (pr_pairs (la_target l)) > 1" and "la_push_names l \<noteq> []"
    and "\<And>i. i < length (pr_pairs (la_target l)) \<Longrightarrow> rs_res st (pr_key (la_target l), i) = Some (res i)"
    and "\<And>v. \<exists>e v'. merge_lists E auth (op_image_id_file (pr_options (la_target l))) (la_push_names l)
          (map res [0..<length (pr_pairs (la_target l))]) v = (Err e, v')"
  shows "\<exists>w'. finish_job E auth l st w = (st\<lparr>rs_resp := (rs_resp st)(pr_key (la_target l) \<mapsto> res 0)\<rparr>, w')"
proof -
  let ?k = "pr_key (la_target l)" and ?n = "length (pr_pairs (la_target l))"
  let ?iid = "op_image_id_file (pr_options (la_target l))"
  let ?rs = "map (\<lambda>i. rs_res st (?k, i)) [0..<?n]"
  have rs: "?rs = map (\<lambda>i. Some (res i)) [0..<?n]" using assms(4) by (intro map_cong) auto
  have "0 < ?n" using assms(2) by linarith
  then have pairs: "pr_pairs (la_target l) \<noteq> []" by (rule length_greater_0_conv[THEN iffD1])
  have "map the ?rs ! 0 = the (?rs ! 0)" using \<open>0 < ?n\<close> by simp
  then have first: "map the ?rs ! 0 = res 0" using assms(4)[OF \<open>0 < ?n\<close>] \<open>0 < ?n\<close> by simp
  have ne: "None \<notin> set ?rs" "?rs \<noteq> []" "length (map the ?rs) \<noteq> 1"
    using assms(2) pairs unfolding rs by auto
  let ?resp = "(rs_resp st)(?k \<mapsto> res 0)"
  let ?act = "merge_action (merge_lists E auth ?iid (la_push_names l) (map the ?rs)) ?k"
  have res: "map the ?rs = map res [0..<?n]" unfolding rs by simp
  have keep: "snd (snd (?act v)) = snd v" for v
  proof -
    obtain e v' where "merge_lists E auth ?iid (la_push_names l) (map the ?rs) (fst v) = (Err e, v')"
      unfolding res using assms(5) by blast
    then show ?thesis by (cases v) (simp add: merge_action_def)
  qed
  obtain w' r where run: "Write (sys_beside (be_sys E)) (\<lambda>s (w, resp). (be_send E (forward ''default'' False s) w, resp))
      (''merging manifest list '' @ la_push_names l) ?act (w, ?resp) = (w', r)" by fastforce
  have "snd (w', r) = snd (w, ?resp)"
    unfolding run[symmetric] by (rule Write_keeps[where f = snd]) (auto simp: sys_beside_def on_world_def keep split_beta simp del: map_map)
  then have "r = ?resp" by simp
  then show ?thesis
    using run ne first assms(1,3) by (simp add: finish_job_def Let_def del: upt_Suc map_map)
qed

section \<open>Answers\<close>

text \<open>A target finishes after its solves.\<close>

fun legal :: "job list \<Rightarrow> bool" where
  "legal [] \<longleftrightarrow> True"
| "legal (Solve k i # js) \<longleftrightarrow> legal js"
| "legal (Finish k # js) \<longleftrightarrow> list_all (\<lambda>j. case j of Solve k' _ \<Rightarrow> k' \<noteq> k | Finish _ \<Rightarrow> True) js \<and> legal js"

lemma legal_split: "legal (us @ Finish k # vs) \<Longrightarrow> Solve k i \<notin> set vs"
proof (induction us)
  case Nil
  then show ?case by (auto simp: list_all_iff split: job.splits)
next
  case (Cons j us)
  then show ?case by (cases j) auto
qed

lemma fail_run_err [simp]: "rs_err (fail_run e st) \<noteq> None"
  by (cases "rs_err st") (simp_all add: fail_run_def)

lemma solve_job_effect:
  assumes "solve_job E cs multiTarget l i st w = (st', w')" and "rs_err st' = None"
  shows "rs_err st = None \<and> (\<exists>rr. st' = st\<lparr>rs_res := (rs_res st)((pr_key (la_target l), i) \<mapsto> rr)\<rparr>)"
  using assms by (auto simp: solve_job_def Let_def split: sum.splits prod.splits)

lemma Write_inv:
  assumes "\<And>w. P w \<Longrightarrow> P (snd (sys_id sys w))" and "\<And>w. P w \<Longrightarrow> P (snd (sys_now sys w))"
    and "\<And>st w. P w \<Longrightarrow> P (send st w)" and "\<And>w. P w \<Longrightarrow> P (snd (act w))" and "P w"
  shows "P (Write sys send name act w)"
  using assms by (simp add: Write_def Let_def split_beta)

lemma finish_job_effect:
  assumes "finish_job E auth l st w = (st', w')" and "rs_err st' = None"
    and "\<And>i. i < length (pr_pairs (la_target l)) \<Longrightarrow> rs_res st (pr_key (la_target l), i) \<noteq> None"
  shows "rs_err st = None" and "rs_res st' = rs_res st" and "pr_pairs (la_target l) \<noteq> []"
    and "rs_resp st' k' \<noteq> None \<longleftrightarrow> k' = pr_key (la_target l) \<or> rs_resp st k' \<noteq> None"
proof -
  let ?k = "pr_key (la_target l)" and ?n = "length (pr_pairs (la_target l))"
  let ?rs = "map (\<lambda>i. rs_res st (?k, i)) [0..<?n]"
  have present: "None \<notin> set ?rs" using assms(3) by force
  show err: "rs_err st = None" using assms(1,2) by (cases "rs_err st") (auto simp: finish_job_def Let_def)
  show ne: "pr_pairs (la_target l) \<noteq> []"
    using assms(1,2) err by (auto simp: finish_job_def Let_def)
  have merged: "dom r = dom resp"
    if "Write (sys_beside (be_sys E)) (\<lambda>s (w, resp). (be_send E (forward ''default'' False s) w, resp)) name (merge_action mm ?k) (v, resp) = (v', r)"
      and "?k \<in> dom resp" for name mm v resp v' r
  proof -
    have "dom (snd (snd (merge_action mm ?k v))) = dom resp" if "dom (snd v) = dom resp" for v
    proof -
      obtain a b r a' where "v = (a, b)" "mm a = (r, a')" by (metis surj_pair)
      then show ?thesis
        using that \<open>?k \<in> dom resp\<close>
        by (cases r; cases "projr r") (auto simp: merge_action_def insert_absorb simp del: domIff)
    qed
    then have "dom (snd (v', r)) = dom resp"
      unfolding that(1)[symmetric]
      by (intro Write_inv[where P = "\<lambda>v. dom (snd v) = dom resp"]) (auto simp: sys_beside_def on_world_def split_beta)
    then show ?thesis by simp
  qed
  have "0 < ?n" using ne by simp
  then obtain r0 where r0: "rs_res st (?k, 0) = Some r0" using assms(3) by blast
  have first: "map the ?rs ! 0 = r0" using \<open>0 < ?n\<close> r0 by simp
  have go: "?rs \<noteq> []" "length (map the ?rs) = ?n" using ne by simp_all
  note run = assms(1)[unfolded finish_job_def Let_def]
  obtain v' r where W: "Write (sys_beside (be_sys E)) (\<lambda>s (w, resp). (be_send E (forward ''default'' False s) w, resp))
      (''merging manifest list '' @ la_push_names l)
      (merge_action (merge_lists E auth (op_image_id_file (pr_options (la_target l))) (la_push_names l) (map the ?rs)) ?k)
      (w, rs_resp (st\<lparr>rs_resp := (rs_resp st)(?k \<mapsto> map the ?rs ! 0)\<rparr>)) = (v', r)" by fastforce
  have domr: "dom r = insert ?k (dom (rs_resp st))" using merged[OF W] by (simp del: map_map upt_Suc)
  have run: "rs_res st' = rs_res st \<and> (rs_resp st' = (rs_resp st)(?k \<mapsto> map the ?rs ! 0) \<or> rs_resp st' = r)"
    using assms(1,2) present err go unfolding finish_job_def Let_def W
    by (auto simp del: upt_Suc map_map length_map nth_map split: if_splits option.splits prod.splits)
  then have "rs_res st' = rs_res st \<and> dom (rs_resp st') = insert ?k (dom (rs_resp st))"
    using domr by (elim conjE disjE) (simp_all del: map_map upt_Suc)
  then show "rs_res st' = rs_res st" "rs_resp st' k' \<noteq> None \<longleftrightarrow> k' = ?k \<or> rs_resp st k' \<noteq> None"
    by (simp, metis domIff insert_iff)
qed

text \<open>What a run without an error has done after some of its jobs.\<close>

definition answered :: "'w launched list \<Rightarrow> job set \<Rightarrow> run_state \<Rightarrow> bool" where
  "answered ls js st \<longleftrightarrow> (rs_err st = None \<longrightarrow>
     (\<forall>k i. Solve k i \<in> js \<longrightarrow> find_target ls k \<noteq> None \<longrightarrow> rs_res st (k, i) \<noteq> None) \<and>
     (\<forall>k l. Finish k \<in> js \<longrightarrow> find_target ls k = Some l \<longrightarrow> pr_pairs (la_target l) \<noteq> []) \<and>
     (\<forall>k. rs_resp st k \<noteq> None \<longleftrightarrow> Finish k \<in> js \<and> find_target ls k \<noteq> None))"

lemma find_target_key: "find_target ls k = Some l \<Longrightarrow> pr_key (la_target l) = k \<and> l \<in> set ls"
  unfolding find_target_def by (metis (mono_tags, lifting) find_Some_iff nth_mem)

lemma run_job_answered:
  assumes "answered ls js st" and "run_job E cs auth multiTarget ls j (st, w) = (st', w')"
    and "\<And>k l i. j = Finish k \<Longrightarrow> find_target ls k = Some l \<Longrightarrow> i < length (pr_pairs (la_target l)) \<Longrightarrow> Solve k i \<in> js"
  shows "answered ls (insert j js) st'"
proof (cases j)
  case (Solve k i)
  show ?thesis
  proof (cases "find_target ls k")
    case None
    then show ?thesis using assms(1,2) Solve by (auto simp: run_job_def answered_def)
  next
    case (Some l)
    have run: "solve_job E cs multiTarget l i st w = (st', w')" using assms(2) Solve Some by (simp add: run_job_def)
    show ?thesis
      using assms(1) solve_job_effect[OF run] find_target_key[OF Some] Solve
      by (auto simp: answered_def; blast)
  qed
next
  case (Finish k)
  show ?thesis
  proof (cases "find_target ls k")
    case None
    then show ?thesis using assms(1,2) Finish by (auto simp: run_job_def answered_def)
  next
    case (Some l)
    have run: "finish_job E auth l st w = (st', w')" using assms(2) Finish Some by (simp add: run_job_def)
    note key = find_target_key[OF Some]
    show ?thesis
    proof (cases "rs_err st' = None")
      case False
      then show ?thesis by (auto simp: answered_def)
    next
      case True
      have "rs_err st = None" using run True by (cases "rs_err st") (auto simp: finish_job_def Let_def)
      then have res: "rs_res st (pr_key (la_target l), i) \<noteq> None" if "i < length (pr_pairs (la_target l))" for i
        using assms(1) assms(3)[OF Finish Some that] Some key by (simp add: answered_def)
      show ?thesis
        using assms(1) finish_job_effect[OF run True res] key Some Finish
        by (auto simp: answered_def)
    qed
  qed
qed

lemma prepare_pairs_length:
  "prepare_pairs E drivers secret multi dps st opt w = (Ok (pps, opt'), st', w') \<Longrightarrow> length pps = length dps"
proof (induction dps arbitrary: st opt w pps)
  case Nil
  then show ?case by simp
next
  case (Cons dp dps)
  from Cons.prems show ?case by (rule prepare_pairs_Cons) (simp add: Cons.IH)
qed

lemma prepare_targets_keys:
  assumes "prepare_targets E drivers secret m opts st w = (Ok prs, st', w')"
  shows "map pr_key prs = map fst opts"
    and "pr \<in> set prs \<Longrightarrow> length (pr_pairs pr) = length (case map_of m (pr_key pr) of Some dps \<Rightarrow> dps | None \<Rightarrow> [])"
  using assms
proof (induction opts arbitrary: st w prs)
  case (Cons kopt opts)
  obtain k opt where kopt: "kopt = (k, opt)" by fastforce
  { case 1
    from 1[unfolded kopt] show ?case
      by (rule prepare_targets_Cons) (use kopt in \<open>simp add: Cons.IH(1)\<close>)
  next
    case 2
    from 2(2)[unfolded kopt] obtain dps pps opt1 st1 w1 prs1 where t: "dps = (case map_of m k of Some dps \<Rightarrow> dps | None \<Rightarrow> [])"
      "prepare_pairs E drivers secret (length dps > 1) dps st opt w = (Ok (pps, opt1), st1, w1)"
      "prepare_targets E drivers secret m opts st1 w1 = (Ok prs1, st', w')"
      "prs = \<lparr>pr_key = k, pr_options = opt1, pr_pairs = pps\<rparr> # prs1"
      by (rule prepare_targets_Cons)
    show ?case
      using 2(1) t(4) Cons.IH(2)[OF _ t(3)] prepare_pairs_length[OF t(2)] t(1) by auto
  }
qed simp_all

lemma launch_target_Ok: "launch_target E pr w = (Ok l, w') \<Longrightarrow> la_target l = pr"
  by (auto simp: launch_target_def io_simps)

lemma launch_targets_Ok: "io_map (launch_target E) prs w = (Ok ls, w') \<Longrightarrow> map la_target ls = prs"
  by (induction prs arbitrary: ls w) (auto simp: io_simps dest: launch_target_Ok)

lemma find_target_distinct:
  assumes "distinct (map (\<lambda>l. pr_key (la_target l)) ls)" and "l \<in> set ls"
  shows "find_target ls (pr_key (la_target l)) = Some l"
  using assms by (induction ls) (auto simp: find_target_def)

lemma run_jobs_answered:
  assumes "\<And>k l i. Finish k \<in> set js \<Longrightarrow> find_target ls k = Some l \<Longrightarrow> i < length (pr_pairs (la_target l)) \<Longrightarrow> Solve k i \<in> set js"
    and "legal js" and "fold (run_job E cs auth multiTarget ls) us (st, w) = (st', w')" and "js = us @ vs"
    and "answered ls {} st"
  shows "answered ls (set us) st'"
  using assms(3,4)
proof (induction us arbitrary: vs st' w' rule: rev_induct)
  case Nil
  then show ?case using assms(5) by simp
next
  case (snoc j us)
  obtain st1 w1 where f: "fold (run_job E cs auth multiTarget ls) us (st, w) = (st1, w1)" by fastforce
  have ans: "answered ls (set us) st1" by (rule snoc.IH[OF f]) (simp add: snoc.prems(2))
  have "answered ls (insert j (set us)) st'"
  proof (rule run_job_answered[OF ans])
    show "run_job E cs auth multiTarget ls j (st1, w1) = (st', w')" using snoc.prems(1) f by simp
    fix k l i
    assume j: "j = Finish k" and l: "find_target ls k = Some l" and i: "i < length (pr_pairs (la_target l))"
    have "Finish k \<in> set js" using j snoc.prems(2) by simp
    then have "Solve k i \<in> set js" using assms(1) l i by blast
    moreover have "Solve k i \<notin> set vs" using legal_split[of us k vs] assms(2) snoc.prems(2) j by simp
    ultimately show "Solve k i \<in> set us" using snoc.prems(2) j by auto
  qed
  then show ?case by simp
qed


section \<open>One target, one driver\<close>

text \<open>The build of one target by one driver, as a straight line: boot, prepare, solve, write the
  image ID, watch the display.\<close>

definition single_solve :: "'w build_env \<Rightarrow> 'w driver \<Rightarrow> exec_conn \<Rightarrow> string \<Rightarrow> string \<Rightarrow> solve_opt \<Rightarrow> export_entry list \<Rightarrow> int \<Rightarrow> (response, 'w) io" where
  "single_solve E d conn k iid so exports tm w =
     (let ((r, sts), w) = be_solve E False conn so exports w;
          w = fold (\<lambda>s. be_send E (forward k False s)) (ResetTime tm sts) w;
          (r, w) = (case r of
              Inl e \<Rightarrow> (Err (auth_hint E d w e), w)
            | Inr rr \<Rightarrow>
                if iid = [] then (Ok rr, w)
                else (case fs_write_file (be_fs E) iid (lookup_str rr digest_key) w of
                        (Some e, w) \<Rightarrow> (Err e, w)
                      | (None, w) \<Rightarrow> (Ok rr, w)))
      in (case (r, be_display E w) of
            (Inr _, Some e) \<Rightarrow> Err e
          | _ \<Rightarrow> r, w))"

definition single_build ::
  "'w build_env \<Rightarrow> 'w driver_info \<Rightarrow> 'w driver \<Rightarrow> string \<Rightarrow> options \<Rightarrow> string \<Rightarrow> 'w \<Rightarrow> ((string \<rightharpoonup> response) result \<times> 'w) option" where
  "single_build E di d k opt secret w =
     (case Boot (be_sys E) d (Some (be_send E)) w of
        None \<Rightarrow> None
      | Some (Inl e, w) \<Rightarrow> Some (Err e, be_close_status E w)
      | Some (Inr bc, w) \<Rightarrow>
          let opt = opt\<lparr>op_session := op_session opt @ [AuthProvider (dr_GetAuthProvider d secret w)]\<rparr> in
          Some (case toSolveOpt (be_fs E) (be_close_loader E) (be_parse_ref E) d False opt
                       (loader_callback (be_loader E) d (di_name di)) w of
                  (Inl e, w) \<Rightarrow> (Err e, w)
                | (Inr (so, exports, rel), w) \<Rightarrow>
                    let (tm, w) = sys_now (be_sys E) w in
                    (case single_solve E d (nc_client (bc_chosen bc)) k (op_image_id_file opt) so exports tm w of
                       (Inl e, w) \<Rightarrow> (Err e, run_releases (be_fs E) (be_close_loader E) rel w)
                     | (Inr rr, w) \<Rightarrow> (Ok [k \<mapsto> rr], w))))"

lemma run_releases_Nil [simp]: "run_releases F close [] w = w"
  by (simp add: run_releases_def)

lemma legal_single:
  assumes "mset js = mset [Solve k 0, Finish k]" and "legal js"
  shows "js = [Solve k 0, Finish k]"
proof -
  have "length js = 2" using assms(1) by (metis length_Cons list.size(3) mset_eq_length numeral_2_eq_2)
  then obtain a b where js: "js = [a, b]" by (auto simp: length_Suc_conv numeral_2_eq_2)
  have "set [a, b] = set [Solve k 0, Finish k]" using assms(1) js by (intro mset_eq_setD) simp
  then have "a = Solve k 0 \<and> b = Finish k \<or> a = Finish k \<and> b = Solve k 0" by (simp add: doubleton_eq_iff)
  then show ?thesis using assms(2) js by auto
qed

lemma run_jobs_single:
  assumes "\<And>ls :: 'w launched list. mset (be_schedule E (jobs_of ls)) = mset (jobs_of ls) \<and> legal (be_schedule E (jobs_of ls))"
    and "choose_client cs (pp_name pp) = Ok conn"
  shows "run_jobs (E :: 'w build_env) cs auth False
     [\<lparr>la_target = \<lparr>pr_key = k, pr_options = opt, pr_pairs = [pp]\<rparr>, la_starts = [tm], la_exports = exports, la_push_names = names\<rparr>] w1 =
     (case single_solve E (pp_driver pp) conn k (op_image_id_file opt) (pp_solve pp) exports tm w1 of
        (Inl e, w) \<Rightarrow> (Err e, w)
      | (Inr rr, w) \<Rightarrow> (Ok [k \<mapsto> rr], w))"
proof -
  let ?l = "\<lparr>la_target = \<lparr>pr_key = k, pr_options = opt, pr_pairs = [pp]\<rparr>, la_starts = [tm], la_exports = exports, la_push_names = names\<rparr> :: 'w launched"
  have js: "be_schedule E (jobs_of [?l]) = [Solve k 0, Finish k]"
    using assms(1)[of "[?l]"] by (intro legal_single) (simp_all add: jobs_of_def)
  have find: "find_target [?l] k = Some ?l" by (simp add: find_target_def)
  obtain r sts w2 where solve: "be_solve E False conn (pp_solve pp) exports w1 = ((r, sts), w2)" by (metis surj_pair)
  let ?w3 = "fold (\<lambda>s. be_send E (forward k False s)) (ResetTime tm sts) w2"
  show ?thesis
  proof (cases r)
    case (Inl e)
    then show ?thesis
      by (auto simp: run_jobs_def js run_job_def find solve_job_def assms(2) solve finish_job_def single_solve_def fail_run_def Let_def auth_hint_def
          split: option.splits)
  next
    case (Inr rr)
    obtain x w4 where wrote: "fs_write_file (be_fs E) (op_image_id_file opt) (lookup_str rr digest_key) ?w3 = (x, w4)" by fastforce
    show ?thesis
      using Inr wrote
      by (cases x) (auto simp: run_jobs_def js run_job_def find solve_job_def assms(2) solve finish_job_def single_solve_def fail_run_def Let_def auth_hint_def
          split: option.splits)
  qed
qed



section \<open>An example\<close>

fun is_solve :: "job \<Rightarrow> bool" where
  "is_solve (Solve k i) \<longleftrightarrow> True"
| "is_solve (Finish k) \<longleftrightarrow> False"

definition solves_first :: "job list \<Rightarrow> job list" where
  "solves_first js = filter is_solve js @ filter (\<lambda>j. \<not> is_solve j) js"

lemma legal_solves_first: "mset (solves_first js) = mset js \<and> legal (solves_first js)"
proof -
  have fin: "legal (filter (\<lambda>j. \<not> is_solve j) js)"
  proof (induction js)
    case (Cons j js)
    then show ?case by (cases j) (auto simp: list_all_iff split: job.splits)
  qed simp
  have "legal (us @ vs) = legal vs" if "list_all is_solve us" for us vs
    using that
  proof (induction us)
    case (Cons j us)
    then show ?case by (cases j) auto
  qed simp
  then have "legal (solves_first js)" using fin by (simp add: solves_first_def list_all_iff)
  then show ?thesis by (simp add: solves_first_def)
qed

text \<open>The registry refuses every request, and the solves succeed.\<close>

definition example_build :: "string list build_env" where
  "example_build =
     \<lparr>be_sys = still_sys, be_send = (\<lambda>st w. w), be_close_status = (\<lambda>w. w), be_display = (\<lambda>w. None), be_fs = example_fs,
      be_resolve = example_resolve id, be_loader = example_loader, be_close_loader = (\<lambda>r p w. w), be_parse_ref = Ok,
      be_repo_name = Ok, be_visit_names = id, be_codec = example_codec,
      be_registry = (\<lambda>cf. example_resolver\<lparr>rv_fetcher := \<lambda>s. io_err (External ''401''), rv_copy := \<lambda>s dt n dg w. (None, w)\<rparr>),
      be_auth_config = (\<lambda>name host. Err io_EOF),
      be_solve = (\<lambda>b c so ex w. ((Ok [digest_key \<mapsto> x_pod c], []), w)),
      be_visit_targets = id, be_schedule = solves_first\<rparr>"

definition stdin_options :: options where
  "stdin_options = example_options\<lparr>op_inputs := \<lparr>inp_context = ''-'', inp_dockerfile = []\<rparr>\<rparr>"

definition intel :: "string list driver" where
  "intel = the (di_driver (pod_driver ''intel''))"

lemma example_Boot: "Boot still_sys intel pw w =
    Some (Ok \<lparr>bc_chosen = \<lparr>nc_name = ''intel'', nc_addr = [], nc_client = pod_conn ''intel''\<rparr>, bc_others = []\<rparr>, w)"
  by (simp add: intel_def Boot_def loop_Return boot_round_def still_sys_def pod_driver_def image_driver_def)

lemma example_toSolveOpt:
  "\<exists>so. toSolveOpt example_fs (\<lambda>r p w. w) Ok intel multi (example_options\<lparr>op_session := s\<rparr>) dl w =
     (Ok (so, [(new_export ''image'' Map.empty)\<lparr>ee_attrs := [''name'' \<mapsto> ''img'']\<rparr>], [ReleaseDirs []]), w)"
  by (simp add: toSolveOpt_def prepare_exports_def remove_image_id_def cache_to_of_def check_one_export_def intel_def pod_driver_def
      name_exports_def runtime_export_def has_feature_def parse_tag_def named_export_def set_exporter_def
      multi_node_def pushing_def new_export_def finish_solve_def platform_attr_def network_mode_def
      toBuildkitExtraHosts_def LoadInputs_def load_context_def example_fs_def example_options_def image_driver_def
      feature_defs Let_def io_bind_def io_ok_def io_get_def io_lift_def)

lemma stdin_toSolveOpt:
  "\<exists>so dirs w'. toSolveOpt example_fs (\<lambda>r p w. w) Ok intel multi (stdin_options\<lparr>op_session := s\<rparr>) dl [] =
     (Ok (so, [(new_export ''image'' Map.empty)\<lparr>ee_attrs := [''name'' \<mapsto> ''img'']\<rparr>], [ReleaseDirs dirs]), w') \<and> dirs \<noteq> [] \<and> [] \<notin> set dirs"
  by (simp add: toSolveOpt_def prepare_exports_def remove_image_id_def cache_to_of_def check_one_export_def intel_def pod_driver_def
      name_exports_def runtime_export_def has_feature_def parse_tag_def named_export_def set_exporter_def
      multi_node_def pushing_def new_export_def finish_solve_def platform_attr_def network_mode_def temp_dir_or_empty_def createTempDockerfile_def
      toBuildkitExtraHosts_def LoadInputs_def load_context_def example_fs_def example_options_def stdin_options_def image_driver_def
      isArchive_def archive_magics_def io_act_def
      feature_defs Let_def io_bind_def io_ok_def io_get_def io_lift_def)


lemma example_build_sel:
  "be_sys example_build = still_sys" "be_send example_build = (\<lambda>st w. w)" "be_display example_build = (\<lambda>w. None)"
  "be_fs example_build = example_fs" "be_close_loader example_build = (\<lambda>r p w. w)" "be_parse_ref example_build = Ok"
  "be_visit_targets example_build = id" "be_schedule example_build = solves_first" "be_loader example_build = example_loader"
  "be_solve example_build = (\<lambda>b c so ex w. ((Ok [digest_key \<mapsto> x_pod c], []), w))"
  by (simp_all add: example_build_def)

lemma fold_ignore [simp]: "fold (\<lambda>s w. w) xs w = w"
  by (induction xs) simp_all

lemma still_now: "sys_now still_sys w = (0, w)"
  by (simp add: still_sys_def)

lemma nth_intel: "nth_driver [pod_driver ''intel''] 0 = Ok intel"
  by (simp add: nth_driver_def intel_def pod_driver_def)

lemma example_single:
  "single_build example_build (pod_driver ''intel'') intel ''default'' example_options ''s'' w =
     Some (Ok [''default'' \<mapsto> [digest_key \<mapsto> ''intel'']], w)"
proof -
  have "op_image_id_file example_options = []" by (simp add: example_options_def)
  moreover obtain so where "toSolveOpt example_fs (\<lambda>r p w. w) Ok intel False
      (example_options\<lparr>op_session := op_session example_options @ [AuthProvider (dr_GetAuthProvider intel ''s'' w)]\<rparr>)
      (loader_callback example_loader intel ''intel'') w =
     (Ok (so, [(new_export ''image'' Map.empty)\<lparr>ee_attrs := [''name'' \<mapsto> ''img'']\<rparr>], [ReleaseDirs []]), w)"
    using example_toSolveOpt by blast
  ultimately show ?thesis
    by (simp add: single_build_def example_build_sel example_Boot Let_def still_now single_solve_def pod_driver_sel pod_conn_sel)
qed


text \<open>The Dockerfile comes from the standard input: two directories are made.\<close>

lemma example_keeps: "build_keeps (\<lambda>w. set w - {[]}) example_build [pod_driver ''intel'']"
proof -
  have list: "dr_List intel w = (Ok [], w)" and feats: "snd (dr_Features intel w) = w" for w
    by (simp_all add: intel_def pod_driver_def image_driver_def)
  have callback: "\<exists>x. loader_callback example_loader intel name ex w = (x, w) \<and>
      (case x of Inl _ \<Rightarrow> True | Inr (_, r) \<Rightarrow> \<exists>runtime pods. r = ReleaseLoader runtime pods)" for name ex w
    by (auto simp: loader_callback_def newDockerLoader_def newContainerdLoader_def io_bind_def list builder_pods_def
        make_clients_def io_ok_def io_err_def split: option.splits)
  have "case loader_callback example_loader intel name ex w of (Inl _, w1) \<Rightarrow> set w1 - {[]} = set w - {[]}
      | (Inr (_, r), w1) \<Rightarrow> set w1 - {[]} = set w - {[]} \<and> (\<exists>runtime pods. r = ReleaseLoader runtime pods)" for name ex w
  proof -
    obtain x where "loader_callback example_loader intel name ex w = (x, w)"
      "case x of Inl _ \<Rightarrow> True | Inr (_, r) \<Rightarrow> \<exists>runtime pods. r = ReleaseLoader runtime pods"
      using callback by blast
    then show ?thesis by (cases x) auto
  qed
  then have "keeps_temps (\<lambda>w. set w - {[]}) example_fs (\<lambda>r p w. w) intel (loader_callback example_loader intel name)" for name
    by (simp add: keeps_temps_def example_temp_fs list feats)
  moreover have "di_driver (pod_driver ''intel'') = Some intel" by (simp add: intel_def pod_driver_def)
  ultimately show ?thesis
    using example_temp_fs
    by (simp add: build_keeps_def example_build_sel still_sys_def)
      (simp add: example_build_def resolver_keeps_def example_resolver_def io_keeps_def io_ok_def io_err_def example_fs_def)
qed


lemma example_pair: "\<lparr>dp_index = 0, dp_platforms = ps\<rparr> = dp \<Longrightarrow> nth_driver [pod_driver ''intel''] (dp_index dp) = Ok intel"
  using nth_intel by auto

lemma stdin_prepare:
  "\<exists>so dirs w'. prepare_targets example_build [pod_driver ''intel''] ''s'' [(''default'', [\<lparr>dp_index = 0, dp_platforms = []\<rparr>])]
      [(''default'', stdin_options)] \<lparr>bs_auth = None, bs_releases = []\<rparr> [] =
     (Ok [\<lparr>pr_key = ''default'', pr_options = stdin_options\<lparr>op_session := [AuthProvider ''s''],
          op_exports := [(new_export ''image'' Map.empty)\<lparr>ee_attrs := [''name'' \<mapsto> ''img'']\<rparr>]\<rparr>,
          pr_pairs = [\<lparr>pp_driver = intel, pp_name = ''intel'', pp_solve = so\<rparr>]\<rparr>],
      \<lparr>bs_auth = Some ''s'', bs_releases = [ReleaseDirs dirs]\<rparr>, w') \<and> dirs \<noteq> [] \<and> [] \<notin> set dirs"
proof -
  have auth: "dr_GetAuthProvider intel ''s'' w = ''s''" "dr_GetAuthWrapper intel ''s'' w = ''s''" for w
    by (simp_all add: intel_def pod_driver_def image_driver_def)
  have opt: "stdin_options\<lparr>op_platforms := [], op_session := op_session stdin_options @ [AuthProvider ''s'']\<rparr> =
      stdin_options\<lparr>op_session := [AuthProvider ''s'']\<rparr>"
    by (simp add: stdin_options_def example_options_def)
  obtain so dirs w' where "toSolveOpt example_fs (\<lambda>r p w. w) Ok intel False (stdin_options\<lparr>op_session := [AuthProvider ''s'']\<rparr>)
      (loader_callback example_loader intel ''intel'') [] =
     (Ok (so, [(new_export ''image'' Map.empty)\<lparr>ee_attrs := [''name'' \<mapsto> ''img'']\<rparr>], [ReleaseDirs dirs]), w')" "dirs \<noteq> []" "[] \<notin> set dirs"
    using stdin_toSolveOpt by blast
  then show ?thesis
    by (simp add: nth_intel join_auth_def auth opt example_build_sel pod_driver_sel)
qed

lemma stdin_resolved:
  "\<exists>prs st w1 dirs r. prepare_targets example_build [pod_driver ''intel''] ''s'' [(''default'', [\<lparr>dp_index = 0, dp_platforms = []\<rparr>])]
      [(''default'', stdin_options)] \<lparr>bs_auth = None, bs_releases = []\<rparr> [] = (Ok prs, st, w1) \<and>
    bs_releases st = [ReleaseDirs dirs] \<and> dirs \<noteq> [] \<and> [] \<notin> set dirs \<and>
    build_resolved example_build [pod_driver ''intel''] [(''default'', stdin_options)] ''s''
      [(''default'', [\<lparr>dp_index = 0, dp_platforms = []\<rparr>])] [(''intel'', [(''intel'', pod_conn ''intel'')])] [] = (Ok r, w1)"
proof -
  obtain so dirs w1 where prep: "prepare_targets example_build [pod_driver ''intel''] ''s'' [(''default'', [\<lparr>dp_index = 0, dp_platforms = []\<rparr>])]
      [(''default'', stdin_options)] \<lparr>bs_auth = None, bs_releases = []\<rparr> [] =
     (Ok [\<lparr>pr_key = ''default'', pr_options = stdin_options\<lparr>op_session := [AuthProvider ''s''],
          op_exports := [(new_export ''image'' Map.empty)\<lparr>ee_attrs := [''name'' \<mapsto> ''img'']\<rparr>]\<rparr>,
          pr_pairs = [\<lparr>pp_driver = intel, pp_name = ''intel'', pp_solve = so\<rparr>]\<rparr>],
      \<lparr>bs_auth = Some ''s'', bs_releases = [ReleaseDirs dirs]\<rparr>, w1)" and dirs: "dirs \<noteq> []" "[] \<notin> set dirs"
    using stdin_prepare by blast
  let ?cs = "[(''intel'', [(''intel'', pod_conn ''intel'')])]"
  have client: "choose_client ?cs ''intel'' = Ok (pod_conn ''intel'')" by (simp add: choose_client_def)
  have iid: "op_image_id_file stdin_options = []" by (simp add: stdin_options_def example_options_def)
  have sched: "mset (be_schedule example_build (jobs_of ls)) = mset (jobs_of ls) \<and> legal (be_schedule example_build (jobs_of ls))"
    for ls :: "string list launched list" by (simp add: example_build_sel legal_solves_first)
  obtain r where "build_resolved example_build [pod_driver ''intel''] [(''default'', stdin_options)] ''s''
      [(''default'', [\<lparr>dp_index = 0, dp_platforms = []\<rparr>])] ?cs [] = (Ok r, w1)"
    using prep by (simp add: build_resolved_def Let_def example_build_sel launch_target_def io_bind_def io_lift_def io_get_def io_ok_def
        still_now run_jobs_single[OF sched] client single_solve_def iid del: prepare_targets.simps)
  with prep dirs show ?thesis by fastforce
qed



text \<open>Two targets on one driver.\<close>

definition two_targets :: "options targets" where
  "two_targets = [(''one'', example_options), (''two'', example_options)]"

definition two_pairs :: "driver_pair list targets" where
  "two_pairs = map (\<lambda>k. (k, [\<lparr>dp_index = 0, dp_platforms = []\<rparr>])) [''one'', ''two'']"

lemma two_prepare:
  "\<exists>pr prs st w'. prepare_targets example_build [pod_driver ''intel''] ''s'' two_pairs two_targets
      \<lparr>bs_auth = None, bs_releases = []\<rparr> [] = (Ok (pr # prs), st, w') \<and> pr_pairs pr \<noteq> [] \<and> concat (map pr_pairs prs) \<noteq> []"
proof -
  have auth: "dr_GetAuthProvider intel ''s'' w = ''s''" "dr_GetAuthWrapper intel ''s'' w = ''s''" for w
    by (simp_all add: intel_def pod_driver_def image_driver_def)
  have opt: "example_options\<lparr>op_platforms := [], op_session := op_session example_options @ [AuthProvider ''s'']\<rparr> =
      example_options\<lparr>op_session := [AuthProvider ''s'']\<rparr>" "example_options\<lparr>op_platforms := []\<rparr> = example_options\<lparr>op_session := []\<rparr>"
    by (simp_all add: example_options_def)
  obtain so so' where "toSolveOpt example_fs (\<lambda>r p w. w) Ok intel False (example_options\<lparr>op_session := [AuthProvider ''s'']\<rparr>)
      (loader_callback example_loader intel ''intel'') [] =
     (Ok (so, [(new_export ''image'' Map.empty)\<lparr>ee_attrs := [''name'' \<mapsto> ''img'']\<rparr>], [ReleaseDirs []]), [])"
    "toSolveOpt example_fs (\<lambda>r p w. w) Ok intel False (example_options\<lparr>op_session := []\<rparr>)
      (loader_callback example_loader intel ''intel'') [] =
     (Ok (so', [(new_export ''image'' Map.empty)\<lparr>ee_attrs := [''name'' \<mapsto> ''img'']\<rparr>], [ReleaseDirs []]), [])"
    using example_toSolveOpt by metis
  then show ?thesis
    by (simp add: two_targets_def two_pairs_def nth_intel join_auth_def auth opt example_build_sel pod_driver_sel)
qed

theorem only_first_target_authenticates_witness:
  "\<exists>pr prs st w' a. prepare_targets example_build [pod_driver ''intel''] ''s'' two_pairs two_targets
      \<lparr>bs_auth = None, bs_releases = []\<rparr> [] = (Ok (pr # prs), st, w') \<and> concat (map pr_pairs prs) \<noteq> [] \<and>
      (\<forall>pp \<in> set (pr_pairs pr). AuthProvider a \<in> set (so_session (pp_solve pp))) \<and>
      (\<forall>pr' \<in> set prs. \<forall>pp \<in> set (pr_pairs pr'). AuthProvider a \<notin> set (so_session (pp_solve pp)))"
proof -
  obtain pr prs st w' where run: "prepare_targets example_build [pod_driver ''intel''] ''s'' two_pairs two_targets
      \<lparr>bs_auth = None, bs_releases = []\<rparr> [] = (Ok (pr # prs), st, w')" and ne: "concat (map pr_pairs prs) \<noteq> []"
    using two_prepare by blast
  have "op_session example_options = []" by (simp add: example_options_def)
  then have "(\<exists>a. \<forall>pp \<in> set (pr_pairs pr). AuthProvider a \<in> set (so_session (pp_solve pp))) \<and>
    (\<forall>pr' \<in> set prs. \<forall>pp \<in> set (pr_pairs pr'). \<forall>a. AuthProvider a \<notin> set (so_session (pp_solve pp)))"
    by (intro only_first_target_authenticates[OF run[unfolded two_targets_def], of "[\<lparr>dp_index = 0, dp_platforms = []\<rparr>]"])
      (auto simp: two_pairs_def)
  then show ?thesis using run ne by blast
qed

text \<open>Two pairs, whose manifest list the registry does not take.\<close>

definition two_solves :: "string list launched" where
  "two_solves =
     \<lparr>la_target = \<lparr>pr_key = ''img'', pr_options = example_options,
        pr_pairs = map (\<lambda>n. \<lparr>pp_driver = intel, pp_name = n, pp_solve = no_solve_opt\<rparr>) [''a'', ''b'']\<rparr>,
      la_starts = [0, 0], la_exports = [], la_push_names = ''repo/img''\<rparr>"

lemma example_merge_fails:
  assumes "res = [[digest_key \<mapsto> ''x''], [digest_key \<mapsto> ''y'']]"
  shows "\<exists>e v'. merge_lists example_build auth iid names res v = (Err e, v')"
proof -
  have "GetDescriptor (be_registry example_build cf) s d v = (Err (External ''401''), v)" for cf s d v
    by (simp add: GetDescriptor_def example_build_def io_bind_def io_err_def)
  then show ?thesis
    by (simp add: assms merge_lists_def Let_def response_descs_def List.map_filter_def Combine_def load_source_def
        io_bind_def io_lift_def io_err_def io_ok_def example_build_def[THEN arg_cong[of _ _ be_codec]] split: sum.splits prod.splits)
qed


theorem merge_failure_ignored_witness:
  "\<exists>w'. finish_job example_build None two_solves
      \<lparr>rs_err = None, rs_res = [(''img'', 0) \<mapsto> [digest_key \<mapsto> ''x''], (''img'', 1) \<mapsto> [digest_key \<mapsto> ''y'']], rs_resp = Map.empty\<rparr> [] =
    (\<lparr>rs_err = None, rs_res = [(''img'', 0) \<mapsto> [digest_key \<mapsto> ''x''], (''img'', 1) \<mapsto> [digest_key \<mapsto> ''y'']],
       rs_resp = [''img'' \<mapsto> [digest_key \<mapsto> ''x'']]\<rparr>, w')"
proof -
  let ?st = "\<lparr>rs_err = None, rs_res = [(''img'', 0 :: nat) \<mapsto> [digest_key \<mapsto> ''x''], (''img'', 1) \<mapsto> [digest_key \<mapsto> ''y'']], rs_resp = Map.empty\<rparr>"
  let ?res = "\<lambda>i. [digest_key \<mapsto> (if i = (0 :: nat) then ''x'' else ''y'')]"
  have "\<exists>w'. finish_job example_build None two_solves ?st [] =
      (?st\<lparr>rs_resp := (rs_resp ?st)(pr_key (la_target two_solves) \<mapsto> ?res 0)\<rparr>, w')"
    by (rule merge_failure_ignored[where res = ?res])
      (auto simp: two_solves_def example_merge_fails upt_rec less_Suc_eq numeral_2_eq_2)
  then show ?thesis by (simp add: two_solves_def)
qed

end
