(* ===== verification/Commands.thy ===== *)
theory Commands
  imports Build KubeDriver
begin

text \<open>
  The commands: \<open>pkg/cmd\<close>. Each \<open>run\<close> function is here with the values of its flags as a
  record, and each command with its arguments, the checks at its head and its \<open>run\<close> function;
  the theory \<open>CommandLine\<close> declares the flags and reads these records from them. The commands make
  Kubernetes drivers, so the world of a driver is the driver itself beside the cluster.
\<close>

section \<open>The environment\<close>

record 'w cmd_env =
  cx_factory :: factory_env
  cx_kube :: "'w kube"
  cx_chooser :: "'w chooser_env"
  cx_build :: "(kube_driver \<times> 'w) build_env"
  cx_lookup_env :: "string \<rightharpoonup> string"
  cx_abs :: "string \<Rightarrow> string result"
  cx_host :: host
  cx_new_store :: "secret_source list \<Rightarrow> attachable result"
  cx_new_agents :: "agent_config list \<Rightarrow> attachable result"
  cx_shlex :: "string \<Rightarrow> string list result"

definition registered :: "'w cmd_env \<Rightarrow> kube_driver registry" where
  "registered C = drivers (cx_factory C)"

text \<open>What can be called on a driver that is made.\<close>

definition as_driver :: "'w cmd_env \<Rightarrow> (kube_driver \<times> 'w) driver" where
  "as_driver C = kubernetes_driver (cx_kube C) (cx_factory C) (cx_chooser C)"

section \<open>Options shared by the commands (build.go)\<close>

definition list_entry :: "(string \<rightharpoonup> string) \<Rightarrow> bool \<Rightarrow> (string \<times> string) list \<Rightarrow> string \<Rightarrow> (string \<times> string) list" where
  "list_entry lookup_env defaultEnv m arg =
     (case splitn2 CHR ''='' arg of
        [k, v] \<Rightarrow> AList.update k v m
      | [k] \<Rightarrow>
          (if defaultEnv then (case lookup_env k of Some v \<Rightarrow> AList.update k v m | None \<Rightarrow> m)
           else AList.update k [] m)
      | _ \<Rightarrow> m)"

definition listToMap :: "(string \<rightharpoonup> string) \<Rightarrow> string list \<Rightarrow> bool \<Rightarrow> (string \<times> string) list" where
  "listToMap lookup_env flags defaultEnv = foldl (list_entry lookup_env defaultEnv) [] flags"

definition errNoContext :: go_error where
  "errNoContext = Errorf ''no context is currently set, use %q to select a new one'' [''kubectl config use-context <context>'']"

record kube_context =
  kx_cluster :: string
  kx_auth_info :: string
  kx_namespace :: string

record raw_config =
  rc_contexts :: "string \<rightharpoonup> kube_context"
  rc_current :: string

record kube_options =
  ko_raw :: raw_config
  ko_namespace :: string
  ko_context :: string
  ko_cluster :: string
  ko_auth_info :: string
  ko_resulting :: "kube_context option"

text \<open>\<open>flag\<close> is \<open>cmd.Flags().GetString\<close>. The options are written as the code goes along, also
  when it fails later; a failed read writes the zero value.\<close>

definition read_flag ::
  "(string \<Rightarrow> string result) \<Rightarrow> string \<Rightarrow> (string \<Rightarrow> kube_options \<Rightarrow> kube_options) \<Rightarrow>
     (kube_options \<Rightarrow> go_error option \<times> kube_options) \<Rightarrow> kube_options \<Rightarrow> go_error option \<times> kube_options" where
  "read_flag flag name put continue o' =
     (case flag name of
        Inl e \<Rightarrow> (Some e, put [] o')
      | Inr v \<Rightarrow> continue (put v o'))"

definition resulting_context :: "kube_options \<Rightarrow> kube_context \<Rightarrow> kube_context" where
  "resulting_context o' current =
     (let kx = \<lparr>kx_cluster = kx_cluster current, kx_auth_info = kx_auth_info current, kx_namespace = []\<rparr>;
          kx = (if ko_context o' \<noteq> [] then
                  (case rc_contexts (ko_raw o') (ko_context o') of Some userCtx \<Rightarrow> userCtx | None \<Rightarrow> kx) else kx);
          kx = kx\<lparr>kx_namespace := ko_namespace o'\<rparr>;
          kx = (if ko_cluster o' \<noteq> [] then kx\<lparr>kx_cluster := ko_cluster o'\<rparr> else kx)
      in if ko_auth_info o' \<noteq> [] then kx\<lparr>kx_auth_info := ko_auth_info o'\<rparr> else kx)"

definition Complete :: "(raw_config \<times> go_error option) \<Rightarrow> (string \<Rightarrow> string result) \<Rightarrow> kube_options \<Rightarrow> go_error option \<times> kube_options" where
  "Complete raw flag o' =
     (let o' = o'\<lparr>ko_raw := fst raw\<rparr> in
      case snd raw of
        Some e \<Rightarrow> (Some e, o')
      | None \<Rightarrow>
          read_flag flag ''namespace'' (\<lambda>v o'. o'\<lparr>ko_namespace := v\<rparr>) (\<lambda>o'.
          if ko_namespace o' = [] then (None, o')
          else
            read_flag flag ''context'' (\<lambda>v o'. o'\<lparr>ko_context := v\<rparr>) (\<lambda>o'.
            read_flag flag ''cluster'' (\<lambda>v o'. o'\<lparr>ko_cluster := v\<rparr>) (\<lambda>o'.
            read_flag flag ''user'' (\<lambda>v o'. o'\<lparr>ko_auth_info := v\<rparr>) (\<lambda>o'.
              case rc_contexts (ko_raw o') (rc_current (ko_raw o')) of
                None \<Rightarrow> (Some errNoContext, o')
              | Some current \<Rightarrow> (None, o'\<lparr>ko_resulting := Some (resulting_context o' current)\<rparr>)) o') o') o') o')"

definition Validate :: "kube_options \<Rightarrow> go_error option" where
  "Validate o' = (if rc_current (ko_raw o') = [] then Some errNoContext else None)"

text \<open>The head of every command.\<close>

definition complete_and_validate ::
  "(raw_config \<times> go_error option) \<Rightarrow> (string \<Rightarrow> string result) \<Rightarrow> kube_options \<Rightarrow> kube_options result" where
  "complete_and_validate raw flag o' =
     (case Complete raw flag o' of
        (Some e, _) \<Rightarrow> Err e
      | (None, o') \<Rightarrow> (case Validate o' of Some e \<Rightarrow> Err e | None \<Rightarrow> Ok o'))"

definition ExactArgs :: "nat \<Rightarrow> string \<Rightarrow> string \<Rightarrow> string \<Rightarrow> string list \<Rightarrow> go_error option" where
  "ExactArgs n path use_line short args =
     (if length args = n then None
      else Some (Errorf (''%q requires exactly %d %s.'' @ [LF] @ ''See '' @ [CHR 39] @ ''%s --help'' @ [CHR 39] @ ''.'' @ [LF, LF] @ ''Usage:  %s'' @ [LF, LF] @ ''%s'')
        [path, itoa (int n), ''argument(s)'', path, use_line, short]))"

section \<open>build\<close>

record build_options =
  bo_context_path :: string
  bo_dockerfile :: string
  bo_tags :: "string list"
  bo_labels :: "string list"
  bo_build_args :: "string list"
  bo_cache_from :: "string list"
  bo_cache_to :: "string list"
  bo_target :: string
  bo_platforms :: "string list"
  bo_secrets :: "string list"
  bo_ssh :: "string list"
  bo_outputs :: "string list"
  bo_image_id_file :: string
  bo_extra_hosts :: "string list"
  bo_network :: string
  bo_squash :: bool
  bo_quiet :: bool
  bo_allow :: "string list"
  bo_frontend :: string
  bo_builder :: string
  bo_no_cache :: "bool option"
  bo_progress :: string
  bo_pull :: "bool option"
  bo_push :: bool
  bo_load :: bool
  bo_secret_name :: string

definition push_exports :: "bool \<Rightarrow> bool \<Rightarrow> export_entry list \<Rightarrow> export_entry list result" where
  "push_exports push load outputs =
     (if \<not> push then Ok outputs
      else if load then Err (Errorf ''push and load may not be set together at the moment'' [])
      else case outputs of
             [] \<Rightarrow> Ok [new_export ''image'' [''push'' \<mapsto> ''true'']]
           | e # es \<Rightarrow>
               if ee_type e = ''image'' then Ok (e\<lparr>ee_attrs := (ee_attrs e)(''push'' \<mapsto> ''true'')\<rparr> # es)
               else Err (Errorf ''push and %q output can't be used together'' [ee_type e]))"

definition load_exports :: "bool \<Rightarrow> export_entry list \<Rightarrow> export_entry list result" where
  "load_exports load outputs =
     (if \<not> load then Ok outputs
      else case outputs of
             [] \<Rightarrow> Ok [new_export ''runtime'' Map.empty]
           | e # es \<Rightarrow>
               if ee_type e = ''containerd'' \<or> ee_type e = ''docker'' then Ok outputs
               else Err (Errorf ''load and %q output can't be used together'' [ee_type e]))"

definition proxy_names :: "string list" where
  "proxy_names = [''http_proxy'', ''https_proxy'', ''no_proxy'', ''HTTP_PROXY'', ''HTTPS_PROXY'', ''NO_PROXY'']"

definition proxy_envs :: "(string \<rightharpoonup> string) \<Rightarrow> string list" where
  "proxy_envs lookup_env =
     List.map_filter (\<lambda>env. map_option (\<lambda>val. env @ ''='' @ val) (lookup_env env)) proxy_names"

definition builder_or_default :: "string \<Rightarrow> string" where
  "builder_or_default instance_name = (if instance_name = [] then ''buildkit'' else instance_name)"

text \<open>The driver of a build, before anything is asked of the cluster.\<close>

definition build_driver :: "'w cmd_env \<Rightarrow> kube_client_config option \<Rightarrow> string \<Rightarrow> string \<Rightarrow> kube_driver result" where
  "build_driver C kube hash instance_name =
     GetDriver (registered C) (builder_or_default instance_name) None kube [] []
       [(''env'', join_with '';'' (proxy_envs (cx_lookup_env C)))] hash"

definition buildTargets ::
  "'w cmd_env \<Rightarrow> kube_client_config option \<Rightarrow> options targets \<Rightarrow> string \<Rightarrow> string \<Rightarrow> string \<Rightarrow> 'w \<Rightarrow> (go_error option \<times> 'w) option" where
  "buildTargets C kube opts hash secret instance_name w =
     (case build_driver C kube hash instance_name of
        Inl e \<Rightarrow> Some (Some e, w)
      | Inr d \<Rightarrow>
          (case Build (cx_build C)
                  [\<lparr>di_driver = Some (as_driver C), di_name = builder_or_default instance_name, di_platforms = [], di_err = None\<rparr>]
                  opts secret (d, w) of
             None \<Rightarrow> None
           | Some (Inl e, (_, w)) \<Rightarrow> Some (Some e, w)
           | Some (Inr _, (_, w)) \<Rightarrow> Some (None, w)))"

text \<open>The options of the one target. The output files are made on the way.\<close>

definition target_options :: "'w cmd_env \<Rightarrow> build_options \<Rightarrow> machine \<Rightarrow> options result \<times> machine" where
  "target_options C ins m =
     (let C1 = and_then (Parse (cx_host C) (bo_platforms ins)) (\<lambda>ps.
               and_then (ParseSecretSpecs (cx_new_store C) (bo_secrets ins)) (\<lambda>secrets.
               and_then (ParseSSHSpecs (cx_new_agents C) (bo_ssh ins)) (\<lambda>ssh. Ok (ps, [secrets, ssh])))) in
      case C1 of
        Inl e \<Rightarrow> (Err e, m)
      | Inr (ps, sess) \<Rightarrow>
          (case ParseOutputs (bo_outputs ins) m of
             (Inl e, m) \<Rightarrow> (Err e, m)
           | (Inr outputs, m) \<Rightarrow>
               (and_then (push_exports (bo_push ins) (bo_load ins) outputs) (\<lambda>outputs.
                and_then (load_exports (bo_load ins) outputs) (\<lambda>outputs.
                and_then (ParseCacheEntry (bo_cache_from ins)) (\<lambda>cache_from.
                and_then (ParseCacheEntry (bo_cache_to ins)) (\<lambda>cache_to.
                and_then (ParseEntitlements (bo_allow ins)) (\<lambda>allow.
                Ok \<lparr>op_inputs = \<lparr>inp_context = bo_context_path ins, inp_dockerfile = bo_dockerfile ins\<rparr>,
                    op_tags = bo_tags ins, op_labels = listToMap (cx_lookup_env C) (bo_labels ins) False,
                    op_build_args = listToMap (cx_lookup_env C) (bo_build_args ins) True,
                    op_pull = (bo_pull ins = Some True), op_image_id_file = bo_image_id_file ins,
                    op_extra_hosts = bo_extra_hosts ins, op_network = bo_network ins,
                    op_no_cache = (bo_no_cache ins = Some True), op_target = bo_target ins, op_platforms = ps,
                    op_exports = outputs, op_session = sess, op_cache_from = cache_from, op_cache_to = cache_to,
                    op_allow = allow, op_frontend = bo_frontend ins\<rparr>))))), m)))"

definition runBuild ::
  "'w cmd_env \<Rightarrow> kube_client_config option \<Rightarrow> build_options \<Rightarrow> machine \<times> 'w \<Rightarrow> (go_error option \<times> machine \<times> 'w) option" where
  "runBuild C kube ins = (\<lambda>(m, w).
     if bo_squash ins then Some (Some (Errorf ''squash currently not implemented'' []), m, w)
     else if bo_quiet ins then Some (Some (Errorf ''quiet currently not implemented'' []), m, w)
     else
       case target_options C ins m of
         (Inl e, m) \<Rightarrow> Some (Some e, m, w)
       | (Inr opts, m) \<Rightarrow>
           let hash = (case cx_abs C (bo_context_path ins) of Inr p \<Rightarrow> p | Inl _ \<Rightarrow> bo_context_path ins) in
           (case buildTargets C kube [(''default'', opts)] hash (bo_secret_name ins) (bo_builder ins) w of
              None \<Rightarrow> None
            | Some (err, w) \<Rightarrow> Some (err, m, w)))"

text \<open>The options before the command line is read. Flags that are accepted and ignored have no
  option.\<close>

definition build_flags :: build_options where
  "build_flags =
     \<lparr>bo_context_path = [], bo_dockerfile = [], bo_tags = [], bo_labels = [], bo_build_args = [], bo_cache_from = [],
      bo_cache_to = [], bo_target = [], bo_platforms = [], bo_secrets = [], bo_ssh = [], bo_outputs = [],
      bo_image_id_file = [], bo_extra_hosts = [], bo_network = ''default'', bo_squash = False, bo_quiet = False,
      bo_allow = [], bo_frontend = [], bo_builder = [], bo_no_cache = None, bo_progress = [], bo_pull = None,
      bo_push = False, bo_load = False, bo_secret_name = []\<rparr>"

definition platforms_default :: "(string \<rightharpoonup> string) \<Rightarrow> string list" where
  "platforms_default lookup_env =
     (let v = lookup_str lookup_env ''DOCKER_DEFAULT_PLATFORM'' in if v \<noteq> [] then [v] else [])"

definition commonBuildFlags :: "build_options \<Rightarrow> build_options" where
  "commonBuildFlags ins =
     ins\<lparr>bo_no_cache := Some False, bo_progress := ''auto'', bo_pull := Some False, bo_secret_name := []\<rparr>"

definition default_build_options :: "(string \<rightharpoonup> string) \<Rightarrow> build_options" where
  "default_build_options lookup_env = commonBuildFlags (build_flags\<lparr>bo_platforms := platforms_default lookup_env\<rparr>)"

text \<open>\<open>RunE\<close> of the build command: what it does with its argument and flags.\<close>

definition build_RunE :: "string \<Rightarrow> string \<Rightarrow> build_options \<Rightarrow> build_options" where
  "build_RunE arg root_builder ins =
     (let ins = ins\<lparr>bo_context_path := arg, bo_builder := root_builder\<rparr>
      in if bo_outputs ins = [] \<and> \<not> bo_push ins then ins\<lparr>bo_load := True\<rparr> else ins)"

section \<open>create\<close>

record create_options =
  co_name :: string
  co_image :: string
  co_runtime :: string
  co_containerd_sock :: string
  co_containerd_namespace :: string
  co_docker_sock :: string
  co_replicas :: int
  co_rootless :: bool
  co_loadbalance :: string
  co_worker :: string
  co_driver :: string
  co_platform :: "string list"
  co_flags :: string
  co_config_file :: string
  co_progress :: string
  co_custom_config :: string
  co_envs :: "string list"

text \<open>The options before the command line is read. The progress mode goes to the display only.\<close>

definition default_create_options :: create_options where
  "default_create_options =
     \<lparr>co_name = [], co_image = [], co_runtime = ''auto'', co_containerd_sock = DefaultContainerdSockPath,
      co_containerd_namespace = DefaultContainerdNamespace, co_docker_sock = DefaultDockerSockPath, co_replicas = 1,
      co_rootless = False, co_loadbalance = ''random'', co_worker = ''auto'', co_driver = [], co_platform = [],
      co_flags = [], co_config_file = [], co_progress = ''auto'', co_custom_config = [], co_envs = []\<rparr>"

definition create_RunE :: "string list \<Rightarrow> create_options \<Rightarrow> create_options" where
  "create_RunE args ins = (case args of [] \<Rightarrow> ins | name # _ \<Rightarrow> ins\<lparr>co_name := name\<rparr>)"

definition create_driver_opts :: "create_options \<Rightarrow> (string \<times> string) list" where
  "create_driver_opts ins =
     [(''image'', co_image ins), (''replicas'', itoa (co_replicas ins)), (''rootless'', format_bool (co_rootless ins)),
      (''loadbalance'', co_loadbalance ins), (''worker'', co_worker ins),
      (''containerd-namespace'', co_containerd_namespace ins), (''containerd-sock'', co_containerd_sock ins),
      (''docker-sock'', co_docker_sock ins), (''runtime'', co_runtime ins), (''custom-config'', co_custom_config ins),
      (''env'', join_with '';'' (co_envs ins))]"

text \<open>The driver that create boots, and the name of its factory.\<close>

definition create_driver :: "'w cmd_env \<Rightarrow> kube_client_config option \<Rightarrow> create_options \<Rightarrow> (kube_driver \<times> string) result" where
  "create_driver C kube ins =
     (if co_name ins = ''default'' then
        Err (Errorf ''default is a reserved name and cannot be used to identify builder instance'' [])
      else
        and_then (GetFactory DriverName True (registered C)) (\<lambda>f.
        case f of
          None \<Rightarrow> Err (Errorf ''failed to find driver %q'' [co_driver ins])
        | Some f \<Rightarrow>
            and_then (if co_flags ins = [] then Ok []
                      else (case cx_shlex C (co_flags ins) of
                              Inl e \<Rightarrow> Err (Wrapf e ''failed to parse buildkit flags'' [])
                            | Inr flags \<Rightarrow> Ok flags)) (\<lambda>flags.
            and_then (GetDriver (registered C) (co_name ins) (Some f) kube flags (co_config_file ins) (create_driver_opts ins) []) (\<lambda>d.
            Ok (d, fa_name f)))))"

text \<open>The result is the line that is printed.\<close>

definition runCreate ::
  "'w cmd_env \<Rightarrow> kube_client_config option \<Rightarrow> create_options \<Rightarrow> 'w \<Rightarrow> (string result \<times> 'w) option" where
  "runCreate C kube ins w =
     (case create_driver C kube ins of
        Inl e \<Rightarrow> Some (Err e, w)
      | Inr (d, fname) \<Rightarrow>
          (case Boot (be_sys (cx_build C)) (as_driver C) (Some (be_send (cx_build C))) (d, w) of
             None \<Rightarrow> None
           | Some (Inl e, (_, w)) \<Rightarrow> Some (Err e, w)
           | Some (Inr _, (_, w)) \<Rightarrow> Some (Ok (''Created '' @ fname @ '' builder '' @ co_name ins @ [LF]), w)))"

section \<open>rm and ls\<close>

text \<open>The driver named after its factory, that the commands ask for all builders.\<close>

definition factory_driver :: "'w cmd_env \<Rightarrow> kube_client_config option \<Rightarrow> string \<Rightarrow> kube_driver factory \<Rightarrow> kube_driver result" where
  "factory_driver C kube name f = GetDriver (registered C) name (Some f) kube [] [] [] []"

definition remove_builder :: "'w cmd_env \<Rightarrow> kube_client_config option \<Rightarrow> kube_driver factory \<Rightarrow> string \<Rightarrow> (unit, 'w) io" where
  "remove_builder C kube f name =
     io_bind (io_lift (factory_driver C kube name f)) (\<lambda>d. io_act (Rm (cx_kube C) d False))"

definition remove_named :: "'w cmd_env \<Rightarrow> kube_client_config option \<Rightarrow> kube_driver factory \<Rightarrow> string list \<Rightarrow> builder \<Rightarrow> (unit list, 'w) io" where
  "remove_named C kube f names b = io_map (remove_builder C kube f) (filter (\<lambda>n. b_name b = n) names)"

definition runRm :: "'w cmd_env \<Rightarrow> kube_client_config option \<Rightarrow> string list \<Rightarrow> (unit, 'w) io" where
  "runRm C kube names =
     io_bind (io_map (\<lambda>(name, f).
         io_bind (io_lift (factory_driver C kube name f)) (\<lambda>d.
         io_bind (List (cx_kube C)) (\<lambda>bs. io_map (remove_named C kube f names) bs)))
       (GetFactories (registered C))) (\<lambda>_. io_ok ())"

text \<open>The rows of the table, before the writer aligns them.\<close>

definition ls_row :: "host \<Rightarrow> builder \<Rightarrow> builder_node \<Rightarrow> string list" where
  "ls_row h b n = [b_name b, bn_name n, b_driver b, bn_status n, join_with '', '' (FormatInGroups h [bn_platforms n])]"

definition runLs :: "'w cmd_env \<Rightarrow> kube_client_config option \<Rightarrow> (string list list, 'w) io" where
  "runLs C kube =
     io_bind (io_map (\<lambda>(name, f).
         io_bind (io_lift (factory_driver C kube name f)) (\<lambda>d. List (cx_kube C)))
       (GetFactories (registered C))) (\<lambda>bss.
     io_ok ([''NAME'', ''NODE'', ''DRIVER'', ''STATUS'', ''PLATFORMS''] #
       concat (map (\<lambda>b. map (ls_row (cx_host C) b) (b_nodes b)) (concat bss))))"

section \<open>version\<close>

definition getBuilderVersion :: "'w cmd_env \<Rightarrow> kube_client_config option \<Rightarrow> string \<Rightarrow> 'w \<Rightarrow> string \<times> 'w" where
  "getBuilderVersion C kube builder w =
     (case GetDriver (registered C) (builder_or_default builder) None kube [] [] [] [] of
        Inl e \<Rightarrow> (sys_text (be_sys (cx_build C)) e, w)
      | Inr d \<Rightarrow>
          (case GetVersion (cx_kube C) (cx_chooser C) d w of
             (Inl e, w) \<Rightarrow> (sys_text (be_sys (cx_build C)) e, w)
           | (Inr v, w) \<Rightarrow> (v, w)))"

definition runVersion :: "'w cmd_env \<Rightarrow> kube_client_config option \<Rightarrow> string \<Rightarrow> 'w \<Rightarrow> string \<times> 'w" where
  "runVersion C kube builder w =
     (case getBuilderVersion C kube builder w of
        (v, w) \<Rightarrow> (''Client:  '' @ Version @ [LF] @ ''Builder: '' @ v @ [LF], w))"

section \<open>The commands\<close>

text \<open>
  What a command is run with: the texts and arguments that cobra gives it, the flags, and the
  client configuration with the raw configuration behind it. Cobra checks the number of
  arguments before \<open>RunE\<close>.
\<close>

record command_line =
  cl_path :: string
  cl_use_line :: string
  cl_short :: string
  cl_args :: "string list"
  cl_flag :: "string \<Rightarrow> string result"
  cl_raw :: "raw_config \<times> go_error option"
  cl_kube :: kube_client_config
  cl_options :: kube_options

definition args_error :: "command_line \<Rightarrow> nat \<Rightarrow> go_error option" where
  "args_error L n = ExactArgs n (cl_path L) (cl_use_line L) (cl_short L) (cl_args L)"

definition head_error :: "command_line \<Rightarrow> go_error option" where
  "head_error L =
     (case complete_and_validate (cl_raw L) (cl_flag L) (cl_options L) of Inl e \<Rightarrow> Some e | Inr _ \<Rightarrow> None)"

definition buildCmd ::
  "'w cmd_env \<Rightarrow> command_line \<Rightarrow> string \<Rightarrow> build_options \<Rightarrow> machine \<times> 'w \<Rightarrow> (go_error option \<times> machine \<times> 'w) option" where
  "buildCmd C L root_builder options s =
     (case args_error L 1 of
        Some e \<Rightarrow> Some (Some e, s)
      | None \<Rightarrow>
          let options = build_RunE (hd (cl_args L)) root_builder options in
          (case head_error L of
             Some e \<Rightarrow> Some (Some e, s)
           | None \<Rightarrow> runBuild C (Some (cl_kube L)) options s))"

definition createCmd ::
  "'w cmd_env \<Rightarrow> command_line \<Rightarrow> create_options \<Rightarrow> 'w \<Rightarrow> (string result \<times> 'w) option" where
  "createCmd C L options w =
     (let options = create_RunE (cl_args L) options in
      case head_error L of
        Some e \<Rightarrow> Some (Err e, w)
      | None \<Rightarrow> runCreate C (Some (cl_kube L)) options w)"

definition rmCmd :: "'w cmd_env \<Rightarrow> command_line \<Rightarrow> (unit, 'w) io" where
  "rmCmd C L w =
     (case head_error L of
        Some e \<Rightarrow> (Err e, w)
      | None \<Rightarrow> runRm C (Some (cl_kube L)) (cl_args L) w)"

definition lsCmd :: "'w cmd_env \<Rightarrow> command_line \<Rightarrow> (string list list, 'w) io" where
  "lsCmd C L w =
     (case args_error L 0 of
        Some e \<Rightarrow> (Err e, w)
      | None \<Rightarrow>
          (case head_error L of
             Some e \<Rightarrow> (Err e, w)
           | None \<Rightarrow> runLs C (Some (cl_kube L)) w))"

definition versionCmd :: "'w cmd_env \<Rightarrow> command_line \<Rightarrow> string \<Rightarrow> (string, 'w) io" where
  "versionCmd C L root_builder w =
     (case head_error L of
        Some e \<Rightarrow> (Err e, w)
      | None \<Rightarrow> (case runVersion C (Some (cl_kube L)) root_builder w of (text, w) \<Rightarrow> (Ok text, w)))"

text \<open>When the head of a command lets it through.\<close>

lemma head_error_None_iff:
  "head_error L = None \<longleftrightarrow>
     snd (cl_raw L) = None \<and> rc_current (fst (cl_raw L)) \<noteq> [] \<and>
     (\<exists>ns. cl_flag L ''namespace'' = Ok ns \<and>
        (ns \<noteq> [] \<longrightarrow>
           (\<forall>name \<in> set [''context'', ''cluster'', ''user'']. \<exists>v. cl_flag L name = Ok v) \<and>
           rc_contexts (fst (cl_raw L)) (rc_current (fst (cl_raw L))) \<noteq> None))"
  by (auto simp: head_error_def complete_and_validate_def Complete_def Validate_def read_flag_def Let_def
      split: sum.splits option.splits)

lemma no_command_without_head:
  assumes "head_error L = Some e"
  shows "\<exists>e. buildCmd C L rb bo s = Some (Some e, s)"
    and "createCmd C L co w = Some (Err e, w)"
    and "rmCmd C L w = (Err e, w)"
    and "\<exists>e. lsCmd C L w = (Err e, w)"
    and "versionCmd C L rb w = (Err e, w)"
  using assms
  by (auto simp: buildCmd_def createCmd_def rmCmd_def lsCmd_def versionCmd_def Let_def split: option.splits)

end
