(* ===== verification/CommandSpec.thy ===== *)
theory CommandSpec
  imports Commands BuildSpec
begin

text \<open>
  What the commands do from end to end: which drivers the flags of create and the environment
  of a build make, what a build exports and where it runs, and what rm deletes.
\<close>

section \<open>The registered factory\<close>

lemma registered_Kubernetes: "registered C = [(DriverName, kubernetes_factory (cx_factory C))]"
  by (simp add: registered_def drivers_def Register_def kubernetes_factory_def)

lemma GetFactory_registered: "GetFactory DriverName True (registered C) = Ok (Some (kubernetes_factory (cx_factory C)))"
  by (simp add: registered_Kubernetes GetFactory_def kubernetes_factory_def)

lemma GetDriver_registered:
  "GetDriver (registered C) name None kube flags config opts hash =
     factory_New (cx_factory C) \<lparr>ic_name = name, ic_kube = kube, ic_flags = flags, ic_config_file = config,
       ic_driver_opts = opts, ic_context_path_hash = hash\<rparr>"
  "GetDriver (registered C) name (Some (kubernetes_factory (cx_factory C))) kube flags config opts hash =
     factory_New (cx_factory C) \<lparr>ic_name = name, ic_kube = kube, ic_flags = flags, ic_config_file = config,
       ic_driver_opts = opts, ic_context_path_hash = hash\<rparr>"
  by (simp_all add: GetDriver_def registered_Kubernetes GetDefaultFactory_def kubernetes_factory_def Let_def)

section \<open>Made drivers\<close>

text \<open>The options of the deployment, from the state after the loop over the options.\<close>

definition final_opt :: "factory_env \<Rightarrow> init_state \<Rightarrow> deployment_opt" where
  "final_opt fe st =
     (let opt = resolve_runtime (is_opt st)
      in opt\<lparr>o_image := (if is_image st \<noteq> [] then is_image st else o_image opt), o_env := fe_visit fe (o_env opt)\<rparr>)"

definition final_allowed :: "factory_env \<Rightarrow> init_state \<Rightarrow> bool" where
  "final_allowed fe st \<longleftrightarrow>
     \<not> (o_rootless (final_opt fe st) \<and> o_worker (final_opt fe st) = ''containerd'') \<and>
     (ic_config_file (kd_config (is_driver st)) = [] \<or> (\<exists>data. fe_read_file fe (ic_config_file (kd_config (is_driver st))) = Ok data))"

lemma finish_init_eq:
  fixes fe st
  defines "opt \<equiv> (if is_image st \<noteq> [] then (resolve_runtime (is_opt st))\<lparr>o_image := is_image st\<rparr> else resolve_runtime (is_opt st))"
  assumes "NewDeployment (final_opt fe st) = Ok depl"
    and "\<not> (o_rootless (final_opt fe st) \<and> o_worker (final_opt fe st) = ''containerd'')"
  shows "finish_init fe st = load_config fe opt ((is_driver st)\<lparr>kd_deployment := depl, kd_min_replicas := o_replicas (final_opt fe st)\<rparr>)"
    and "o_name opt = o_name (final_opt fe st)"
proof -
  have final: "final_opt fe st = opt\<lparr>o_env := fe_visit fe (o_env opt)\<rparr>" by (simp add: final_opt_def opt_def Let_def)
  have ok: "\<not> (o_rootless (resolve_runtime (is_opt st)) \<and> o_worker (resolve_runtime (is_opt st)) = ''containerd'')"
    using assms(3) by (auto simp: final_opt_def Let_def)
  show "finish_init fe st = load_config fe opt ((is_driver st)\<lparr>kd_deployment := depl, kd_min_replicas := o_replicas (final_opt fe st)\<rparr>)"
    using assms(2) ok unfolding finish_init_def Let_def WorkerContainerd_def if_not_P[OF ok] opt_def[symmetric] final
    by simp
  show "o_name opt = o_name (final_opt fe st)" by (simp add: final)
qed

lemma load_config_None:
  "load_config fe opt d = (None, d') \<longleftrightarrow>
     (\<exists>data uc. (ic_config_file (kd_config d) = [] \<or> fe_read_file fe (ic_config_file (kd_config d)) = Ok data) \<and>
        data = (if ic_config_file (kd_config d) = [] then default_config (o_containerd_namespace opt) else data) \<and>
        uc = (ic_config_file (kd_config d) \<noteq> [] \<or> kd_user_config d) \<and>
        d' = d\<lparr>kd_config_map := NewConfigMap opt data, kd_user_config := uc\<rparr>)"
  by (cases d) (auto simp: load_config_def Let_def split: sum.splits)

lemma finish_init_allowed: "(\<exists>d. finish_init fe st = (None, d)) \<longleftrightarrow> final_allowed fe st"
proof (cases "o_rootless (final_opt fe st) \<and> o_worker (final_opt fe st) = ''containerd''")
  case True
  then have "o_rootless (resolve_runtime (is_opt st)) \<and> o_worker (resolve_runtime (is_opt st)) = WorkerContainerd"
    by (auto simp: final_opt_def Let_def WorkerContainerd_def)
  then show ?thesis using True by (simp add: finish_init_def Let_def final_allowed_def)
next
  case False
  obtain depl where depl: "NewDeployment (final_opt fe st) = Ok depl" by (simp add: NewDeployment_eq)
  show ?thesis
    using False by (simp add: finish_init_eq(1)[OF depl False] load_config_def final_allowed_def Let_def split: sum.splits)
qed

lemma finish_init_made:
  assumes "finish_init fe st = (None, d)"
  shows "NewDeployment (final_opt fe st) = Ok (kd_deployment d) \<and> kd_min_replicas d = o_replicas (final_opt fe st) \<and>
    kd_config d = kd_config (is_driver st) \<and> kd_loadbalance d = kd_loadbalance (is_driver st) \<and>
    kd_user_runtime d = kd_user_runtime (is_driver st) \<and> kd_namespace d = kd_namespace (is_driver st) \<and>
    cm_name (kd_config_map d) = o_name (final_opt fe st)"
proof -
  have ok: "\<not> (o_rootless (final_opt fe st) \<and> o_worker (final_opt fe st) = ''containerd'')"
    using finish_init_allowed[of fe st] assms by (auto simp: final_allowed_def)
  obtain depl where depl: "NewDeployment (final_opt fe st) = Ok depl" by (simp add: NewDeployment_eq)
  show ?thesis
    using assms finish_init_eq(2)[OF depl ok] unfolding finish_init_eq(1)[OF depl ok]
    by (auto simp: load_config_None NewConfigMap_def depl)
qed

definition kube_reachable :: "factory_env \<Rightarrow> kube_client_config option \<Rightarrow> bool" where
  "kube_reachable fe kube \<longleftrightarrow>
     fe_new_for_config fe = Ok () \<and> (\<exists>k ns. kube = Some k \<and> kc_namespace k = Ok ns \<and> kc_client_config k = Ok ())"

section \<open>create\<close>

lemma distinct_create_opts: "distinct (map fst (create_driver_opts ins))"
  by (simp add: create_driver_opts_def)

lemma create_opts_valid:
  assumes "- (2 ^ 63) \<le> co_replicas ins" and "co_replicas ins < 2 ^ 63"
  shows "list_all (\<lambda>(k, v). option_valid k v) (create_driver_opts ins) \<longleftrightarrow>
    co_loadbalance ins \<in> set [''random'', ''sticky''] \<and> co_worker ins \<in> set [''auto'', ''runc'', ''containerd''] \<and>
    co_runtime ins \<in> set [''auto'', ''docker'', ''containerd'']"
  using atoi_itoa[OF assms]
  by (auto simp: create_driver_opts_def option_valid_def kube_const_defs parse_format_bool)

definition create_state :: "create_options \<Rightarrow> kube_driver \<Rightarrow> init_config \<Rightarrow> init_state" where
  "create_state ins d cfg =
     \<lparr>is_driver = d\<lparr>kd_loadbalance := co_loadbalance ins, kd_user_runtime := co_runtime ins \<noteq> ''auto''\<rparr>,
      is_opt = (default_opt cfg)
        \<lparr>o_replicas := co_replicas ins, o_rootless := co_rootless ins,
         o_image := (if co_rootless ins then DefaultRootlessImage else DefaultImage), o_worker := co_worker ins,
         o_containerd_namespace := co_containerd_namespace ins, o_containerd_sock := co_containerd_sock ins,
         o_docker_sock := co_docker_sock ins, o_runtime := co_runtime ins, o_custom_config := co_custom_config ins,
         o_env := foldl add_env_item [] (split_on CHR '';'' (join_with '';'' (co_envs ins)))\<rparr>,
      is_image = co_image ins\<rparr>"

lemma configured_create:
  assumes "- (2 ^ 63) \<le> co_replicas ins" and "co_replicas ins < 2 ^ 63"
  shows "configured (map_of (create_driver_opts ins)) \<lparr>is_driver = d, is_opt = default_opt cfg, is_image = []\<rparr> = create_state ins d cfg"
  by (simp add: configured_def create_state_def create_driver_opts_def Let_def atoi_or_0_def atoi_itoa[OF assms]
      parse_bool_or_false_def parse_format_bool default_opt_def)

definition new_driver :: "init_config \<Rightarrow> string \<Rightarrow> kube_driver" where
  "new_driver cfg ns =
     \<lparr>kd_config = cfg, kd_min_replicas = 0, kd_deployment = no_deployment, kd_config_map = no_config_map,
      kd_chooser = None, kd_user_runtime = False, kd_user_config = False, kd_namespace = ns,
      kd_loadbalance = LoadbalanceSticky, kd_auth_hint = []\<rparr>"

definition started :: "init_config \<Rightarrow> string \<Rightarrow> init_state" where
  "started cfg ns = configured (map_of (ic_driver_opts cfg)) \<lparr>is_driver = new_driver cfg ns, is_opt = default_opt cfg, is_image = []\<rparr>"

lemma factory_New_iff:
  assumes "distinct (map fst (ic_driver_opts cfg))"
  shows "factory_New fe cfg = Ok d \<longleftrightarrow>
     kube_reachable fe (ic_kube cfg) \<and> list_all (\<lambda>(k, v). option_valid k v) (ic_driver_opts cfg) \<and>
     (\<exists>ns d'. map_option kc_namespace (ic_kube cfg) = Some (Ok ns) \<and> finish_init fe (started cfg ns) = (None, d') \<and>
        d = d'\<lparr>kd_chooser := pod_chooser_for cfg d'\<rparr>)"
  unfolding factory_New_Ok_iff new_driver_def[symmetric] using assms
  by (auto simp: kube_reachable_def started_def initDriver_Ok_iff new_driver_def)

lemma factory_New_accepts:
  assumes "distinct (map fst (ic_driver_opts cfg))" and "\<And>ns. final_allowed fe (started cfg ns) \<longleftrightarrow> P"
  shows "(\<exists>d. factory_New fe cfg = Ok d) \<longleftrightarrow>
    kube_reachable fe (ic_kube cfg) \<and> list_all (\<lambda>(k, v). option_valid k v) (ic_driver_opts cfg) \<and> P"
  using assms(2)[folded finish_init_allowed] unfolding factory_New_iff[OF assms(1)] kube_reachable_def by fastforce

text \<open>A list of environment variables, written and read.\<close>

definition env_text :: "(string \<times> string) list \<Rightarrow> string list" where
  "env_text kvs = map (\<lambda>(k, v). k @ ''='' @ v) kvs"

lemma map_of_env_items:
  assumes "\<And>k v. (k, v) \<in> set kvs \<Longrightarrow> CHR ''='' \<notin> set k" and "distinct (map fst env)"
  shows "map_of (foldl add_env_item env (env_text kvs)) = map_of env ++ map_of (rev kvs) \<and>
    distinct (map fst (foldl add_env_item env (env_text kvs)))"
  using assms
proof (induction kvs arbitrary: env)
  case Nil
  then show ?case by (simp add: env_text_def)
next
  case (Cons kv kvs)
  obtain k v where kv: "kv = (k, v)" by fastforce
  have "add_env_item env (k @ ''='' @ v) = AList.update k v env"
    using Cons.prems(1)[of k v] kv by (simp add: add_env_item_def splitn2_cut)
  moreover have "map_of (AList.update k v env) = (map_of env)(k \<mapsto> v)" by (simp add: update_conv')
  moreover have "CHR ''='' \<notin> set k'" if "(k', v') \<in> set kvs" for k' v' using Cons.prems(1) that by auto
  from Cons.IH[where env = "AList.update k v env", OF this] Cons.prems(2)
  have "map_of (foldl add_env_item (AList.update k v env) (env_text kvs)) = map_of (AList.update k v env) ++ map_of (rev kvs) \<and>
    distinct (map fst (foldl add_env_item (AList.update k v env) (env_text kvs)))"
    by (simp add: distinct_update)
  ultimately show ?case by (simp add: kv env_text_def)
qed

lemma env_items_joined:
  assumes "\<And>k v. (k, v) \<in> set kvs \<Longrightarrow> CHR ''='' \<notin> set k \<and> CHR '';'' \<notin> set k \<and> CHR '';'' \<notin> set v"
    and "\<And>kvs. mset (fe_visit fe kvs) = mset kvs"
  shows "map_of (fe_visit fe (foldl add_env_item [] (split_on CHR '';'' (join_with '';'' (env_text kvs))))) = map_of (rev kvs)"
proof -
  let ?env = "foldl add_env_item [] (split_on CHR '';'' (join_with '';'' (env_text kvs)))"
  have "?env = foldl add_env_item [] (env_text kvs)"
  proof (cases "kvs = []")
    case True
    then show ?thesis by (simp add: env_text_def add_env_item_def splitn2_no_sep)
  next
    case False
    then show ?thesis using assms(1) by (subst split_on_join) (auto simp: env_text_def)
  qed
  with map_of_env_items[of kvs "[]"] assms(1) have m: "map_of ?env = map_of (rev kvs)" "distinct (map fst ?env)"
    by auto
  have "distinct (map fst (fe_visit fe ?env))" using m(2) assms(2) by (metis mset_eq_imp_distinct_iff mset_map)
  from map_of_perm[OF this] assms(2) m(1) show ?thesis by metis
qed

definition create_config :: "kube_client_config option \<Rightarrow> create_options \<Rightarrow> string list \<Rightarrow> init_config" where
  "create_config kube ins flags =
     \<lparr>ic_name = co_name ins, ic_kube = kube, ic_flags = flags, ic_config_file = co_config_file ins,
      ic_driver_opts = create_driver_opts ins, ic_context_path_hash = []\<rparr>"

lemma fa_name_kubernetes: "fa_name (kubernetes_factory fe) = DriverName"
  by (simp add: kubernetes_factory_def)

lemma create_config_sel:
  "ic_name (create_config kube ins flags) = co_name ins" "ic_kube (create_config kube ins flags) = kube"
  "ic_flags (create_config kube ins flags) = flags" "ic_config_file (create_config kube ins flags) = co_config_file ins"
  "ic_driver_opts (create_config kube ins flags) = create_driver_opts ins"
  by (simp_all add: create_config_def)

lemma create_state_config: "kd_config (is_driver (create_state ins (new_driver cfg ns) cfg')) = cfg"
  by (simp add: create_state_def new_driver_def)

lemma create_driver_Ok:
  "create_driver C kube ins = Ok (d, fname) \<longleftrightarrow>
     co_name ins \<noteq> ''default'' \<and> fname = DriverName \<and>
     (\<exists>flags. (if co_flags ins = [] then Ok [] else cx_shlex C (co_flags ins)) = Ok flags \<and>
        factory_New (cx_factory C) (create_config kube ins flags) = Ok d)"
  by (auto simp: create_driver_def GetFactory_registered GetDriver_registered create_config_def and_then_Inr_iff
      fa_name_kubernetes split: sum.splits if_splits)

lemma started_create:
  assumes "- (2 ^ 63) \<le> co_replicas ins" and "co_replicas ins < 2 ^ 63"
  shows "started (create_config kube ins flags) ns =
    create_state ins (new_driver (create_config kube ins flags) ns) (create_config kube ins flags)"
  using configured_create[OF assms] by (simp add: started_def create_config_def)

lemma final_create:
  "o_worker (final_opt fe (create_state ins d cfg)) =
     (if co_worker ins = ''auto'' \<and> co_runtime ins \<in> set [''auto'', ''docker''] then ''runc''
      else if co_worker ins = ''auto'' \<and> co_runtime ins = ''containerd'' then ''containerd'' else co_worker ins)"
  "o_runtime (final_opt fe (create_state ins d cfg)) = (if co_runtime ins = ''auto'' then ''docker'' else co_runtime ins)"
  "o_rootless (final_opt fe (create_state ins d cfg)) = co_rootless ins"
  "o_replicas (final_opt fe (create_state ins d cfg)) = co_replicas ins"
  "o_name (final_opt fe (create_state ins d cfg)) = buildxNameToDeploymentName (ic_name cfg)"
  "o_image (final_opt fe (create_state ins d cfg)) =
     (if co_image ins \<noteq> [] then co_image ins else if co_rootless ins then DefaultRootlessImage else DefaultImage)"
  "o_env (final_opt fe (create_state ins d cfg)) =
     fe_visit fe (foldl add_env_item [] (split_on CHR '';'' (join_with '';'' (co_envs ins))))"
  "o_flags (final_opt fe (create_state ins d cfg)) = ic_flags cfg"
  "o_custom_config (final_opt fe (create_state ins d cfg)) = co_custom_config ins"
  by (simp_all add: final_opt_def create_state_def default_opt_def resolve_runtime_sel Let_def)
    (simp_all add: resolve_runtime_def Let_def)


lemma made_container:
  assumes "NewDeployment opt = Ok depl"
  shows "\<exists>c more. d_containers depl = [c] \<and> c_image c = o_image opt \<and> c_env c = o_env opt \<and> c_args c = o_flags opt @ more \<and>
    c_privileged c = (if o_rootless opt then None else Some True)"
  using assms by (auto simp: NewDeployment_eq environments_of_def)

text \<open>What a driver that is made has of the options of its deployment.\<close>

definition made_with :: "deployment_opt \<Rightarrow> kube_driver \<Rightarrow> bool" where
  "made_with opt d \<longleftrightarrow>
     kd_min_replicas d = o_replicas opt \<and> d_name (kd_deployment d) = o_name opt \<and> cm_name (kd_config_map d) = o_name opt \<and>
     d_labels (kd_deployment d) = labels_of opt \<and>
     (\<exists>c more. d_containers (kd_deployment d) = [c] \<and> c_image c = o_image opt \<and> c_env c = o_env opt \<and>
        c_args c = o_flags opt @ more \<and> c_privileged c = (if o_rootless opt then None else Some True))"

lemma factory_New_made:
  assumes "factory_New fe cfg = Ok d" and "distinct (map fst (ic_driver_opts cfg))"
  shows "\<exists>ns. map_option kc_namespace (ic_kube cfg) = Some (Ok ns) \<and> made_with (final_opt fe (started cfg ns)) d \<and>
    kd_config d = kd_config (is_driver (started cfg ns)) \<and> kd_loadbalance d = kd_loadbalance (is_driver (started cfg ns)) \<and>
    kd_user_runtime d = kd_user_runtime (is_driver (started cfg ns)) \<and>
    kd_chooser d = pod_chooser_for cfg d"
proof -
  from assms obtain ns d' where d': "map_option kc_namespace (ic_kube cfg) = Some (Ok ns)"
    "finish_init fe (started cfg ns) = (None, d')" "d = d'\<lparr>kd_chooser := pod_chooser_for cfg d'\<rparr>"
    by (auto simp: factory_New_iff)
  note made = finish_init_made[OF d'(2)]
  then have "made_with (final_opt fe (started cfg ns)) d"
    using made_container[OF made[THEN conjunct1]] NewDeployment_Ok_sel[OF made[THEN conjunct1]] d'(3)
    by (simp add: made_with_def)
  moreover have "kd_chooser d = pod_chooser_for cfg d" using d'(3) by (simp add: pod_chooser_for_def)
  ultimately show ?thesis using made d' by auto
qed


section \<open>The driver of a build\<close>

definition proxies :: "(string \<rightharpoonup> string) \<Rightarrow> (string \<times> string) list" where
  "proxies lookup_env = List.map_filter (\<lambda>n. map_option (Pair n) (lookup_env n)) proxy_names"

lemma map_filter_map_option:
  "List.map_filter (\<lambda>n. map_option (g n) (m n)) ns = map (\<lambda>(n, v). g n v) (List.map_filter (\<lambda>n. map_option (Pair n) (m n)) ns)"
  by (induction ns) (auto simp: List.map_filter_simps split: option.splits)

lemma proxy_envs_text: "proxy_envs lookup_env = env_text (proxies lookup_env)"
  unfolding proxy_envs_def proxies_def env_text_def by (rule map_filter_map_option)

lemma set_map_filter_Pair: "(n, v) \<in> set (List.map_filter (\<lambda>n. map_option (Pair n) (m n)) ns) \<longleftrightarrow> n \<in> set ns \<and> m n = Some v"
  by (induction ns) (auto simp: List.map_filter_simps split: option.splits)

lemma distinct_map_filter_Pair: "distinct ns \<Longrightarrow> distinct (map fst (List.map_filter (\<lambda>n. map_option (Pair n) (m n)) ns))"
  by (induction ns) (auto simp: List.map_filter_simps set_map_filter_Pair split: option.splits)

lemma map_of_proxies: "map_of (rev (proxies lookup_env)) = lookup_env |` set proxy_names"
proof -
  have "distinct proxy_names" by (simp add: proxy_names_def)
  then have dist: "distinct (map fst (proxies lookup_env))" unfolding proxies_def by (rule distinct_map_filter_Pair)
  then have dist': "distinct (map fst (rev (proxies lookup_env)))" by (simp add: rev_map[symmetric])
  have "map_of (rev (proxies lookup_env)) n = (lookup_env |` set proxy_names) n" for n
  proof (cases "(lookup_env |` set proxy_names) n")
    case None
    then have "n \<notin> fst ` set (proxies lookup_env)"
      by (auto simp: proxies_def set_map_filter_Pair restrict_map_def split: if_splits)
    then show ?thesis using None by (simp add: map_of_eq_None_iff)
  next
    case (Some v)
    then have "(n, v) \<in> set (rev (proxies lookup_env))"
      by (simp add: proxies_def set_map_filter_Pair restrict_map_def split: if_splits)
    then show ?thesis using Some map_of_is_SomeI[OF dist'] by simp
  qed
  then show ?thesis ..
qed

definition build_config :: "'w cmd_env \<Rightarrow> kube_client_config option \<Rightarrow> string \<Rightarrow> string \<Rightarrow> init_config" where
  "build_config C kube hash name =
     \<lparr>ic_name = builder_or_default name, ic_kube = kube, ic_flags = [], ic_config_file = [],
      ic_driver_opts = [(''env'', join_with '';'' (proxy_envs (cx_lookup_env C)))], ic_context_path_hash = hash\<rparr>"

lemma build_driver_New: "build_driver C kube hash name = factory_New (cx_factory C) (build_config C kube hash name)"
  by (simp add: build_driver_def GetDriver_registered build_config_def)

lemma started_build:
  "final_opt fe (started (build_config C kube hash name) ns) =
     (default_opt (build_config C kube hash name))
       \<lparr>o_env := fe_visit fe (foldl add_env_item [] (split_on CHR '';'' (join_with '';'' (proxy_envs (cx_lookup_env C)))))\<rparr>"
  "kd_loadbalance (is_driver (started (build_config C kube hash name) ns)) = LoadbalanceSticky"
  "kd_config (is_driver (started (build_config C kube hash name) ns)) = build_config C kube hash name"
  by (simp_all add: started_def build_config_def configured_def Let_def new_driver_def final_opt_def default_opt_def
      resolve_runtime_def kube_const_defs)

text \<open>
  C13: The driver of a build. It needs nothing but access to the cluster. It waits for one
  replica of the default image under the builder's name (buildkit when none is given), as
  root for the docker runtime; its chooser is the sticky one, keyed by the path of the build
  context; and the environment of the container holds the proxy variables of the client's
  environment and nothing else, provided that no value has a semicolon.
\<close>

theorem build_driver_spec:
  assumes "\<forall>n \<in> set proxy_names. \<forall>v. cx_lookup_env C n = Some v \<longrightarrow> CHR '';'' \<notin> set v"
    and "\<And>kvs. mset (fe_visit (cx_factory C) kvs) = mset kvs"
  shows "((\<exists>d. build_driver C kube hash name = Ok d) \<longleftrightarrow> kube_reachable (cx_factory C) kube) \<and>
    (\<forall>d. build_driver C kube hash name = Ok d \<longrightarrow>
      kd_min_replicas d = 1 \<and> d_name (kd_deployment d) = (if name = [] then ''buildkit'' else name) \<and>
      kd_chooser d = Some (StickyChooser hash (kd_deployment d)) \<and>
      d_labels (kd_deployment d) ''runtime'' = Some ''docker'' \<and>
      (\<exists>c. d_containers (kd_deployment d) = [c] \<and> c_image c = DefaultImage \<and> c_privileged c = Some True \<and>
         map_of (c_env c) = cx_lookup_env C |` set proxy_names))"
proof -
  let ?cfg = "build_config C kube hash name"
  have dist: "distinct (map fst (ic_driver_opts ?cfg))" by (simp add: build_config_def)
  have allowed: "final_allowed (cx_factory C) (started ?cfg ns) \<longleftrightarrow> True" for ns
    unfolding final_allowed_def started_build by (simp add: default_opt_def build_config_def)
  have ok: "(\<exists>d. build_driver C kube hash name = Ok d) \<longleftrightarrow> kube_reachable (cx_factory C) kube"
    using factory_New_accepts[OF dist allowed]
    by (simp add: build_driver_New) (simp add: build_config_def option_valid_def)
  {
    fix d
    assume "build_driver C kube hash name = Ok d"
    from factory_New_made[OF this[unfolded build_driver_New] dist] obtain ns where
    made: "made_with (final_opt (cx_factory C) (started ?cfg ns)) d" and lb: "kd_loadbalance d = LoadbalanceSticky"
    and ch: "kd_chooser d = pod_chooser_for ?cfg d"
    unfolding started_build by auto
  have "map_of (fe_visit (cx_factory C) (foldl add_env_item [] (split_on CHR '';'' (join_with '';'' (proxy_envs (cx_lookup_env C)))))) =
      cx_lookup_env C |` set proxy_names"
    unfolding proxy_envs_text map_of_proxies[symmetric]
  proof (rule env_items_joined)
    show "CHR ''='' \<notin> set k \<and> CHR '';'' \<notin> set k \<and> CHR '';'' \<notin> set v" if "(k, v) \<in> set (proxies (cx_lookup_env C))" for k v
    proof -
      have "k \<in> set proxy_names" "cx_lookup_env C k = Some v"
        using that by (simp_all add: proxies_def set_map_filter_Pair)
      then show ?thesis using assms(1) by (auto simp: proxy_names_def)
    qed
  qed (rule assms(2))
  then have "kd_min_replicas d = 1 \<and> d_name (kd_deployment d) = (if name = [] then ''buildkit'' else name) \<and>
      kd_chooser d = Some (StickyChooser hash (kd_deployment d)) \<and>
      d_labels (kd_deployment d) ''runtime'' = Some ''docker'' \<and>
      (\<exists>c. d_containers (kd_deployment d) = [c] \<and> c_image c = DefaultImage \<and> c_privileged c = Some True \<and>
         map_of (c_env c) = cx_lookup_env C |` set proxy_names)"
    using made ch lb unfolding made_with_def started_build
    by (auto simp: default_opt_def build_config_def labels_of_def pod_chooser_for_def builder_or_default_def
        buildxNameToDeploymentName_def DefaultContainerRuntime_def)
  }
  with ok show ?thesis by blast
qed

section \<open>rm\<close>

definition bare_config :: "kube_client_config option \<Rightarrow> string \<Rightarrow> init_config" where
  "bare_config kube name =
     \<lparr>ic_name = name, ic_kube = kube, ic_flags = [], ic_config_file = [], ic_driver_opts = [], ic_context_path_hash = []\<rparr>"

lemma factory_driver_New:
  "factory_driver C kube name (kubernetes_factory (cx_factory C)) = factory_New (cx_factory C) (bare_config kube name)"
  by (simp add: factory_driver_def GetDriver_registered bare_config_def)

lemma factory_driver_Ok:
  assumes "kube_reachable (cx_factory C) kube"
  shows "\<exists>d. factory_driver C kube name (kubernetes_factory (cx_factory C)) = Ok d \<and>
    d_name (kd_deployment d) = buildxNameToDeploymentName name \<and> cm_name (kd_config_map d) = buildxNameToDeploymentName name"
proof -
  have dist: "distinct (map fst (ic_driver_opts (bare_config kube name)))" by (simp add: bare_config_def)
  have st: "started (bare_config kube name) ns =
      \<lparr>is_driver = new_driver (bare_config kube name) ns, is_opt = default_opt (bare_config kube name), is_image = []\<rparr>" for ns
    by (simp add: started_def bare_config_def)
  have allowed: "final_allowed (cx_factory C) (started (bare_config kube name) ns) \<longleftrightarrow> True" for ns
    unfolding st by (simp add: final_allowed_def final_opt_def resolve_runtime_sel Let_def default_opt_def new_driver_def bare_config_def)
  obtain d where d: "factory_New (cx_factory C) (bare_config kube name) = Ok d"
    using factory_New_accepts[OF dist allowed] assms by (auto simp: bare_config_def)
  have name: "o_name (final_opt fe (started (bare_config kube name) ns)) = buildxNameToDeploymentName name" for fe ns
    unfolding st by (simp add: final_opt_def resolve_runtime_sel Let_def default_opt_def bare_config_def)
  from factory_New_made[OF d dist] show ?thesis
    unfolding factory_driver_New using d name by (auto simp: made_with_def)
qed

text \<open>The names of the builders in the cluster: a deletion that succeeds takes one away, one that
  fails changes nothing, and reading changes nothing.\<close>

definition builder_store :: "('w \<Rightarrow> string set) \<Rightarrow> 'w kube \<Rightarrow> bool" where
  "builder_store store K \<longleftrightarrow>
     (\<forall>n w. store (snd (k_depl_delete K n w)) = (if fst (k_depl_delete K n w) = None then store w - {n} else store w)) \<and>
     (\<forall>n w. store (snd (k_cm_delete K n w)) = store w) \<and> (\<forall>s w. store (snd (k_pod_list K s w)) = store w) \<and>
     (\<forall>w. store (snd (k_depl_list K w)) = store w) \<and> (\<forall>w. [] \<notin> store w) \<and>
     (\<forall>w items w'. k_depl_list K w = (Ok items, w') \<longrightarrow> d_name ` {x \<in> set items. d_annotations x AnnotationKey \<noteq> None} = store w)"

lemma list_builders_keeps:
  assumes "builder_store store K"
  shows "store (snd (list_builders K items w)) = store w"
proof -
  have run: "store (snd (list_running K depl w)) = store w" for depl w
    using assms
    by (cases "k_selector K ''app'' (if d_name depl = [] then ''buildkit'' else d_name depl)")
      (simp_all add: list_running_def builder_store_def Let_def split_beta)
  show ?thesis
  proof (induction items arbitrary: w)
    case Nil
    then show ?case by simp
  next
    case (Cons x xs)
    obtain r w1 where 1: "list_running K x w = (r, w1)" by fastforce
    have "store w1 = store w" using run[of x w] 1 by simp
    then show ?case
      using Cons.IH[of w] Cons.IH[of w1] 1 by (cases r; cases "list_builders K xs w1") (auto simp: Let_def)
  qed
qed

lemma list_builders_names:
  "list_builders K items w = (Ok bs, w') \<Longrightarrow> map b_name bs = map d_name (filter (\<lambda>x. d_annotations x AnnotationKey \<noteq> None) items)"
  by (induction items arbitrary: bs w w') (auto simp: Let_def and_then_Inr_iff split: if_splits sum.splits prod.splits)

lemma List_store:
  assumes "builder_store store K" and "List K w = (r, w')"
  shows "store w' = store w" and "r = Ok bs \<Longrightarrow> b_name ` set bs = store w"
proof -
  obtain x w1 where 1: "k_depl_list K w = (x, w1)" by fastforce
  then have w1: "store w1 = store w" using assms(1) unfolding builder_store_def by (metis snd_conv)
  show "store w' = store w"
    using assms(2) 1 w1 list_builders_keeps[OF assms(1), of "projr x" w1] by (cases x) (auto simp: List_def)
  show "b_name ` set bs = store w" if r: "r = Ok bs"
  proof -
    obtain items where items: "x = Ok items" "list_builders K items w1 = (Ok bs, w')"
      using assms(2) 1 r by (cases x) (auto simp: List_def)
    have "b_name ` set bs = d_name ` set (filter (\<lambda>x. d_annotations x AnnotationKey \<noteq> None) items)"
      using list_builders_names[OF items(2)] by (metis list.set_map)
    also have "\<dots> = store w" using assms(1) 1 items(1) unfolding builder_store_def by simp
    finally show ?thesis .
  qed
qed

text \<open>A call that takes \<open>A\<close> away when it succeeds, and only some of it when it fails.\<close>

definition shrinks :: "('w \<Rightarrow> string set) \<Rightarrow> string set \<Rightarrow> ('a, 'w) io \<Rightarrow> bool" where
  "shrinks store A m \<longleftrightarrow>
     (\<forall>w. store w - A \<subseteq> store (snd (m w)) \<and> store (snd (m w)) \<subseteq> store w \<and>
       (\<forall>u. fst (m w) = Ok u \<longrightarrow> store (snd (m w)) = store w - A))"

lemma shrinks_bind:
  assumes "shrinks store A m" and "\<And>x. shrinks store B (f x)"
  shows "shrinks store (A \<union> B) (io_bind m f)"
  unfolding shrinks_def
proof
  fix w
  obtain r w1 where 1: "m w = (r, w1)" by fastforce
  have m: "store w - A \<subseteq> store w1" "store w1 \<subseteq> store w" "\<And>u. r = Ok u \<Longrightarrow> store w1 = store w - A"
    using assms(1) 1 unfolding shrinks_def by (metis fst_conv snd_conv)+
  show "store w - (A \<union> B) \<subseteq> store (snd (io_bind m f w)) \<and> store (snd (io_bind m f w)) \<subseteq> store w \<and>
      (\<forall>u. fst (io_bind m f w) = Ok u \<longrightarrow> store (snd (io_bind m f w)) = store w - (A \<union> B))"
  proof (cases r)
    case (Inl e)
    then show ?thesis using m 1 by (auto simp: io_bind_def)
  next
    case (Inr x)
    have run: "io_bind m f w = f x w1" using 1 Inr by (simp add: io_bind_def)
    have "store w1 - B \<subseteq> store (snd (f x w1)) \<and> store (snd (f x w1)) \<subseteq> store w1 \<and>
        (\<forall>u. fst (f x w1) = Ok u \<longrightarrow> store (snd (f x w1)) = store w1 - B)"
      using assms(2)[of x] unfolding shrinks_def by blast
    then show ?thesis unfolding run using m(3)[OF Inr] by blast
  qed
qed

lemma shrinks_ok: "shrinks store {} (io_ok x)"
  by (simp add: shrinks_def io_ok_def)

lemma shrinks_map: "(\<And>x. x \<in> set xs \<Longrightarrow> shrinks store (A x) (f x)) \<Longrightarrow> shrinks store (\<Union>x \<in> set xs. A x) (io_map f xs)"
proof (induction xs)
  case Nil
  then show ?case by (simp add: shrinks_ok)
next
  case (Cons x xs)
  have "shrinks store (A x \<union> ((\<Union>x \<in> set xs. A x) \<union> {})) (io_map f (x # xs))"
    unfolding io_map.simps by (intro shrinks_bind shrinks_ok) (use Cons in auto)
  then show ?case by simp
qed

lemma remove_builder_shrinks:
  assumes "builder_store store (cx_kube C)" and "kube_reachable (cx_factory C) kube" and "name \<noteq> []"
  shows "shrinks store {name} (remove_builder C kube (kubernetes_factory (cx_factory C)) name)"
  unfolding shrinks_def
proof
  fix w
  have "buildxNameToDeploymentName name = name" using assms(3) by (simp add: buildxNameToDeploymentName_def)
  with factory_driver_Ok[OF assms(2), of name] obtain d where
    d: "factory_driver C kube name (kubernetes_factory (cx_factory C)) = Ok d"
    "d_name (kd_deployment d) = name" "cm_name (kd_config_map d) = name" by auto
  let ?K = "cx_kube C"
  obtain x w1 where 1: "k_depl_delete ?K name w = (x, w1)" by fastforce
  obtain y w2 where 2: "k_cm_delete ?K name w1 = (y, w2)" by fastforce
  have s1: "store w1 = (if x = None then store w - {name} else store w)" and s2: "store w2 = store w1"
    using assms(1) 1 2 unfolding builder_store_def by (metis fst_conv snd_conv)+
  have run: "remove_builder C kube (kubernetes_factory (cx_factory C)) name w = io_act (Rm ?K d False) w"
    by (simp add: remove_builder_def io_bind_def io_lift_def d(1))
  show "store w - {name} \<subseteq> store (snd (remove_builder C kube (kubernetes_factory (cx_factory C)) name w)) \<and>
      store (snd (remove_builder C kube (kubernetes_factory (cx_factory C)) name w)) \<subseteq> store w \<and>
      (\<forall>u. fst (remove_builder C kube (kubernetes_factory (cx_factory C)) name w) = Ok u \<longrightarrow>
        store (snd (remove_builder C kube (kubernetes_factory (cx_factory C)) name w)) = store w - {name})"
    unfolding run io_act_def Rm_def d(2,3) by (cases x; cases y) (use 1 2 s1 s2 in auto)
qed

text \<open>
  C16: rm deletes exactly the builders that it is asked for. When it succeeds, the builders in
  the cluster are those that were there less the named ones; names that no builder has are
  passed over. When it fails, on the way, no other builder has been deleted.
\<close>

theorem runRm_deletes:
  assumes "builder_store store (cx_kube C)" and "kube_reachable (cx_factory C) kube" and "runRm C kube names w = (r, w')"
  shows "store w - set names \<subseteq> store w' \<and> store w' \<subseteq> store w \<and> (\<forall>u. r = Ok u \<longrightarrow> store w' = store w - set names)"
proof -
  let ?f = "kubernetes_factory (cx_factory C)"
  from factory_driver_Ok[OF assms(2)] obtain d where d: "factory_driver C kube DriverName ?f = Ok d" by blast
  obtain l w1 where l: "List (cx_kube C) w = (l, w1)" by fastforce
  note w1 = List_store[OF assms(1) l]
  show ?thesis
  proof (cases l)
    case (Inl e)
    then have "w' = w1" "r = Err e"
      using assms(3) l by (simp_all add: runRm_def registered_Kubernetes GetFactories_def io_bind_def io_lift_def d)
    then show ?thesis using w1(1) by simp
  next
    case (Inr bs)
    have "b_name ` set bs = store w" by (rule w1(2)[OF Inr])
    then have ne: "b_name b \<noteq> []" if "b \<in> set bs" for b
      using that assms(1) unfolding builder_store_def by (metis image_eqI)
    have "shrinks store (\<Union>n \<in> set (filter (\<lambda>n. b_name b = n) names). {n}) (remove_named C kube ?f names b)" if "b \<in> set bs" for b
      unfolding remove_named_def
      by (rule shrinks_map) (use ne[OF that] in \<open>auto intro: remove_builder_shrinks[OF assms(1,2)]\<close>)
    then have "shrinks store (\<Union>b \<in> set bs. \<Union>n \<in> set (filter (\<lambda>n. b_name b = n) names). {n}) (io_map (remove_named C kube ?f names) bs)"
      by (rule shrinks_map)
    moreover have "(\<Union>b \<in> set bs. \<Union>n \<in> set (filter (\<lambda>n. b_name b = n) names). {n}) = store w \<inter> set names"
      unfolding \<open>b_name ` set bs = store w\<close>[symmetric] by auto
    ultimately have "shrinks store (store w \<inter> set names) (io_map (remove_named C kube ?f names) bs)" by simp
    moreover obtain q w2 where q: "io_map (remove_named C kube ?f names) bs w1 = (q, w2)" by fastforce
    ultimately have "store w1 - (store w \<inter> set names) \<subseteq> store w2 \<and> store w2 \<subseteq> store w1 \<and>
        (\<forall>u. q = Ok u \<longrightarrow> store w2 = store w1 - (store w \<inter> set names))"
      unfolding shrinks_def by (metis fst_conv snd_conv)
    moreover have "w' = w2" "(\<exists>u. r = Ok u) \<longleftrightarrow> (\<exists>us. q = Ok us)"
      using assms(3) l q Inr
      by (cases q; force simp: runRm_def registered_Kubernetes GetFactories_def io_bind_def io_lift_def d io_ok_def)+
    ultimately show ?thesis using w1(1) by auto
  qed
qed

section \<open>The exports of a build\<close>

lemma ParseOutputs_empty_iff: "ParseOutputs ss m = (Ok outs, m') \<Longrightarrow> outs = [] \<longleftrightarrow> ss = []"
  by (cases ss) (auto split: prod.splits sum.splits)

lemma target_options_Ok:
  assumes "target_options C ins m = (Ok opts, m')"
  obtains outs outs1 where "ParseOutputs (bo_outputs ins) m = (Ok outs, m')"
    "push_exports (bo_push ins) (bo_load ins) outs = Ok outs1" "load_exports (bo_load ins) outs1 = Ok (op_exports opts)"
proof -
  from assms obtain sess where "ParseOutputs (bo_outputs ins) m = (fst (ParseOutputs (bo_outputs ins) m), m')"
    by (cases "ParseOutputs (bo_outputs ins) m") (auto simp: target_options_def Let_def split: sum.splits)
  moreover obtain outs where "fst (ParseOutputs (bo_outputs ins) m) = Ok outs"
    using assms by (cases "ParseOutputs (bo_outputs ins) m") (auto simp: target_options_def Let_def split: sum.splits)
  ultimately have p: "ParseOutputs (bo_outputs ins) m = (Ok outs, m')" by simp
  show thesis
    using assms p that by (auto simp: target_options_def Let_def and_then_Inr_iff split: sum.splits)
qed

text \<open>
  What a build exports, by its flags. Without outputs and without push it loads the image
  into the runtime of the cluster, with push it pushes an image; with push and outputs, the
  first output must be an image and is pushed; otherwise the outputs are those given. A build
  always has an output, and push and load never meet.
\<close>

theorem build_exports:
  assumes "target_options C (build_RunE arg root ins) m = (Ok opts, m')" and "\<not> bo_load ins"
  shows "\<exists>outs. ParseOutputs (bo_outputs ins) m = (Ok outs, m') \<and> op_exports opts \<noteq> [] \<and>
    op_exports opts =
      (if bo_push ins then
         (case outs of
            [] \<Rightarrow> [new_export ''image'' [''push'' \<mapsto> ''true'']]
          | e # es \<Rightarrow> e\<lparr>ee_attrs := (ee_attrs e)(''push'' \<mapsto> ''true'')\<rparr> # es)
       else if outs = [] then [new_export ''runtime'' Map.empty] else outs) \<and>
    (bo_push ins \<longrightarrow> ee_type (hd (op_exports opts)) = ''image'')"
proof -
  let ?ins = "build_RunE arg root ins"
  have sel: "bo_outputs ?ins = bo_outputs ins" "bo_push ?ins = bo_push ins"
    "bo_load ?ins \<longleftrightarrow> bo_outputs ins = [] \<and> \<not> bo_push ins"
    using assms(2) by (auto simp: build_RunE_def Let_def)
  from assms(1) obtain outs outs1 where o: "ParseOutputs (bo_outputs ?ins) m = (Ok outs, m')"
    "push_exports (bo_push ?ins) (bo_load ?ins) outs = Ok outs1" "load_exports (bo_load ?ins) outs1 = Ok (op_exports opts)"
    by (rule target_options_Ok)
  have empty: "outs = [] \<longleftrightarrow> bo_outputs ins = []" using ParseOutputs_empty_iff[OF o(1)] sel by simp
  have new: "ee_type (new_export t a) = t" for t a by (simp add: new_export_def)
  have ex: "op_exports opts =
      (if bo_push ins then
         (case outs of
            [] \<Rightarrow> [new_export ''image'' [''push'' \<mapsto> ''true'']]
          | e # es \<Rightarrow> e\<lparr>ee_attrs := (ee_attrs e)(''push'' \<mapsto> ''true'')\<rparr> # es)
       else if outs = [] then [new_export ''runtime'' Map.empty] else outs)"
    and image: "bo_push ins \<Longrightarrow> outs = e # es \<Longrightarrow> ee_type e = ''image''" for e es
    using o empty unfolding sel by (cases outs; auto simp: push_exports_def load_exports_def split: if_splits)+
  show ?thesis
    using o(1) image new unfolding sel by (intro exI[of _ outs]) (cases outs; simp add: ex)
qed


section \<open>Key and value flags\<close>

text \<open>What one argument says about a key.\<close>

definition entry_value :: "(string \<rightharpoonup> string) \<Rightarrow> bool \<Rightarrow> string \<Rightarrow> string \<Rightarrow> string option" where
  "entry_value lookup_env defaultEnv k arg =
     (if CHR ''='' \<in> set arg then
        (if takeWhile (\<lambda>c. c \<noteq> CHR ''='') arg = k then Some (tl (dropWhile (\<lambda>c. c \<noteq> CHR ''='') arg)) else None)
      else if arg \<noteq> k then None
      else if defaultEnv then lookup_env k else Some [])"

lemma list_entry_lookup:
  "map_of (list_entry lookup_env defaultEnv m arg) k =
     (case entry_value lookup_env defaultEnv k arg of None \<Rightarrow> map_of m k | Some v \<Rightarrow> Some v)"
proof (cases rule: splitn2_cases[of "CHR ''=''" arg])
  case one
  then have e: "entry_value lookup_env defaultEnv k arg = (if arg \<noteq> k then None else if defaultEnv then lookup_env k else Some [])"
    by (simp add: entry_value_def)
  show ?thesis
    unfolding e using one(1) by (cases "lookup_env arg"; cases "arg = k"; cases defaultEnv) (simp_all add: list_entry_def update_conv')
next
  case (two k' v)
  have cut: "takeWhile (\<lambda>c. c \<noteq> x) (ys @ x # zs) = ys" "dropWhile (\<lambda>c. c \<noteq> x) (ys @ x # zs) = x # zs"
    if "x \<notin> set ys" for x :: char and ys zs
    using that by (induction ys) auto
  have "entry_value lookup_env defaultEnv k arg = (if k' = k then Some v else None)"
    using cut[OF two(3)] by (cases "k' = k") (simp_all add: entry_value_def two(2))
  then show ?thesis using two(1) by (simp add: list_entry_def update_conv')
qed

lemma list_entry_distinct: "distinct (map fst m) \<Longrightarrow> distinct (map fst (list_entry lookup_env defaultEnv m arg))"
  by (auto simp: list_entry_def distinct_update split: list.splits option.splits)

text \<open>
  A label or a build argument has the value of the last flag that says something about its
  key. A flag without an equals sign gives a label the empty value, and a build argument the
  value of the environment variable; when that is not set, the flag says nothing, and an
  earlier value stays.
\<close>

lemma listToMap_spec:
  "map_of (listToMap lookup_env flags defaultEnv) k =
     (case List.map_filter (entry_value lookup_env defaultEnv k) flags of [] \<Rightarrow> None | vs \<Rightarrow> Some (last vs)) \<and>
   distinct (map fst (listToMap lookup_env flags defaultEnv))"
proof (induction flags rule: rev_induct)
  case Nil
  then show ?case by (simp add: listToMap_def List.map_filter_simps)
next
  case (snoc v vs)
  let ?f = "entry_value lookup_env defaultEnv k"
  have f: "List.map_filter ?f (vs @ [v]) = List.map_filter ?f vs @ (case ?f v of None \<Rightarrow> [] | Some x \<Rightarrow> [x])"
    by (simp add: List.map_filter_def split: option.splits)
  have snoc_eq: "listToMap lookup_env (vs @ [v]) defaultEnv = list_entry lookup_env defaultEnv (listToMap lookup_env vs defaultEnv) v"
    by (simp add: listToMap_def)
  have "map_of (listToMap lookup_env (vs @ [v]) defaultEnv) k =
      (case List.map_filter ?f (vs @ [v]) of [] \<Rightarrow> None | vs \<Rightarrow> Some (last vs))"
    unfolding snoc_eq list_entry_lookup f snoc.IH[THEN conjunct1] by (auto split: option.splits list.splits dest: arg_cong[where f = last])
  moreover have "distinct (map fst (listToMap lookup_env (vs @ [v]) defaultEnv))"
    unfolding snoc_eq by (rule list_entry_distinct) (rule snoc.IH[THEN conjunct2])
  ultimately show ?case by blast
qed

section \<open>An example\<close>

text \<open>A cluster whose state is the list of the names of its builders.\<close>

definition store_kube :: "string list kube" where
  "store_kube =
     \<lparr>k_sys = still_sys, k_selector = (\<lambda>k v. Ok (k @ ''='' @ v)), k_field_selector = (\<lambda>n ns k u. n), k_client_config = Ok (),
      k_depl_get = (\<lambda>n w. (Err (NotFound n), w)), k_depl_create = (\<lambda>d w. (Ok d, d_name d # w)), k_depl_update = (\<lambda>d w. (Ok d, w)),
      k_depl_delete = (\<lambda>n w. if n \<in> set w then (None, removeAll n w) else (Some (NotFound n), w)),
      k_depl_list = (\<lambda>w. (Ok (map (\<lambda>n. no_deployment\<lparr>d_name := n, d_annotations := [AnnotationKey \<mapsto> []]\<rparr>) (filter (\<lambda>n. n \<noteq> []) w)), w)),
      k_rs_list = (\<lambda>s w. (Ok [], w)), k_rs_delete = (\<lambda>n w. (None, w)), k_pod_list = (\<lambda>s w. (Ok [], w)), k_pod_delete = (\<lambda>n w. (None, w)),
      k_event_list = (\<lambda>s w. (Ok [], w)), k_cm_get = (\<lambda>n w. (Err (NotFound n), w)), k_cm_create = (\<lambda>cm w. (Ok cm, w)),
      k_cm_update = (\<lambda>cm w. (Ok cm, w)), k_cm_delete = (\<lambda>n w. (None, w)), k_secret_get = (\<lambda>n w. (Err (NotFound n), w)),
      k_executor = (\<lambda>x. Ok ()), k_stream = (\<lambda>x w. ((None, []), w))\<rparr>"

lemma store_kube_store: "builder_store (\<lambda>w. set w - {[]}) store_kube"
proof -
  let ?depl = "\<lambda>n. no_deployment\<lparr>d_name := n, d_annotations := [AnnotationKey \<mapsto> []]\<rparr>"
  have "{x \<in> set (map ?depl ns). d_annotations x AnnotationKey \<noteq> None} = ?depl ` set ns" for ns by auto
  then have "d_name ` {x \<in> set (map ?depl ns). d_annotations x AnnotationKey \<noteq> None} = set ns" for ns by (simp add: image_image)
  then show ?thesis by (auto simp del: set_map list.set_map simp: builder_store_def store_kube_def)
qed

definition command_fs :: "(kube_driver \<times> string list) fs" where
  "command_fs =
     \<lparr>fs_is_dir = (\<lambda>p w. p = ''.''), fs_remove = (\<lambda>p w. (None, w)), fs_temp_dir = (\<lambda>p. io_ok (CHR ''/'' # p)),
      fs_create = (\<lambda>p w. (None, w)), fs_copy_stdin = (\<lambda>p w. (None, w)), fs_remove_all = (\<lambda>p w. w),
      fs_write_file = (\<lambda>p c w. (None, w)), fs_peek = (\<lambda>k w. ((''FROM scratch'', Some io_EOF), w)),
      fs_is_tar = (\<lambda>s. False), fs_upload = (\<lambda>w. (''http://upload'', w)),
      fs_is_git_url = (\<lambda>s. False), fs_is_url = (\<lambda>s. has_prefix s ''https://'')\<rparr>"

definition command_loader :: "(kube_driver \<times> string list) loader_env" where
  "command_loader =
     \<lparr>le_sys = dr_sys still_sys, le_send = (\<lambda>st w. w), le_docker_client = (\<lambda>pod w. (None, w)), le_containerd_client = (\<lambda>pod w. (None, w)),
      le_feed = (\<lambda>runtime conn data dt. Taken), le_image_load = (\<lambda>conn data. io_err (External ''load'')),
      le_import = (\<lambda>conn data. io_ok []), le_unpack = (\<lambda>conn img w. (None, w))\<rparr>"

definition command_build :: "(kube_driver \<times> string list) build_env" where
  "command_build =
     \<lparr>be_sys = dr_sys still_sys, be_send = (\<lambda>st w. w), be_close_status = (\<lambda>w. w), be_display = (\<lambda>w. None), be_fs = command_fs,
      be_resolve = \<lparr>re_visit_pairs = id, re_visit_clients = id, re_lag = (\<lambda>_. 0), re_list_workers = (\<lambda>c. io_ok []), re_host = linux_host\<rparr>,
      be_loader = command_loader, be_close_loader = (\<lambda>r p w. w), be_parse_ref = Ok, be_repo_name = Ok, be_visit_names = id,
      be_codec = example_codec,
      be_registry = (\<lambda>cf. \<lparr>rv_resolve = (\<lambda>s. io_err (External ''401'')), rv_fetcher = (\<lambda>s. io_err (External ''401'')),
        rv_fetch = (\<lambda>s d. io_err (External ''401'')), rv_read = io_ok, rv_pusher = (\<lambda>s. io_err (External ''401'')),
        rv_push = (\<lambda>s d. io_err (External ''401'')), rv_copy = (\<lambda>s dt n dg w. (None, w)), rv_already_exists = (\<lambda>e. False)\<rparr>),
      be_auth_config = (\<lambda>name host. Err io_EOF), be_solve = (\<lambda>b c so ex w. ((Ok [digest_key \<mapsto> x_pod c], []), w)),
      be_visit_targets = id, be_schedule = solves_first\<rparr>"

definition example_cmd :: "string list cmd_env" where
  "example_cmd =
     \<lparr>cx_factory = example_env, cx_kube = store_kube, cx_chooser = \<lparr>ce_md5 = (\<lambda>_. [1, 2, 3, 4]), ce_index_first = True, ce_random = length\<rparr>,
      cx_build = command_build, cx_lookup_env = [''http_proxy'' \<mapsto> ''http://proxy:3128'', ''HOME'' \<mapsto> ''/root''],
      cx_abs = (\<lambda>p. Ok (''/src/'' @ p)), cx_host = linux_host, cx_new_store = (\<lambda>s. Ok (SecretsProvider s)),
      cx_new_agents = (\<lambda>s. Ok (SSHProvider s)), cx_shlex = (\<lambda>s. Ok [s])\<rparr>"

lemma example_cmd_sel:
  "cx_factory example_cmd = example_env" "cx_kube example_cmd = store_kube"
  "cx_lookup_env example_cmd = [''http_proxy'' \<mapsto> ''http://proxy:3128'', ''HOME'' \<mapsto> ''/root'']" "cx_host example_cmd = linux_host"
  by (simp_all add: example_cmd_def)

definition example_kube_config :: kube_client_config where
  "example_kube_config = \<lparr>kc_namespace = Ok ''default'', kc_client_config = Ok ()\<rparr>"

lemma example_reachable: "kube_reachable (cx_factory example_cmd) (Some example_kube_config)"
  by (simp add: kube_reachable_def example_cmd_sel example_env_def example_kube_config_def)

lemma example_visit: "mset (fe_visit (cx_factory example_cmd) kvs) = mset kvs"
  by (simp add: example_cmd_sel example_env_def)

theorem runRm_deletes_witness:
  "\<exists>r w'. runRm example_cmd (Some example_kube_config) [''ci'', ''gone''] [''ci'', ''dev''] = (r, w') \<and>
     set w' - {[]} \<supseteq> {''dev''} \<and> (\<forall>u. r = Ok u \<longrightarrow> set w' - {[]} = {''dev''})"
proof -
  obtain r w' where run: "runRm example_cmd (Some example_kube_config) [''ci'', ''gone''] [''ci'', ''dev''] = (r, w')" by fastforce
  have "builder_store (\<lambda>w. set w - {[]}) (cx_kube example_cmd)" by (simp add: example_cmd_sel store_kube_store)
  from runRm_deletes[OF this example_reachable run] run show ?thesis by auto
qed

text \<open>The defaults of create, with a proxy.\<close>

definition example_create :: create_options where
  "example_create = default_create_options\<lparr>co_name := ''ci'', co_envs := env_text [(''http_proxy'', ''http://a=b''), (''http_proxy'', ''http://c'')]\<rparr>"


lemma example_created: "\<exists>r. create_driver example_cmd (Some example_kube_config) example_create = Ok r"
proof -
  have ins: "- (2 ^ 63) \<le> co_replicas example_create" "co_replicas example_create < 2 ^ 63" "\<not> co_rootless example_create"
    "co_config_file example_create = []" "co_loadbalance example_create = ''random''" "co_worker example_create = ''auto''"
    "co_runtime example_create = ''auto''" "co_flags example_create = []" "co_name example_create = ''ci''"
    by (simp_all add: example_create_def default_create_options_def)
  let ?cfg = "create_config (Some example_kube_config) example_create []"
  have dist: "distinct (map fst (ic_driver_opts ?cfg))" by (simp only: create_config_sel distinct_create_opts)
  have "final_allowed (cx_factory example_cmd) (started ?cfg ns) \<longleftrightarrow> True" for ns
    unfolding started_create[OF ins(1,2)] final_allowed_def final_create create_state_config create_config_sel by (simp add: ins)
  note accepts = factory_New_accepts[OF dist this]
  have "\<exists>d. factory_New (cx_factory example_cmd) ?cfg = Ok d"
    unfolding accepts create_config_sel create_opts_valid[OF ins(1,2)] using example_reachable by (simp add: ins)
  then show ?thesis using ins by (auto simp: create_driver_Ok)
qed


theorem build_driver_spec_witness:
  "\<exists>d c. build_driver example_cmd (Some example_kube_config) ''/src'' [] = Ok d \<and> kd_min_replicas d = 1 \<and>
     d_containers (kd_deployment d) = [c] \<and> map_of (c_env c) ''http_proxy'' = Some ''http://proxy:3128'' \<and>
     map_of (c_env c) ''HOME'' = None"
proof -
  have env: "\<forall>n \<in> set proxy_names. \<forall>v. cx_lookup_env example_cmd n = Some v \<longrightarrow> CHR '';'' \<notin> set v"
    by (auto simp: example_cmd_sel proxy_names_def)
  note spec = build_driver_spec[where C = example_cmd and kube = "Some example_kube_config" and hash = "''/src''" and name = "[]", OF env example_visit]
  from spec example_reachable obtain d where d: "build_driver example_cmd (Some example_kube_config) ''/src'' [] = Ok d" by blast
  with spec obtain c where "kd_min_replicas d = 1" "d_containers (kd_deployment d) = [c]"
    "map_of (c_env c) = cx_lookup_env example_cmd |` set proxy_names" by blast
  then show ?thesis using d by (auto simp: example_cmd_sel proxy_names_def)
qed

definition example_build_options :: build_options where
  "example_build_options = (default_build_options (cx_lookup_env example_cmd))\<lparr>bo_tags := [''img'']\<rparr>"

definition example_machine :: machine where
  "example_machine = \<lparr>stdout_console = True, stat_of = (\<lambda>_. NotExist), create_error = (\<lambda>_. None)\<rparr>"

lemma example_target_options:
  "\<exists>opts. target_options example_cmd (build_RunE ''.'' [] (example_build_options\<lparr>bo_push := b\<rparr>)) example_machine = (Ok opts, example_machine) \<and>
     op_exports opts = [if b then new_export ''image'' [''push'' \<mapsto> ''true''] else new_export ''runtime'' Map.empty]"
  by (cases b)
    (simp_all add: target_options_def build_RunE_def example_build_options_def default_build_options_def commonBuildFlags_def
      build_flags_def platforms_default_def example_cmd_def lookup_str_def Let_def Parse.simps ParseSecretSpecs_def ParseSSHSpecs_def
      push_exports_def load_exports_def ParseCacheEntry_def ParseEntitlements_def)

theorem build_exports_example:
  "\<exists>opts. target_options example_cmd (build_RunE ''.'' [] (example_build_options\<lparr>bo_push := True\<rparr>)) example_machine = (Ok opts, example_machine) \<and>
     op_exports opts = [new_export ''image'' [''push'' \<mapsto> ''true'']] \<and> ee_type (hd (op_exports opts)) = ''image''"
proof -
  obtain opts where o: "target_options example_cmd (build_RunE ''.'' [] (example_build_options\<lparr>bo_push := True\<rparr>)) example_machine = (Ok opts, example_machine)"
    "op_exports opts = [new_export ''image'' [''push'' \<mapsto> ''true'']]"
    using example_target_options[of True] by auto
  have "\<not> bo_load (example_build_options\<lparr>bo_push := True\<rparr>)"
    by (simp add: example_build_options_def default_build_options_def commonBuildFlags_def build_flags_def)
  from build_exports[OF o(1) this] o show ?thesis by auto
qed

text \<open>A builder with a docker runtime and one pod.\<close>

definition docker_driver :: "string list driver" where
  "docker_driver = image_driver
     \<lparr>dr_Features := \<lambda>w. ([DockerExporter \<mapsto> True, OCIExporter \<mapsto> True], w),
      dr_List := \<lambda>w. (Ok [\<lparr>b_name = ''buildkit'', b_driver = DriverName,
        b_nodes = [\<lparr>bn_name = ''pod'', bn_status = [], bn_platforms = []\<rparr>]\<rparr>], w)\<rparr>"

lemma docker_toSolveOpt:
  "\<exists>so exports rel w'. toSolveOpt example_fs (\<lambda>r p w. w) Ok docker_driver False example_options
     (loader_callback example_loader docker_driver ''buildkit'') [] = (Ok (so, exports, rel), w')"
  by (simp add: toSolveOpt_def prepare_exports_def remove_image_id_def cache_to_of_def check_one_export_def docker_driver_def
      name_exports_def runtime_export_def has_feature_def parse_tag_def named_export_def set_exporter_def
      multi_node_def pushing_def new_export_def finish_solve_def platform_attr_def network_mode_def
      loader_callback_def newDockerLoader_def builder_pods_def make_clients_def example_loader_def
      toBuildkitExtraHosts_def LoadInputs_def load_context_def example_fs_def example_options_def image_driver_def
      feature_defs Let_def io_bind_def io_ok_def io_get_def io_lift_def)


end
