(* ===== verification/Flags.thy ===== *)
theory Flags
  imports GoEncoding
begin

text \<open>
  The flags of the commands: the part of \<open>vendor/github.com/spf13/pflag\<close> that the commands
  use. A flag set is the list of its flags in the order of their declaration, with their
  values; the usage texts and the warnings about deprecated flags are left out. The flag sets
  of the program continue on errors, know no unknown flags, and allow arguments between the
  flags.
\<close>

section \<open>Values\<close>

text \<open>A list knows whether it was set before: the first value replaces the default.\<close>

datatype flag_value =
    StringV string
  | BoolV bool
  | IntV int
  | Int64V int
  | StringArrayV bool "string list"
  | StringSliceV bool "string list"

text \<open>\<open>strconv.ParseInt\<close> in base 0 for 64 bits: the base is taken from the prefix, and
  underscores may separate digits.\<close>

definition parse_int_error :: "string \<Rightarrow> string \<Rightarrow> go_error" where
  "parse_int_error s what = Errorf (''strconv.ParseInt: parsing %q: '' @ what) [s]"

definition base_digit :: "char \<Rightarrow> nat option" where
  "base_digit c =
     (let n = (of_char c :: nat); l = (of_char (lower_char c) :: nat) in
      if 48 \<le> n \<and> n \<le> 57 then Some (n - 48) else if 97 \<le> l \<and> l \<le> 122 then Some (l - 87) else None)"

fun uint_digits :: "string \<Rightarrow> nat \<Rightarrow> nat \<Rightarrow> string \<Rightarrow> nat result" where
  "uint_digits s0 base n [] = Ok n"
| "uint_digits s0 base n (c # cs) =
     (if c = CHR ''_'' then uint_digits s0 base n cs
      else
        case base_digit c of
          None \<Rightarrow> Err (parse_int_error s0 ''invalid syntax'')
        | Some d \<Rightarrow>
            if base \<le> d then Err (parse_int_error s0 ''invalid syntax'')
            else if 2 ^ 64 - 1 < base * n + d then Err (parse_int_error s0 ''value out of range'')
            else uint_digits s0 base (base * n + d) cs)"

definition prefix_is :: "string \<Rightarrow> char \<Rightarrow> bool" where
  "prefix_is s c \<longleftrightarrow> length s \<ge> 2 \<and> s ! 0 = CHR ''0'' \<and> lower_char (s ! 1) = c"

fun underscore_ok :: "bool \<Rightarrow> char \<Rightarrow> string \<Rightarrow> bool" where
  "underscore_ok hex i [] = (i \<noteq> CHR ''_'')"
| "underscore_ok hex i (c # cs) =
     (if (case base_digit c of None \<Rightarrow> False | Some d \<Rightarrow> d < (if hex then 16 else 10))
      then underscore_ok hex CHR ''0'' cs
      else if c = CHR ''_'' then i = CHR ''0'' \<and> underscore_ok hex CHR ''_'' cs
      else i \<noteq> CHR ''_'' \<and> underscore_ok hex CHR ''!'' cs)"

definition parse_uint0 :: "string \<Rightarrow> string \<Rightarrow> nat result" where
  "parse_uint0 s0 s =
     (if s = [] then Err (parse_int_error s0 ''invalid syntax'')
      else
        let (base, ds) =
              (if hd s \<noteq> CHR ''0'' then (10, s)
               else if length s \<ge> 3 \<and> prefix_is s CHR ''b'' then (2, drop 2 s)
               else if length s \<ge> 3 \<and> prefix_is s CHR ''o'' then (8, drop 2 s)
               else if length s \<ge> 3 \<and> prefix_is s CHR ''x'' then (16, drop 2 s)
               else (8, tl s));
            prefixed = list_ex (prefix_is s) [CHR ''b'', CHR ''o'', CHR ''x''];
            good = underscore_ok (prefix_is s CHR ''x'') (if prefixed then CHR ''0'' else CHR ''^'')
                     (if prefixed then drop 2 s else s)
        in and_then (uint_digits s0 base 0 ds) (\<lambda>n.
           if CHR ''_'' \<in> set ds \<and> \<not> good then Err (parse_int_error s0 ''invalid syntax'') else Ok n))"

definition ParseInt :: "string \<Rightarrow> int result" where
  "ParseInt s =
     (let (neg, ds) = (case s of
          [] \<Rightarrow> (False, [])
        | c # cs \<Rightarrow> if c = CHR ''-'' then (True, cs) else if c = CHR ''+'' then (False, cs) else (False, s))
      in and_then (parse_uint0 s ds) (\<lambda>n.
         let i = (if neg then - int n else int n)
         in if - (2 ^ 63) \<le> i \<and> i < 2 ^ 63 then Ok i else Err (parse_int_error s ''value out of range'')))"

text \<open>\<open>Value.Set\<close>; a flag that is set wrongly ends the parse.\<close>

definition readAsCSV :: "string \<Rightarrow> string list result" where
  "readAsCSV val = (if val = [] then Ok [] else csv_read val)"

definition stringArray_Set :: "bool \<Rightarrow> string list \<Rightarrow> string \<Rightarrow> flag_value" where
  "stringArray_Set changed vs s = StringArrayV True (if changed then vs @ [s] else [s])"

definition stringSlice_Set :: "bool \<Rightarrow> string list \<Rightarrow> string \<Rightarrow> flag_value result" where
  "stringSlice_Set changed vs s = and_then (readAsCSV s) (\<lambda>v. Ok (StringSliceV True (if changed then vs @ v else v)))"

fun set_value :: "flag_value \<Rightarrow> string \<Rightarrow> flag_value result" where
  "set_value (StringV _) s = Ok (StringV s)"
| "set_value (BoolV _) s = and_then (parse_bool s) (\<lambda>b. Ok (BoolV b))"
| "set_value (IntV _) s = and_then (ParseInt s) (\<lambda>i. Ok (IntV i))"
| "set_value (Int64V _) s = and_then (ParseInt s) (\<lambda>i. Ok (Int64V i))"
| "set_value (StringArrayV changed vs) s = Ok (stringArray_Set changed vs s)"
| "set_value (StringSliceV changed vs) s = stringSlice_Set changed vs s"

declare stringArray_Set_def [simp] stringSlice_Set_def [simp]

section \<open>Flag sets\<close>

record flag =
  fl_name :: string
  fl_shorthand :: string
  fl_value :: flag_value
  fl_changed :: bool
  fl_hidden :: bool

type_synonym flag_set = "flag list"

text \<open>\<open>StringVar\<close>, \<open>BoolVar\<close> and the others make a flag with its default value; the forms
  ending in P have a shorthand. A bool flag needs no value.\<close>

definition VarPF :: "string \<Rightarrow> string \<Rightarrow> flag_value \<Rightarrow> flag" where
  "VarPF name shorthand v = \<lparr>fl_name = name, fl_shorthand = shorthand, fl_value = v, fl_changed = False, fl_hidden = False\<rparr>"

definition NoOptDefVal :: "flag \<Rightarrow> string" where
  "NoOptDefVal fl = (case fl_value fl of BoolV _ \<Rightarrow> ''true'' | _ \<Rightarrow> [])"

definition Lookup :: "string \<Rightarrow> flag_set \<Rightarrow> flag option" where
  "Lookup name fs = find (\<lambda>fl. fl_name fl = name) fs"

definition ShorthandLookup :: "char \<Rightarrow> flag_set \<Rightarrow> flag option" where
  "ShorthandLookup c fs = find (\<lambda>fl. fl_shorthand fl = [c]) fs"

definition AddFlag :: "flag_set \<Rightarrow> flag \<Rightarrow> flag_set result" where
  "AddFlag fs fl =
     (if Lookup (fl_name fl) fs \<noteq> None then Err (Panic ''flag redefined'')
      else if length (fl_shorthand fl) > 1 then Err (Panic ''shorthand is more than one ASCII character'')
      else if fl_shorthand fl \<noteq> [] \<and> ShorthandLookup (hd (fl_shorthand fl)) fs \<noteq> None
      then Err (Panic ''unable to redefine shorthand'')
      else Ok (fs @ [fl]))"

definition declare_flags :: "flag_set \<Rightarrow> flag list \<Rightarrow> flag_set result" where
  "declare_flags fs fls = fold_res AddFlag fs fls"

definition AddFlagSet :: "flag_set \<Rightarrow> flag_set \<Rightarrow> flag_set result" where
  "AddFlagSet fs new = fold_res (\<lambda>fs fl. if Lookup (fl_name fl) fs = None then AddFlag fs fl else Ok fs) fs new"

definition MarkHidden :: "string \<Rightarrow> flag_set \<Rightarrow> flag_set" where
  "MarkHidden name fs = map (\<lambda>fl. if fl_name fl = name then fl\<lparr>fl_hidden := True\<rparr> else fl) fs"

text \<open>\<open>Set\<close>: the text of its error is that of the wrapped error of the value.\<close>

definition flag_title :: "flag \<Rightarrow> string" where
  "flag_title fl = (if fl_shorthand fl \<noteq> [] then ''-'' @ fl_shorthand fl @ '', '' else []) @ ''--'' @ fl_name fl"

definition store_flag :: "string \<Rightarrow> flag_value \<Rightarrow> flag_set \<Rightarrow> flag_set" where
  "store_flag name v fs = map (\<lambda>fl. if fl_name fl = name then fl\<lparr>fl_value := v, fl_changed := True\<rparr> else fl) fs"

definition Set_flag :: "string \<Rightarrow> string \<Rightarrow> flag_set \<Rightarrow> flag_set result" where
  "Set_flag name s fs =
     (case Lookup name fs of
        None \<Rightarrow> Err (Errorf ''no such flag -%v'' [name])
      | Some fl \<Rightarrow>
          (case set_value (fl_value fl) s of
             Inl e \<Rightarrow> Err (Wrapf e ''invalid argument %q for %q flag'' [s, flag_title fl])
           | Inr v \<Rightarrow> Ok (store_flag name v fs)))"

section \<open>Parsing\<close>

definition ErrHelp :: go_error where
  "ErrHelp = Errorf ''pflag: help requested'' []"

text \<open>One flag: the arguments that are left, and the flags.\<close>

definition parseLongArg :: "string \<Rightarrow> string list \<Rightarrow> flag_set \<Rightarrow> (string list \<times> flag_set) result" where
  "parseLongArg s args fs =
     (let rest = drop 2 s in
      if rest = [] \<or> hd rest = CHR ''-'' \<or> hd rest = CHR ''='' then Err (Errorf ''bad flag syntax: %s'' [s])
      else
        let parts = splitn2 CHR ''='' rest; name = hd parts in
        (case Lookup name fs of
           None \<Rightarrow> Err (if name = ''help'' then ErrHelp else Errorf ''unknown flag: --%s'' [name])
         | Some fl \<Rightarrow>
             if length parts = 2 then and_then (Set_flag name (parts ! 1) fs) (\<lambda>fs. Ok (args, fs))
             else if NoOptDefVal fl \<noteq> [] then and_then (Set_flag name (NoOptDefVal fl) fs) (\<lambda>fs. Ok (args, fs))
             else if args \<noteq> [] then and_then (Set_flag name (hd args) fs) (\<lambda>fs. Ok (tl args, fs))
             else Err (Errorf ''flag needs an argument: %s'' [s])))"

text \<open>One letter of a group; the result starts with the letters that are left.\<close>

definition parseSingleShortArg ::
  "string \<Rightarrow> string list \<Rightarrow> flag_set \<Rightarrow> (string \<times> string list \<times> flag_set) result" where
  "parseSingleShortArg shorthands args fs =
     (if has_prefix shorthands ''test.'' then Ok ([], args, fs)
      else
        let c = hd shorthands in
        (case ShorthandLookup c fs of
           None \<Rightarrow> Err (if c = CHR ''h'' then ErrHelp else Errorf ''unknown shorthand flag: %q in -%s'' [[c], shorthands])
         | Some fl \<Rightarrow>
             if length shorthands > 2 \<and> shorthands ! 1 = CHR ''='' then
               and_then (Set_flag (fl_name fl) (drop 2 shorthands) fs) (\<lambda>fs. Ok ([], args, fs))
             else if NoOptDefVal fl \<noteq> [] then
               and_then (Set_flag (fl_name fl) (NoOptDefVal fl) fs) (\<lambda>fs. Ok (tl shorthands, args, fs))
             else if length shorthands > 1 then
               and_then (Set_flag (fl_name fl) (tl shorthands) fs) (\<lambda>fs. Ok ([], args, fs))
             else if args \<noteq> [] then and_then (Set_flag (fl_name fl) (hd args) fs) (\<lambda>fs. Ok ([], tl args, fs))
             else Err (Errorf ''flag needs an argument: %q in -%s'' [[c], shorthands])))"

lemma parseSingleShortArg_shorter:
  assumes "parseSingleShortArg sh args fs = Ok (sh', args', fs')" and "sh \<noteq> []"
  shows "length sh' < length sh \<and> length args' \<le> length args"
  using assms
  by (auto simp: parseSingleShortArg_def Let_def and_then_Inr_iff split: option.splits if_splits)

text \<open>Each letter is given the arguments of the whole group, and the last one decides what is
  left of them.\<close>

function parse_letters :: "string \<Rightarrow> string list \<Rightarrow> string list \<Rightarrow> flag_set \<Rightarrow> (string list \<times> flag_set) result" where
  "parse_letters sh args a fs =
     (if sh = [] then Ok (a, fs)
      else
        case parseSingleShortArg sh args fs of
          Inl e \<Rightarrow> Err e
        | Inr (sh', a', fs') \<Rightarrow> parse_letters sh' args a' fs')"
  by pat_completeness auto
termination
  by (relation "measure (\<lambda>(sh, _). length sh)") (auto dest: parseSingleShortArg_shorter)

declare parse_letters.simps [simp del]

definition parseShortArg :: "string \<Rightarrow> string list \<Rightarrow> flag_set \<Rightarrow> (string list \<times> flag_set) result" where
  "parseShortArg s args fs = parse_letters (tl s) args args fs"

lemma parse_letters_shorter:
  "parse_letters sh args a fs = Ok (a', fs') \<Longrightarrow> length a \<le> length args \<Longrightarrow> length a' \<le> length args"
proof (induction sh args a fs rule: parse_letters.induct)
  case (1 sh args a fs)
  show ?case
  proof (cases "sh = []")
    case True
    with 1 show ?thesis by (simp add: parse_letters.simps)
  next
    case False
    with 1(2) obtain sh1 a1 fs1 where one: "parseSingleShortArg sh args fs = Ok (sh1, a1, fs1)"
      "parse_letters sh1 args a1 fs1 = Ok (a', fs')"
      by (subst (asm) parse_letters.simps) (auto split: sum.splits)
    from parseSingleShortArg_shorter[OF one(1) False] have "length a1 \<le> length args" by simp
    with 1(1)[OF False one(1) _ _ one(2)] show ?thesis by simp
  qed
qed

lemma parseLongArg_shorter: "parseLongArg s args fs = Ok (a, fs') \<Longrightarrow> length a \<le> length args"
  by (auto simp: parseLongArg_def Let_def and_then_Inr_iff split: option.splits if_splits)

text \<open>The loop over the arguments. The first result holds the arguments that are no flags.\<close>

function parseArgs :: "string list \<Rightarrow> string list \<Rightarrow> flag_set \<Rightarrow> (string list \<times> flag_set) result" where
  "parseArgs found [] fs = Ok (found, fs)"
| "parseArgs found (s # args) fs =
     (if length s \<le> 1 \<or> hd s \<noteq> CHR ''-'' then parseArgs (found @ [s]) args fs
      else if s = ''--'' then Ok (found @ args, fs)
      else
        case (if s ! 1 = CHR ''-'' then parseLongArg s args fs else parseShortArg s args fs) of
          Inl e \<Rightarrow> Err e
        | Inr (args', fs') \<Rightarrow> parseArgs found args' fs')"
  by pat_completeness auto
termination
proof (relation "measure (\<lambda>(_, args, _). length args)", goal_cases)
  case (3 found s args fs x a b)
  then have "length a \<le> length args"
    by (auto simp: parseShortArg_def dest: parseLongArg_shorter parse_letters_shorter split: if_splits)
  then show ?case by simp
qed auto

declare parseArgs.simps(2) [simp del]

text \<open>\<open>Parse\<close>: the arguments that are no flags, and the flags.\<close>

definition Parse_flags :: "string list \<Rightarrow> flag_set \<Rightarrow> (string list \<times> flag_set) result" where
  "Parse_flags args fs = parseArgs [] args fs"

text \<open>\<open>GetString\<close> and \<open>GetBool\<close>.\<close>

definition getFlagType :: "string \<Rightarrow> string \<Rightarrow> (flag_value \<Rightarrow> 'a option) \<Rightarrow> flag_set \<Rightarrow> 'a result" where
  "getFlagType name ftype conv fs =
     (case Lookup name fs of
        None \<Rightarrow> Err (Errorf ''flag accessed but not defined: %s'' [name])
      | Some fl \<Rightarrow>
          (case conv (fl_value fl) of
             None \<Rightarrow> Err (Errorf ''trying to get %s value of flag of type %s'' [ftype, name])
           | Some v \<Rightarrow> Ok v))"

definition GetString :: "flag_set \<Rightarrow> string \<Rightarrow> string result" where
  "GetString fs name = getFlagType name ''string'' (\<lambda>v. case v of StringV s \<Rightarrow> Some s | _ \<Rightarrow> None) fs"

definition GetBool :: "flag_set \<Rightarrow> string \<Rightarrow> bool result" where
  "GetBool fs name = getFlagType name ''bool'' (\<lambda>v. case v of BoolV b \<Rightarrow> Some b | _ \<Rightarrow> None) fs"

text \<open>The variable that a flag is bound to.\<close>

definition string_var :: "flag_set \<Rightarrow> string \<Rightarrow> string" where
  "string_var fs n = (case map_option fl_value (Lookup n fs) of Some (StringV s) \<Rightarrow> s | _ \<Rightarrow> [])"

definition bool_var :: "flag_set \<Rightarrow> string \<Rightarrow> bool" where
  "bool_var fs n = (case map_option fl_value (Lookup n fs) of Some (BoolV b) \<Rightarrow> b | _ \<Rightarrow> False)"

definition int_var :: "flag_set \<Rightarrow> string \<Rightarrow> int" where
  "int_var fs n = (case map_option fl_value (Lookup n fs) of Some (IntV i) \<Rightarrow> i | _ \<Rightarrow> 0)"

definition list_var :: "flag_set \<Rightarrow> string \<Rightarrow> string list" where
  "list_var fs n =
     (case map_option fl_value (Lookup n fs) of
        Some (StringArrayV _ vs) \<Rightarrow> vs
      | Some (StringSliceV _ vs) \<Rightarrow> vs
      | _ \<Rightarrow> [])"

section \<open>Lemmas\<close>

text \<open>The shape of a flag set: what its declaration fixes.\<close>

definition is_bool :: "flag_value \<Rightarrow> bool" where
  "is_bool v = (case v of BoolV _ \<Rightarrow> True | _ \<Rightarrow> False)"

definition flag_shape :: "flag_set \<Rightarrow> (string \<times> string \<times> bool) list" where
  "flag_shape fs = map (\<lambda>fl. (fl_name fl, fl_shorthand fl, is_bool (fl_value fl))) fs"

lemma NoOptDefVal_iff: "NoOptDefVal fl = [] \<longleftrightarrow> \<not> is_bool (fl_value fl)"
  by (simp add: NoOptDefVal_def is_bool_def split: flag_value.splits)

lemma NoOptDefVal_bool: "is_bool (fl_value fl) \<Longrightarrow> NoOptDefVal fl = ''true''"
  by (simp add: NoOptDefVal_def is_bool_def split: flag_value.splits)

lemma set_value_kind: "set_value v s = Ok v' \<Longrightarrow> is_bool v' = is_bool v"
  by (cases v) (auto simp: is_bool_def and_then_Inr_iff)

lemma Lookup_name: "Lookup n fs = Some fl \<Longrightarrow> fl_name fl = n \<and> fl \<in> set fs"
  by (auto simp: Lookup_def find_Some_iff)

lemma Lookup_store:
  "Lookup n (store_flag m v fs) =
     (if n = m then map_option (\<lambda>fl. fl\<lparr>fl_value := v, fl_changed := True\<rparr>) (Lookup n fs) else Lookup n fs)"
  by (induction fs) (auto simp: Lookup_def store_flag_def)

text \<open>A flag as its declaration fixes it.\<close>

definition decl_of :: "flag \<Rightarrow> string \<times> string \<times> bool" where
  "decl_of fl = (fl_name fl, fl_shorthand fl, is_bool (fl_value fl))"

lemma Lookup_shape: "map_option decl_of (Lookup n fs) = find (\<lambda>d. fst d = n) (flag_shape fs)"
  by (induction fs) (auto simp: Lookup_def flag_shape_def decl_of_def)

lemma ShorthandLookup_shape: "map_option decl_of (ShorthandLookup c fs) = find (\<lambda>d. fst (snd d) = [c]) (flag_shape fs)"
  by (induction fs) (auto simp: ShorthandLookup_def flag_shape_def decl_of_def)

lemma same_shape:
  assumes "flag_shape fs' = flag_shape fs"
  shows "map_option decl_of (Lookup n fs') = map_option decl_of (Lookup n fs)"
    and "map_option decl_of (ShorthandLookup c fs') = map_option decl_of (ShorthandLookup c fs)"
  by (simp_all add: Lookup_shape ShorthandLookup_shape assms)

lemma Set_flag_Ok_iff:
  "Set_flag n s fs = Ok fs' \<longleftrightarrow>
     (\<exists>fl v. Lookup n fs = Some fl \<and> set_value (fl_value fl) s = Ok v \<and> fs' = store_flag n v fs)"
  by (auto simp: Set_flag_def split: option.splits sum.splits)

text \<open>Names are declared once.\<close>

definition names_distinct :: "flag_set \<Rightarrow> bool" where
  "names_distinct fs \<longleftrightarrow> distinct (map fl_name fs)"

lemma names_of_shape: "map fl_name fs = map fst (flag_shape fs)"
  by (simp add: flag_shape_def)

lemma shape_store:
  assumes "names_distinct fs" and "Lookup n fs = Some fl" and "is_bool v = is_bool (fl_value fl)"
  shows "flag_shape (store_flag n v fs) = flag_shape fs"
proof -
  have "fl' = fl" if "fl' \<in> set fs" "fl_name fl' = n" for fl'
    using that Lookup_name[OF assms(2)] assms(1)
    by (metis distinct_map inj_onD names_distinct_def)
  then show ?thesis using assms(3) by (auto simp: flag_shape_def store_flag_def)
qed

lemma Set_flag_shape: "Set_flag n s fs = Ok fs' \<Longrightarrow> names_distinct fs \<Longrightarrow> flag_shape fs' = flag_shape fs"
  by (auto simp: Set_flag_Ok_iff intro!: shape_store dest: set_value_kind)

lemma names_distinct_shape: "flag_shape fs' = flag_shape fs \<Longrightarrow> names_distinct fs' = names_distinct fs"
  by (simp add: names_distinct_def names_of_shape)

section \<open>The spellings of a flag\<close>

datatype token =
    LongEq string string
  | LongSep string string
  | LongBare string
  | ShortEq char string
  | ShortJoin char string
  | ShortSep char string
  | Arg string

fun spell :: "token \<Rightarrow> string list" where
  "spell (LongEq n v) = [''--'' @ n @ ''='' @ v]"
| "spell (LongSep n v) = [''--'' @ n, v]"
| "spell (LongBare n) = [''--'' @ n]"
| "spell (ShortEq c v) = [''-'' @ c # ''='' @ v]"
| "spell (ShortJoin c v) = [''-'' @ c # v]"
| "spell (ShortSep c v) = [''-'' @ [c], v]"
| "spell (Arg a) = [a]"

definition long_name :: "string \<Rightarrow> bool" where
  "long_name n \<longleftrightarrow> n \<noteq> [] \<and> hd n \<noteq> CHR ''-'' \<and> CHR ''='' \<notin> set n"

definition bool_flag :: "flag option \<Rightarrow> bool" where
  "bool_flag fl = (case fl of None \<Rightarrow> False | Some fl \<Rightarrow> is_bool (fl_value fl))"

definition value_flag :: "flag option \<Rightarrow> bool" where
  "value_flag fl = (case fl of None \<Rightarrow> False | Some fl \<Rightarrow> \<not> is_bool (fl_value fl))"

fun spelled :: "flag_set \<Rightarrow> token \<Rightarrow> bool" where
  "spelled fs (LongEq n v) \<longleftrightarrow> long_name n \<and> Lookup n fs \<noteq> None"
| "spelled fs (LongSep n v) \<longleftrightarrow> long_name n \<and> value_flag (Lookup n fs)"
| "spelled fs (LongBare n) \<longleftrightarrow> long_name n \<and> bool_flag (Lookup n fs)"
| "spelled fs (ShortEq c v) \<longleftrightarrow> c \<noteq> CHR ''-'' \<and> v \<noteq> [] \<and> ShorthandLookup c fs \<noteq> None"
| "spelled fs (ShortJoin c v) \<longleftrightarrow> c \<noteq> CHR ''-'' \<and> v \<noteq> [] \<and> \<not> (length v > 1 \<and> hd v = CHR ''='') \<and>
     \<not> has_prefix (c # v) ''test.'' \<and> value_flag (ShorthandLookup c fs)"
| "spelled fs (ShortSep c v) \<longleftrightarrow> c \<noteq> CHR ''-'' \<and> value_flag (ShorthandLookup c fs)"
| "spelled fs (Arg a) \<longleftrightarrow> length a \<le> 1 \<or> hd a \<noteq> CHR ''-''"

text \<open>What a token means: an argument, or a flag with its value.\<close>

definition short_name :: "flag_set \<Rightarrow> char \<Rightarrow> string" where
  "short_name fs c = (case ShorthandLookup c fs of None \<Rightarrow> [] | Some fl \<Rightarrow> fl_name fl)"

fun meaning :: "flag_set \<Rightarrow> token \<Rightarrow> (string \<times> string) + string" where
  "meaning fs (LongEq n v) = Inl (n, v)"
| "meaning fs (LongSep n v) = Inl (n, v)"
| "meaning fs (LongBare n) = Inl (n, ''true'')"
| "meaning fs (ShortEq c v) = Inl (short_name fs c, v)"
| "meaning fs (ShortJoin c v) = Inl (short_name fs c, v)"
| "meaning fs (ShortSep c v) = Inl (short_name fs c, v)"
| "meaning fs (Arg a) = Inr a"

definition obey :: "string list \<times> flag_set \<Rightarrow> (string \<times> string) + string \<Rightarrow> (string list \<times> flag_set) result" where
  "obey = (\<lambda>(found, fs) m.
     case m of
       Inl (n, v) \<Rightarrow> and_then (Set_flag n v fs) (\<lambda>fs. Ok (found, fs))
     | Inr a \<Rightarrow> Ok (found @ [a], fs))"

lemma parseLongArg_eq:
  assumes "long_name n" and "Lookup n fs = Some fl"
  shows "parseLongArg (''--'' @ n @ ''='' @ v) args fs = and_then (Set_flag n v fs) (\<lambda>fs. Ok (args, fs))"
    and "parseLongArg (''--'' @ n) args fs =
      (if is_bool (fl_value fl) then and_then (Set_flag n ''true'' fs) (\<lambda>fs. Ok (args, fs))
       else if args \<noteq> [] then and_then (Set_flag n (hd args) fs) (\<lambda>fs. Ok (tl args, fs))
       else Err (Errorf ''flag needs an argument: %s'' [''--'' @ n]))"
  using assms splitn2_cut[of "CHR ''=''" n v] splitn2_no_sep[of "CHR ''=''" n]
  by (cases n; auto simp: parseLongArg_def long_name_def Let_def NoOptDefVal_iff NoOptDefVal_bool)+

lemma parse_letters_Nil [simp]: "parse_letters [] args a fs = Ok (a, fs)"
  by (simp add: parse_letters.simps)

lemma parseShortArg_eq:
  assumes "ShorthandLookup c fs = Some fl"
  shows "v \<noteq> [] \<Longrightarrow> parseShortArg (''-'' @ c # ''='' @ v) args fs = and_then (Set_flag (fl_name fl) v fs) (\<lambda>fs. Ok (args, fs))"
    and "\<not> is_bool (fl_value fl) \<Longrightarrow> v \<noteq> [] \<Longrightarrow> \<not> (length v > 1 \<and> hd v = CHR ''='') \<Longrightarrow> \<not> has_prefix (c # v) ''test.'' \<Longrightarrow>
      parseShortArg (''-'' @ c # v) args fs = and_then (Set_flag (fl_name fl) v fs) (\<lambda>fs. Ok (args, fs))"
    and "\<not> is_bool (fl_value fl) \<Longrightarrow>
      parseShortArg (''-'' @ [c]) (v # args) fs = and_then (Set_flag (fl_name fl) v fs) (\<lambda>fs. Ok (args, fs))"
  using assms
  by (auto simp: parseShortArg_def parse_letters.simps[of "c # _"] parseSingleShortArg_def has_prefix_def Let_def
      NoOptDefVal_iff and_then_def neq_Nil_conv split: sum.splits)

lemma parseArgs_token:
  assumes "spelled fs t"
  shows "parseArgs found (spell t @ args) fs = and_then (obey (found, fs) (meaning fs t)) (\<lambda>(found, fs). parseArgs found args fs)"
proof -
  have hd2: "n \<noteq> [] \<Longrightarrow> ''--'' @ n @ x \<noteq> ''--''" for n x :: string by simp
  show ?thesis
  proof (cases t)
    case (LongEq n v)
    with assms obtain fl where "long_name n" "Lookup n fs = Some fl" by auto
    with LongEq parseLongArg_eq(1)[of n fs fl v args] show ?thesis
      by (auto simp: parseArgs.simps(2) obey_def and_then_def long_name_def split: sum.splits)
  next
    case (LongSep n v)
    with assms obtain fl where "long_name n" "Lookup n fs = Some fl" "\<not> is_bool (fl_value fl)"
      by (auto simp: value_flag_def split: option.splits)
    with LongSep parseLongArg_eq(2)[of n fs fl "v # args"] show ?thesis
      by (auto simp: parseArgs.simps(2) obey_def and_then_def long_name_def split: sum.splits)
  next
    case (LongBare n)
    with assms obtain fl where "long_name n" "Lookup n fs = Some fl" "is_bool (fl_value fl)"
      by (auto simp: bool_flag_def split: option.splits)
    with LongBare parseLongArg_eq(2)[of n fs fl args] show ?thesis
      by (auto simp: parseArgs.simps(2) obey_def and_then_def long_name_def split: sum.splits)
  next
    case (ShortEq c v)
    with assms obtain fl where "c \<noteq> CHR ''-''" "v \<noteq> []" "ShorthandLookup c fs = Some fl" by auto
    with ShortEq parseShortArg_eq(1)[of c fs fl v args] show ?thesis
      by (auto simp: parseArgs.simps(2) obey_def and_then_def short_name_def split: sum.splits)
  next
    case (ShortJoin c v)
    with assms obtain fl where "c \<noteq> CHR ''-''" "v \<noteq> []" "\<not> (length v > 1 \<and> hd v = CHR ''='')"
      "\<not> has_prefix (c # v) ''test.''" "ShorthandLookup c fs = Some fl" "\<not> is_bool (fl_value fl)"
      by (auto simp: value_flag_def split: option.splits)
    with ShortJoin parseShortArg_eq(2)[of c fs fl v args] show ?thesis
      by (auto simp: parseArgs.simps(2) obey_def and_then_def short_name_def split: sum.splits)
  next
    case (ShortSep c v)
    with assms obtain fl where "c \<noteq> CHR ''-''" "ShorthandLookup c fs = Some fl" "\<not> is_bool (fl_value fl)"
      by (auto simp: value_flag_def split: option.splits)
    with ShortSep parseShortArg_eq(3)[of c fs fl v args] show ?thesis
      by (auto simp: parseArgs.simps(2) obey_def and_then_def short_name_def split: sum.splits)
  next
    case (Arg a)
    with assms show ?thesis by (auto simp: parseArgs.simps(2) obey_def)
  qed
qed


lemma flag_kind_decl:
  "bool_flag x \<longleftrightarrow> (\<exists>d. map_option decl_of x = Some d \<and> snd (snd d))"
  "value_flag x \<longleftrightarrow> (\<exists>d. map_option decl_of x = Some d \<and> \<not> snd (snd d))"
  by (auto simp: bool_flag_def value_flag_def decl_of_def split: option.splits)

lemma same_shape_spelled:
  assumes "flag_shape fs' = flag_shape fs"
  shows "spelled fs' t = spelled fs t" and "meaning fs' t = meaning fs t"
proof -
  have none: "(Lookup n fs' = None) = (Lookup n fs = None)" "(ShorthandLookup c fs' = None) = (ShorthandLookup c fs = None)" for n c
    using same_shape(1)[OF assms, of n] same_shape(2)[OF assms, of c] by (metis None_eq_map_option_iff)+
  show "spelled fs' t = spelled fs t"
    by (cases t) (simp_all add: none flag_kind_decl same_shape[OF assms] del: not_None_eq)
  have "short_name fs' c = short_name fs c" for c
    using same_shape(2)[OF assms, of c] by (auto simp: short_name_def decl_of_def split: option.splits)
  then show "meaning fs' t = meaning fs t" by (cases t) simp_all
qed

text \<open>What the flags after a \<open>--\<close> are: arguments.\<close>

lemma parseArgs_dashes: "parseArgs found (''--'' # rest) fs = Ok (found @ rest, fs)"
  by (simp add: parseArgs.simps(2))

lemma obey_shape: "obey (found, fs) m = Ok (found', fs') \<Longrightarrow> names_distinct fs \<Longrightarrow> flag_shape fs' = flag_shape fs"
  by (auto simp: obey_def and_then_Inr_iff dest: Set_flag_shape split: sum.splits)

definition obey_all :: "(string list \<times> flag_set) \<Rightarrow> token list \<Rightarrow> (string list \<times> flag_set) result" where
  "obey_all s ts = fold_res obey s (map (meaning (snd s)) ts)"

lemma parseArgs_tokens:
  assumes "\<forall>t \<in> set ts. spelled fs t" and "names_distinct fs"
  shows "parseArgs found (concat (map spell ts) @ args) fs =
    and_then (obey_all (found, fs) ts) (\<lambda>(found, fs). parseArgs found args fs)"
  using assms
proof (induction ts arbitrary: found fs)
  case Nil
  then show ?case by (simp add: obey_all_def)
next
  case (Cons t ts)
  show ?case
  proof (cases "obey (found, fs) (meaning fs t)")
    case (Inl e)
    with Cons.prems parseArgs_token[of fs t found "concat (map spell ts) @ args"] show ?thesis
      by (simp add: obey_all_def)
  next
    case (Inr s)
    obtain found1 fs1 where s: "s = (found1, fs1)" by fastforce
    have shape: "flag_shape fs1 = flag_shape fs" using Inr s Cons.prems(2) by (auto dest: obey_shape)
    from Cons.IH[of fs1 found1] Cons.prems same_shape_spelled[OF shape] names_distinct_shape[OF shape]
    have "parseArgs found1 (concat (map spell ts) @ args) fs1 =
        and_then (obey_all (found1, fs1) ts) (\<lambda>(found, fs). parseArgs found args fs)" by simp
    moreover have "map (meaning fs1) ts = map (meaning fs) ts" using same_shape_spelled(2)[OF shape] by simp
    ultimately show ?thesis
      using parseArgs_token[of fs t found "concat (map spell ts) @ args"] Inr s Cons.prems(1)
      by (simp add: obey_all_def)
  qed
qed

text \<open>
  A command line is read as it was written. Whatever spelling is chosen for each flag (with its name
  or its letter, with the value behind an equals sign, attached, or as the next argument, and for
  a bool flag without a value), and however flags and arguments are mixed, the parser does
  exactly what the tokens say, one after the other: it sets each flag to its value and keeps the
  arguments in their order; it fails with the first value that a flag does not accept. Everything
  behind a double dash is an argument.
\<close>

theorem command_line_read:
  assumes "\<forall>t \<in> set ts. spelled fs t" and "names_distinct fs"
  shows "Parse_flags (concat (map spell ts)) fs = obey_all ([], fs) ts"
    and "Parse_flags (concat (map spell ts) @ ''--'' # rest) fs =
      and_then (obey_all ([], fs) ts) (\<lambda>(found, fs'). Ok (found @ rest, fs'))"
  using parseArgs_tokens[OF assms, of "[]" "[]"] parseArgs_tokens[OF assms, of "[]" "''--'' # rest"]
  by (auto simp: Parse_flags_def parseArgs_dashes and_then_def split: sum.splits)

section \<open>The values after a parse\<close>

text \<open>The values that a command line gives to a flag, and its arguments.\<close>

fun settings :: "string \<Rightarrow> ((string \<times> string) + string) list \<Rightarrow> string list" where
  "settings n [] = []"
| "settings n (m # ms) =
     (case m of Inl (n', v) \<Rightarrow> if n' = n then v # settings n ms else settings n ms | Inr _ \<Rightarrow> settings n ms)"

fun arguments :: "((string \<times> string) + string) list \<Rightarrow> string list" where
  "arguments [] = []"
| "arguments (m # ms) = (case m of Inl _ \<Rightarrow> arguments ms | Inr a \<Rightarrow> a # arguments ms)"

lemma settings_Cons_Inl: "settings n (Inl (n', v) # ms) = (if n' = n then v # settings n ms else settings n ms)"
  by simp

lemma obeyed_value:
  assumes "fold_res obey (found, fs) ms = Ok (found', fs')"
  shows "found' = found @ arguments ms \<and>
    (\<forall>n. (Lookup n fs = None \<longrightarrow> Lookup n fs' = None) \<and>
      (\<forall>fl. Lookup n fs = Some fl \<longrightarrow>
        (\<exists>fl'. Lookup n fs' = Some fl' \<and> fold_res set_value (fl_value fl) (settings n ms) = Ok (fl_value fl'))))"
  using assms
proof (induction ms arbitrary: found fs)
  case Nil
  then show ?case by simp
next
  case (Cons m ms)
  then obtain found1 fs1 where one: "obey (found, fs) m = Ok (found1, fs1)" "fold_res obey (found1, fs1) ms = Ok (found', fs')"
    by (auto simp: and_then_Inr_iff)
  note IH = Cons.IH[OF one(2)]
  show ?case
  proof (cases m)
    case (Inr a)
    with one(1) IH show ?thesis by (auto simp: obey_def)
  next
    case (Inl nv)
    obtain n v where nv: "nv = (n, v)" by fastforce
    from one(1) Inl nv have "found1 = found" "Set_flag n v fs = Ok fs1" by (auto simp: obey_def and_then_Inr_iff)
    then obtain fl u where fl: "Lookup n fs = Some fl" "set_value (fl_value fl) v = Ok u" "fs1 = store_flag n u fs"
      by (auto simp: Set_flag_Ok_iff)
    show ?thesis
    proof (intro conjI allI)
      show "found' = found @ arguments (m # ms)" using IH \<open>found1 = found\<close> Inl by simp
    next
      fix n'
      have "Lookup n' fs = None \<Longrightarrow> Lookup n' fs1 = None" by (auto simp: fl(3) Lookup_store)
      then show "Lookup n' fs = None \<longrightarrow> Lookup n' fs' = None" using IH by blast
    next
      fix n' gl
      have "\<exists>fl'. Lookup n' fs' = Some fl' \<and> fold_res set_value (fl_value gl) (settings n' (m # ms)) = Ok (fl_value fl')"
        if gl: "Lookup n' fs = Some gl"
      proof (cases "n' = n")
        case True
        with gl fl have "Lookup n' fs1 = Some (gl\<lparr>fl_value := u, fl_changed := True\<rparr>)" "gl = fl" by (simp_all add: Lookup_store)
        with IH True have "\<exists>fl'. Lookup n fs' = Some fl' \<and> fold_res set_value u (settings n ms) = Ok (fl_value fl')"
          by fastforce
        with fl(2) Inl nv True \<open>gl = fl\<close> show ?thesis by simp
      next
        case False
        with gl fl(3) have "Lookup n' fs1 = Some gl" by (simp add: Lookup_store)
        with IH Inl nv False show ?thesis by auto
      qed
      then show "Lookup n' fs = Some gl \<longrightarrow>
          (\<exists>fl'. Lookup n' fs' = Some fl' \<and> fold_res set_value (fl_value gl) (settings n' (m # ms)) = Ok (fl_value fl'))"
        by blast
    qed
  qed
qed

lemma fold_set_string: "fold_res set_value (StringV d) ss = Ok (StringV (last (d # ss)))"
  by (induction ss arbitrary: d) auto

lemma fold_set_bool:
  "fold_res set_value (BoolV d) ss = Ok v \<Longrightarrow> \<exists>b. v = BoolV b \<and> (if ss = [] then b = d else parse_bool (last ss) = Ok b)"
proof (induction ss arbitrary: d)
  case (Cons s ss)
  then obtain b where "parse_bool s = Ok b" "fold_res set_value (BoolV b) ss = Ok v" by (auto simp: and_then_Inr_iff)
  with Cons.IH[of b] show ?case by (cases ss) auto
qed simp

lemma fold_set_int:
  "fold_res set_value (IntV d) ss = Ok v \<Longrightarrow> \<exists>i. v = IntV i \<and> (if ss = [] then i = d else ParseInt (last ss) = Ok i)"
proof (induction ss arbitrary: d)
  case (Cons s ss)
  then obtain i where "ParseInt s = Ok i" "fold_res set_value (IntV i) ss = Ok v" by (auto simp: and_then_Inr_iff)
  with Cons.IH[of i] show ?case by (cases ss) auto
qed simp

lemma fold_set_more: "fold_res set_value (StringArrayV True d) ss = Ok (StringArrayV True (d @ ss))"
  by (induction ss arbitrary: d) auto

lemma fold_set_array:
  "fold_res set_value (StringArrayV False d) ss = Ok (StringArrayV (ss \<noteq> []) (if ss = [] then d else ss))"
  by (cases ss) (simp_all add: fold_set_more)

lemma parsed_value:
  assumes "fold_res obey (found, fs) ms = Ok (found', fs')" and "map_option fl_value (Lookup n fs) = Some d"
  obtains v where "map_option fl_value (Lookup n fs') = Some v" "fold_res set_value d (settings n ms) = Ok v"
  using obeyed_value[OF assms(1)] assms(2) by fastforce

lemma parsed_string:
  assumes "fold_res obey (found, fs) ms = Ok (found', fs')" and "map_option fl_value (Lookup n fs) = Some (StringV d)"
  shows "string_var fs' n = last (d # settings n ms)"
  by (rule parsed_value[OF assms]) (auto simp: string_var_def fold_set_string)

lemma parsed_bool:
  assumes "fold_res obey (found, fs) ms = Ok (found', fs')" and "map_option fl_value (Lookup n fs) = Some (BoolV d)"
  shows "if settings n ms = [] then bool_var fs' n = d else parse_bool (last (settings n ms)) = Ok (bool_var fs' n)"
  by (rule parsed_value[OF assms]) (auto simp: bool_var_def dest!: fold_set_bool)

lemma parsed_int:
  assumes "fold_res obey (found, fs) ms = Ok (found', fs')" and "map_option fl_value (Lookup n fs) = Some (IntV d)"
  shows "if settings n ms = [] then int_var fs' n = d else ParseInt (last (settings n ms)) = Ok (int_var fs' n)"
  by (rule parsed_value[OF assms]) (auto simp: int_var_def dest!: fold_set_int)

lemma parsed_array:
  assumes "fold_res obey (found, fs) ms = Ok (found', fs')" and "map_option fl_value (Lookup n fs) = Some (StringArrayV False d)"
  shows "list_var fs' n = (if settings n ms = [] then d else settings n ms)"
  by (rule parsed_value[OF assms]) (auto simp: list_var_def fold_set_array)

section \<open>ParseInt on decimal numbers\<close>

lemma uint_digits_decimal:
  assumes "digits_value n ds = Some m" and "m < 2 ^ 64"
  shows "uint_digits s0 10 n ds = Ok m"
  using assms
proof (induction ds arbitrary: n)
  case Nil
  then show ?case by simp
next
  case (Cons c cs)
  have mono: "digits_value k xs = Some m' \<Longrightarrow> k \<le> m'" for k xs m'
    by (induction xs arbitrary: k) (fastforce split: option.splits)+
  from Cons.prems obtain d where d: "digit_value c = Some d" "digits_value (10 * n + d) cs = Some m"
    by (auto split: option.splits)
  from d(1) have "base_digit c = Some d" "d < 10" "c \<noteq> CHR ''_''"
    by (auto simp: digit_value_def base_digit_def Let_def split: if_splits)
  moreover have "10 * n + d < 2 ^ 64" using mono[OF d(2)] Cons.prems(2) by simp
  ultimately show ?case using Cons.IH[OF d(2) Cons.prems(2)] by simp
qed

lemma digits_no_underscore: "digits_value n ds = Some m \<Longrightarrow> CHR ''_'' \<notin> set ds"
  by (induction ds arbitrary: n) (auto simp: digit_value_def Let_def split: option.splits if_splits)

lemma hd_nat_digits_zero: "0 < n \<Longrightarrow> hd (nat_digits n) \<noteq> CHR ''0''"
proof (induction n rule: nat_digits.induct)
  case (1 n)
  show ?case
  proof (cases "n < 10")
    case True
    have "(of_char (digit_char n) :: nat) = 48 + n" using True by (simp add: digit_char_def)
    then have "digit_char n \<noteq> CHR ''0''" using 1(2) by auto
    with True show ?thesis by (subst nat_digits.simps) simp
  next
    case False
    with 1 show ?thesis by (subst nat_digits.simps) simp
  qed
qed

lemma parse_uint0_digits: "n < 2 ^ 64 \<Longrightarrow> parse_uint0 s0 (nat_digits n) = Ok n"
proof (cases "n = 0")
  case True
  have "digit_char 0 = CHR ''0''" by code_simp
  then have "nat_digits 0 = [CHR ''0'']" by (subst nat_digits.simps) simp
  with True show ?thesis by (simp add: parse_uint0_def prefix_is_def)
next
  case False
  assume "n < 2 ^ 64"
  with uint_digits_decimal[OF digits_value_nat_digits, of n s0]
  have "uint_digits s0 10 0 (nat_digits n) = Ok n" by simp
  with hd_nat_digits_zero[of n] digits_no_underscore[OF digits_value_nat_digits, of n] False show ?thesis
    by (simp add: parse_uint0_def Let_def)
qed

lemma ParseInt_itoa:
  assumes "- (2 ^ 63) \<le> i" and "i < 2 ^ 63"
  shows "ParseInt (itoa i) = Ok i"
proof (cases "i < 0")
  case True
  have "nat (- i) < 2 ^ 64" using assms by (simp add: nat_less_iff)
  with True assms show ?thesis by (simp add: ParseInt_def itoa_def parse_uint0_digits Let_def)
next
  case False
  have n: "nat i < 2 ^ 64" using assms by (simp add: nat_less_iff)
  obtain c cs where "nat_digits (nat i) = c # cs" "c \<noteq> CHR ''-''" "c \<noteq> CHR ''+''"
    using hd_nat_digits_no_sign[of "nat i"] nat_digits_not_Nil[of "nat i"] by (cases "nat_digits (nat i)") auto
  with parse_uint0_digits[OF n, of "itoa i"] False assms show ?thesis by (simp add: ParseInt_def itoa_def Let_def)
qed

end
