(* ===== verification/Cobra.thy ===== *)
theory Cobra
  imports Flags
begin

text \<open>
  Running a command line: the part of \<open>vendor/github.com/spf13/cobra\<close> that the two programs
  use. A program is a root command with commands below it, one level deep. Every command knows
  its flags, and the root has flags that all commands accept. The texts of help and usage, and
  the commands that cobra adds by itself (help, completion), are left out: \<open>Library\<close> says that
  one of them was asked for.
\<close>

section \<open>Commands\<close>

text \<open>What the code of a command is given: its path and usage line, and the arguments.\<close>

record invocation =
  iv_path :: string
  iv_use_line :: string
  iv_short :: string
  iv_args :: "string list"

text \<open>\<open>cc_run\<close> is the check of the arguments and then \<open>RunE\<close>, with the parsed flags; \<open>None\<close>
  is a command that cannot be run. A run that never returns is \<open>None\<close>, too.\<close>

record 's cobra_command =
  cc_use :: string
  cc_short :: string
  cc_flags :: flag_set
  cc_run :: "(invocation \<Rightarrow> flag_set \<Rightarrow> 's \<Rightarrow> (go_error option \<times> 's) option) option"

record 's program =
  pg_root :: "'s cobra_command"
  pg_persistent :: flag_set
  pg_commands :: "'s cobra_command list"
  pg_suggestions :: "string \<Rightarrow> string"

definition command_name :: "'s cobra_command \<Rightarrow> string" where
  "command_name c = before CHR '' '' (cc_use c)"

section \<open>Finding the command\<close>

text \<open>The arguments that are no flags and no values of flags, as far as this can be told
  before the command is known.\<close>

definition long_takes_value :: "flag_set \<Rightarrow> string \<Rightarrow> bool" where
  "long_takes_value fs s \<longleftrightarrow>
     has_prefix s ''--'' \<and> CHR ''='' \<notin> set s \<and>
     \<not> (case Lookup (drop 2 s) fs of None \<Rightarrow> False | Some fl \<Rightarrow> NoOptDefVal fl \<noteq> [])"

definition short_takes_value :: "flag_set \<Rightarrow> string \<Rightarrow> bool" where
  "short_takes_value fs s \<longleftrightarrow>
     has_prefix s ''-'' \<and> CHR ''='' \<notin> set s \<and> length s = 2 \<and>
     \<not> (case ShorthandLookup (s ! 1) fs of None \<Rightarrow> False | Some fl \<Rightarrow> NoOptDefVal fl \<noteq> [])"

fun stripFlags :: "flag_set \<Rightarrow> string list \<Rightarrow> string list" where
  "stripFlags fs [] = []"
| "stripFlags fs (s # args) =
     (if s = ''--'' then []
      else if long_takes_value fs s \<or> short_takes_value fs s then
        (case args of [] \<Rightarrow> [] | [_] \<Rightarrow> [] | _ # rest \<Rightarrow> stripFlags fs rest)
      else if s \<noteq> [] \<and> \<not> has_prefix s ''-'' then s # stripFlags fs args
      else stripFlags fs args)"

declare stripFlags.simps(2) [simp del]

text \<open>\<open>argsMinusFirstX\<close> is \<open>remove1\<close>: the first occurrence goes, even where it is the value of a
  flag. The result of \<open>Find\<close> is the command below the root, if one is named, and its arguments.\<close>

datatype 's found = Root "string list" | Below "'s cobra_command" "string list" | Added | Unknown go_error

definition library_commands :: "'s program \<Rightarrow> string list" where
  "library_commands p =
     (if pg_commands p = [] then [] else [''help'', ''completion'']) @ [''__complete'', ''__completeNoDesc'']"

definition root_flags :: "'s program \<Rightarrow> flag_set result" where
  "root_flags p = AddFlagSet (cc_flags (pg_root p)) (pg_persistent p)"

definition Find_command :: "'s program \<Rightarrow> flag_set \<Rightarrow> string list \<Rightarrow> 's found" where
  "Find_command p fs args =
     (case stripFlags fs args of
        [] \<Rightarrow> Root args
      | next # _ \<Rightarrow>
          (case find (\<lambda>c. command_name c = next) (pg_commands p) of
             Some c \<Rightarrow> Below c (remove1 next args)
           | None \<Rightarrow>
               if next \<in> set (library_commands p) then Added
               else if pg_commands p \<noteq> [] then
                 Unknown (Errorf ''unknown command %q for %q%s'' [next, command_name (pg_root p), pg_suggestions p next])
               else Root args))"

section \<open>Running it\<close>

datatype outcome = Helped | Library | Ended "go_error option"

text \<open>The flags of a command are its own, those of the root, and help.\<close>

definition merged_flags :: "'s cobra_command \<Rightarrow> flag_set \<Rightarrow> flag_set result" where
  "merged_flags c inherited =
     and_then (AddFlagSet (cc_flags c) inherited) (\<lambda>fs.
     if Lookup ''help'' fs = None then AddFlag fs (VarPF ''help'' ''h'' (BoolV False)) else Ok fs)"

definition use_line :: "string \<Rightarrow> 's cobra_command \<Rightarrow> flag_set \<Rightarrow> string" where
  "use_line parent c fs =
     (let line = (if parent = [] then cc_use c else parent @ '' '' @ cc_use c)
      in if list_ex (\<lambda>fl. \<not> fl_hidden fl) fs \<and> \<not> contains_str line ''[flags]'' then line @ '' [flags]'' else line)"

definition command_path :: "string \<Rightarrow> 's cobra_command \<Rightarrow> string" where
  "command_path parent c = (if parent = [] then command_name c else parent @ '' '' @ command_name c)"

definition execute :: "string \<Rightarrow> 's cobra_command \<Rightarrow> flag_set \<Rightarrow> string list \<Rightarrow> 's \<Rightarrow> (outcome \<times> 's) option" where
  "execute parent c inherited args s =
     (case and_then (merged_flags c inherited) (Parse_flags args) of
        Inl e \<Rightarrow> Some (if e = ErrHelp then Helped else Ended (Some e), s)
      | Inr (found, fs) \<Rightarrow>
          (case GetBool fs ''help'' of
             Inl e \<Rightarrow> Some (Ended (Some e), s)
           | Inr True \<Rightarrow> Some (Helped, s)
           | Inr False \<Rightarrow>
               (case cc_run c of
                  None \<Rightarrow> Some (Helped, s)
                | Some run \<Rightarrow>
                    map_option (\<lambda>(e, s). (Ended e, s))
                      (run \<lparr>iv_path = command_path parent c, iv_use_line = use_line parent c fs, iv_short = cc_short c,
                            iv_args = found\<rparr> fs s))))"

definition Execute :: "'s program \<Rightarrow> string list \<Rightarrow> 's \<Rightarrow> (outcome \<times> 's) option" where
  "Execute p args s =
     (case root_flags p of
        Inl e \<Rightarrow> Some (Ended (Some e), s)
      | Inr fs \<Rightarrow>
          (case Find_command p fs args of
             Unknown e \<Rightarrow> Some (Ended (Some e), s)
           | Added \<Rightarrow> Some (Library, s)
           | Root args \<Rightarrow> execute [] (pg_root p) (pg_persistent p) args s
           | Below c args \<Rightarrow> execute (command_name (pg_root p)) c (pg_persistent p) args s))"

section \<open>Lemmas\<close>

text \<open>Flag sets that can be declared: no name and no letter twice.\<close>

definition flags_ok :: "flag_set \<Rightarrow> bool" where
  "flags_ok fs \<longleftrightarrow>
     distinct (map fl_name fs) \<and> distinct (filter (\<lambda>s. s \<noteq> []) (map fl_shorthand fs)) \<and>
     list_all (\<lambda>fl. length (fl_shorthand fl) \<le> 1) fs"

lemma Lookup_None_iff: "Lookup n fs = None \<longleftrightarrow> n \<notin> fl_name ` set fs"
  by (auto simp: Lookup_def find_None_iff)

lemma Lookup_append: "Lookup n (fs @ gs) = (case Lookup n fs of None \<Rightarrow> Lookup n gs | Some fl \<Rightarrow> Some fl)"
  by (induction fs) (auto simp: Lookup_def)

lemma ShorthandLookup_None_iff: "ShorthandLookup c fs = None \<longleftrightarrow> [c] \<notin> fl_shorthand ` set fs"
  by (force simp: ShorthandLookup_def find_None_iff)

lemma AddFlag_Ok_iff:
  "AddFlag fs fl = Ok fs' \<longleftrightarrow>
     fl_name fl \<notin> fl_name ` set fs \<and> length (fl_shorthand fl) \<le> 1 \<and>
     (fl_shorthand fl = [] \<or> fl_shorthand fl \<notin> fl_shorthand ` set fs) \<and> fs' = fs @ [fl]"
  by (cases "fl_shorthand fl") (auto simp: AddFlag_def Lookup_None_iff ShorthandLookup_None_iff)

lemma flags_ok_AddFlag: "flags_ok (fs @ [fl]) \<Longrightarrow> AddFlag fs fl = Ok (fs @ [fl])"
  by (auto simp: AddFlag_Ok_iff flags_ok_def)

lemma flags_ok_appendD: "flags_ok (fs @ gs) \<Longrightarrow> flags_ok fs"
  by (simp add: flags_ok_def)

lemma declare_flags_ok: "flags_ok (fs @ gs) \<Longrightarrow> declare_flags fs gs = Ok (fs @ gs)"
  unfolding declare_flags_def
proof (induction gs arbitrary: fs)
  case Nil
  then show ?case by simp
next
  case (Cons g gs)
  then have ok: "flags_ok ((fs @ [g]) @ gs)" by simp
  from flags_ok_AddFlag[OF flags_ok_appendD[OF this]] Cons.IH[OF ok] show ?case by simp
qed

text \<open>The flags of a second set that the first does not have are added.\<close>

definition new_flags :: "flag_set \<Rightarrow> flag_set \<Rightarrow> flag_set" where
  "new_flags fs gs = filter (\<lambda>g. fl_name g \<notin> fl_name ` set fs) gs"

lemma AddFlagSet_ok:
  assumes "distinct (map fl_name gs)" and "flags_ok (fs @ new_flags fs gs)"
  shows "AddFlagSet fs gs = Ok (fs @ new_flags fs gs)"
  using assms unfolding AddFlagSet_def
proof (induction gs arbitrary: fs)
  case Nil
  then show ?case by (simp add: new_flags_def)
next
  case (Cons g gs)
  show ?case
  proof (cases "fl_name g \<in> fl_name ` set fs")
    case True
    then have "new_flags fs (g # gs) = new_flags fs gs" by (simp add: new_flags_def)
    with Cons True show ?thesis by (simp add: Lookup_None_iff)
  next
    case False
    then have split: "new_flags fs (g # gs) = g # new_flags (fs @ [g]) gs"
    proof -
      have "fl_name h \<noteq> fl_name g" if "h \<in> set gs" for h using Cons.prems(1) that by (metis distinct.simps(2) imageI list.set_map list.simps(9))
      then have "filter (\<lambda>h. fl_name h \<notin> fl_name ` set fs) gs = filter (\<lambda>h. fl_name h \<notin> fl_name ` set (fs @ [g])) gs"
        by (intro filter_cong) auto
      with False show ?thesis by (simp add: new_flags_def)
    qed
    then have ok: "flags_ok ((fs @ [g]) @ new_flags (fs @ [g]) gs)" using Cons.prems(2) by simp
    from flags_ok_AddFlag[OF flags_ok_appendD[OF this]] Cons.IH[OF _ ok] Cons.prems(1) False split show ?thesis
      by (simp add: Lookup_None_iff)
  qed
qed

lemma flags_ok_distinct: "flags_ok fs \<Longrightarrow> names_distinct fs"
  by (simp add: flags_ok_def names_distinct_def)

lemma AddFlag_flags_ok: "flags_ok fs \<Longrightarrow> AddFlag fs fl = Ok fs' \<Longrightarrow> flags_ok fs'"
  by (auto simp: AddFlag_Ok_iff flags_ok_def)

lemma AddFlagSet_flags_ok: "flags_ok fs \<Longrightarrow> AddFlagSet fs gs = Ok fs' \<Longrightarrow> flags_ok fs'"
  unfolding AddFlagSet_def
  by (rule fold_res_invariant[where P = flags_ok, rotated 1]) (auto dest: AddFlag_flags_ok split: if_splits)

text \<open>A run of a command that changes anything, or reports the error of the command's own code,
  is one whose flags were parsed and that did not ask for help.\<close>

lemma execute_ran:
  assumes "execute parent c inherited args s = Some (out, s')" and "s' \<noteq> s"
  obtains fs0 found fs run e where "merged_flags c inherited = Ok fs0" and "Parse_flags args fs0 = Ok (found, fs)"
    and "GetBool fs ''help'' = Ok False" and "cc_run c = Some run" and "out = Ended e"
    and "run \<lparr>iv_path = command_path parent c, iv_use_line = use_line parent c fs, iv_short = cc_short c, iv_args = found\<rparr> fs s = Some (e, s')"
  using assms
  by (auto simp: execute_def and_then_def split: sum.splits prod.splits bool.splits option.splits if_splits)

lemma execute_parse_error:
  assumes "merged_flags c inherited = Ok fs" and "Parse_flags args fs = Err e" and "e \<noteq> ErrHelp"
  shows "execute parent c inherited args s = Some (Ended (Some e), s)"
  using assms by (simp add: execute_def)

lemma execute_run:
  assumes "merged_flags c inherited = Ok fs0" and "Parse_flags args fs0 = Ok (found, fs)"
    and "GetBool fs ''help'' = Ok False" and "cc_run c = Some run"
  shows "execute parent c inherited args s =
    map_option (\<lambda>(e, s). (Ended e, s))
      (run \<lparr>iv_path = command_path parent c, iv_use_line = use_line parent c fs, iv_short = cc_short c, iv_args = found\<rparr> fs s)"
  using assms by (simp add: execute_def)

end
