(* ===== verification/CommandLine.thy ===== *)
theory CommandLine
  imports Commands Cobra
begin

text \<open>
  The two programs, \<open>kubectl-build\<close> and \<open>kubectl-buildkit\<close>: the flags that the commands of
  \<open>pkg/cmd\<close> declare, what their variables hold after the command line is parsed, the tree of
  commands, and the exit code.
\<close>

section \<open>Flags for the Kubernetes client (cli-runtime)\<close>

text \<open>\<open>NewConfigFlags\<close> and \<open>AddFlags\<close>; the user name and password have no variable, so they
  get no flags.\<close>

definition config_flags :: "string \<Rightarrow> flag list" where
  "config_flags cacheDir =
     [VarPF ''kubeconfig'' [] (StringV []), VarPF ''cache-dir'' [] (StringV cacheDir),
      VarPF ''client-certificate'' [] (StringV []), VarPF ''client-key'' [] (StringV []), VarPF ''token'' [] (StringV []),
      VarPF ''as'' [] (StringV []), VarPF ''as-uid'' [] (StringV []), VarPF ''as-group'' [] (StringArrayV False []),
      VarPF ''cluster'' [] (StringV []), VarPF ''user'' [] (StringV []), VarPF ''namespace'' ''n'' (StringV []),
      VarPF ''context'' [] (StringV []), VarPF ''server'' ''s'' (StringV []), VarPF ''tls-server-name'' [] (StringV []),
      VarPF ''insecure-skip-tls-verify'' [] (BoolV False), VarPF ''certificate-authority'' [] (StringV []),
      VarPF ''request-timeout'' [] (StringV ''0'')]"

text \<open>The variables of the flags, by name.\<close>

definition config_values :: "flag_set \<Rightarrow> (string \<times> flag_value option) list" where
  "config_values fs = map (\<lambda>fl. (fl_name fl, map_option fl_value (Lookup (fl_name fl) fs))) (config_flags [])"

section \<open>The environment of a program\<close>

text \<open>\<open>cli_client\<close> is \<open>ToRawKubeConfigLoader\<close> of the variables, with the \<open>RawConfig\<close> of the
  result.\<close>

record 'w cli_env =
  cli_cmd :: "'w cmd_env"
  cli_cache_dir :: string
  cli_client :: "(string \<times> flag_value option) list \<Rightarrow> kube_client_config \<times> (raw_config \<times> go_error option)"
  cli_suggestions :: "string \<Rightarrow> string"

text \<open>What is printed on the standard output, with the table of ls before it is aligned; and
  the machine and the cluster.\<close>

datatype printed = Text string | Table "string list list"

type_synonym 'w terminal = "printed list \<times> machine \<times> 'w"

definition no_kube_options :: kube_options where
  "no_kube_options =
     \<lparr>ko_raw = \<lparr>rc_contexts = Map.empty, rc_current = []\<rparr>, ko_namespace = [], ko_context = [], ko_cluster = [],
      ko_auth_info = [], ko_resulting = None\<rparr>"

text \<open>What \<open>RunE\<close> is called with: the values \<open>vs\<close> are those of the options' own flags.\<close>

definition command_line_of :: "'w cli_env \<Rightarrow> (string \<times> flag_value option) list \<Rightarrow> invocation \<Rightarrow> flag_set \<Rightarrow> command_line" where
  "command_line_of E vs iv fs =
     \<lparr>cl_path = iv_path iv, cl_use_line = iv_use_line iv, cl_short = iv_short iv, cl_args = iv_args iv,
      cl_flag = GetString fs, cl_raw = snd (cli_client E vs), cl_kube = fst (cli_client E vs), cl_options = no_kube_options\<rparr>"

section \<open>build (build.go)\<close>

definition hidden_flag :: "string \<Rightarrow> string \<Rightarrow> flag_value \<Rightarrow> flag" where
  "hidden_flag name shorthand v = (VarPF name shorthand v)\<lparr>fl_hidden := True\<rparr>"

definition common_build_flags :: "flag list" where
  "common_build_flags =
     [VarPF ''no-cache'' [] (BoolV False), VarPF ''progress'' [] (StringV ''auto''), VarPF ''pull'' [] (BoolV False),
      VarPF ''registry-secret'' [] (StringV [])]"

definition ignored_flags :: "flag list" where
  "ignored_flags =
     [hidden_flag ''ulimit'' [] (StringV []), hidden_flag ''security-opt'' [] (StringSliceV False []),
      hidden_flag ''compress'' [] (BoolV False), hidden_flag ''memory'' ''m'' (StringV []),
      hidden_flag ''memory-swap'' [] (StringV []), hidden_flag ''shm-size'' [] (StringV []),
      hidden_flag ''cpu-shares'' ''c'' (Int64V 0), hidden_flag ''cpu-period'' [] (Int64V 0),
      hidden_flag ''cpu-quota'' [] (Int64V 0), hidden_flag ''cpuset-cpus'' [] (StringV []),
      hidden_flag ''cpuset-mems'' [] (StringV []), hidden_flag ''cgroup-parent'' [] (StringV []),
      hidden_flag ''isolation'' [] (StringV []), hidden_flag ''rm'' [] (BoolV True), hidden_flag ''force-rm'' [] (BoolV False)]"

definition build_flag_list :: "(string \<rightharpoonup> string) \<Rightarrow> string \<Rightarrow> flag list" where
  "build_flag_list lookup_env cacheDir =
     [VarPF ''push'' [] (BoolV False), VarPF ''tag'' ''t'' (StringArrayV False []),
      VarPF ''build-arg'' [] (StringArrayV False []), VarPF ''file'' ''f'' (StringV []),
      VarPF ''label'' [] (StringArrayV False []), VarPF ''cache-from'' [] (StringArrayV False []),
      VarPF ''cache-to'' [] (StringArrayV False []), VarPF ''target'' [] (StringV []),
      VarPF ''allow'' [] (StringSliceV False []), VarPF ''frontend'' [] (StringV []),
      hidden_flag ''quiet'' ''q'' (BoolV False), VarPF ''network'' [] (StringV ''default''),
      VarPF ''add-host'' [] (StringSliceV False []), VarPF ''iidfile'' [] (StringV []),
      hidden_flag ''squash'' [] (BoolV False)] @ ignored_flags @
     [VarPF ''platform'' [] (StringArrayV False (platforms_default lookup_env)),
      VarPF ''secret'' [] (StringArrayV False []), VarPF ''ssh'' [] (StringArrayV False []),
      VarPF ''output'' ''o'' (StringArrayV False [])] @ common_build_flags @ config_flags cacheDir"

text \<open>The variables that the flags are bound to.\<close>

definition build_options_of :: "flag_set \<Rightarrow> build_options" where
  "build_options_of fs =
     \<lparr>bo_context_path = [], bo_dockerfile = string_var fs ''file'', bo_tags = list_var fs ''tag'',
      bo_labels = list_var fs ''label'', bo_build_args = list_var fs ''build-arg'',
      bo_cache_from = list_var fs ''cache-from'', bo_cache_to = list_var fs ''cache-to'',
      bo_target = string_var fs ''target'', bo_platforms = list_var fs ''platform'', bo_secrets = list_var fs ''secret'',
      bo_ssh = list_var fs ''ssh'', bo_outputs = list_var fs ''output'', bo_image_id_file = string_var fs ''iidfile'',
      bo_extra_hosts = list_var fs ''add-host'', bo_network = string_var fs ''network'', bo_squash = bool_var fs ''squash'',
      bo_quiet = bool_var fs ''quiet'', bo_allow = list_var fs ''allow'', bo_frontend = string_var fs ''frontend'',
      bo_builder = [], bo_no_cache = Some (bool_var fs ''no-cache''), bo_progress = string_var fs ''progress'',
      bo_pull = Some (bool_var fs ''pull''), bo_push = bool_var fs ''push'', bo_load = False,
      bo_secret_name = string_var fs ''registry-secret''\<rparr>"

definition run_build_command ::
  "'w cli_env \<Rightarrow> invocation \<Rightarrow> flag_set \<Rightarrow> 'w terminal \<Rightarrow> (go_error option \<times> 'w terminal) option" where
  "run_build_command E iv fs = (\<lambda>(out, m, w).
     map_option (\<lambda>(e, m, w). (e, out, m, w))
       (buildCmd (cli_cmd E) (command_line_of E (config_values fs) iv fs) (string_var fs ''builder'') (build_options_of fs) (m, w)))"

definition build_command :: "'w cli_env \<Rightarrow> flag_set \<Rightarrow> 'w terminal cobra_command" where
  "build_command E fs =
     \<lparr>cc_use = ''build [OPTIONS] PATH | URL | -'', cc_short = ''Start a build'', cc_flags = fs,
      cc_run = Some (run_build_command E)\<rparr>"

section \<open>create (create.go)\<close>

definition create_flag_list :: "flag list" where
  "create_flag_list =
     [VarPF ''buildkitd-flags'' [] (StringV []), VarPF ''config'' [] (StringV []),
      VarPF ''platform'' [] (StringArrayV False []), VarPF ''progress'' [] (StringV ''auto''), VarPF ''image'' [] (StringV []),
      VarPF ''runtime'' [] (StringV ''auto''), VarPF ''containerd-sock'' [] (StringV DefaultContainerdSockPath),
      VarPF ''containerd-namespace'' [] (StringV DefaultContainerdNamespace),
      VarPF ''docker-sock'' [] (StringV DefaultDockerSockPath), VarPF ''replicas'' [] (IntV 1),
      VarPF ''rootless'' [] (BoolV False), VarPF ''loadbalance'' [] (StringV ''random''),
      VarPF ''worker'' [] (StringV ''auto''), VarPF ''custom-config'' [] (StringV []),
      VarPF ''env'' [] (StringArrayV False [])]"

definition create_options_of :: "flag_set \<Rightarrow> create_options" where
  "create_options_of fs =
     \<lparr>co_name = [], co_image = string_var fs ''image'', co_runtime = string_var fs ''runtime'',
      co_containerd_sock = string_var fs ''containerd-sock'', co_containerd_namespace = string_var fs ''containerd-namespace'',
      co_docker_sock = string_var fs ''docker-sock'', co_replicas = int_var fs ''replicas'', co_rootless = bool_var fs ''rootless'',
      co_loadbalance = string_var fs ''loadbalance'', co_worker = string_var fs ''worker'', co_driver = [],
      co_platform = list_var fs ''platform'', co_flags = string_var fs ''buildkitd-flags'',
      co_config_file = string_var fs ''config'', co_progress = string_var fs ''progress'',
      co_custom_config = string_var fs ''custom-config'', co_envs = list_var fs ''env''\<rparr>"

definition run_create_command ::
  "'w cli_env \<Rightarrow> invocation \<Rightarrow> flag_set \<Rightarrow> 'w terminal \<Rightarrow> (go_error option \<times> 'w terminal) option" where
  "run_create_command E iv fs = (\<lambda>(out, m, w).
     map_option (\<lambda>(r, w). case r of Inl e \<Rightarrow> (Some e, out, m, w) | Inr line \<Rightarrow> (None, out @ [Text line], m, w))
       (createCmd (cli_cmd E) (command_line_of E (config_values fs) iv fs) (create_options_of fs) w))"

definition create_command :: "'w cli_env \<Rightarrow> flag_set \<Rightarrow> 'w terminal cobra_command" where
  "create_command E fs =
     \<lparr>cc_use = ''create [OPTIONS] [NAME]'', cc_short = ''Create a new builder instance'', cc_flags = fs,
      cc_run = Some (run_create_command E)\<rparr>"

section \<open>rm, ls and version\<close>

definition run_rm_command ::
  "'w cli_env \<Rightarrow> invocation \<Rightarrow> flag_set \<Rightarrow> 'w terminal \<Rightarrow> (go_error option \<times> 'w terminal) option" where
  "run_rm_command E iv fs = (\<lambda>(out, m, w).
     case rmCmd (cli_cmd E) (command_line_of E (config_values fs) iv fs) w of (r, w) \<Rightarrow> Some (err_of r, out, m, w))"

definition rm_command :: "'w cli_env \<Rightarrow> flag_set \<Rightarrow> 'w terminal cobra_command" where
  "rm_command E fs =
     \<lparr>cc_use = ''rm [NAMES...]'', cc_short = ''Remove one or more builder instances'', cc_flags = fs,
      cc_run = Some (run_rm_command E)\<rparr>"

definition run_ls_command ::
  "'w cli_env \<Rightarrow> invocation \<Rightarrow> flag_set \<Rightarrow> 'w terminal \<Rightarrow> (go_error option \<times> 'w terminal) option" where
  "run_ls_command E iv fs = (\<lambda>(out, m, w).
     case lsCmd (cli_cmd E) (command_line_of E (config_values fs) iv fs) w of
       (Inl e, w) \<Rightarrow> Some (Some e, out, m, w)
     | (Inr rows, w) \<Rightarrow> Some (None, out @ [Table rows], m, w))"

definition ls_command :: "'w cli_env \<Rightarrow> flag_set \<Rightarrow> 'w terminal cobra_command" where
  "ls_command E fs =
     \<lparr>cc_use = ''ls'', cc_short = ''List builder instances'', cc_flags = fs, cc_run = Some (run_ls_command E)\<rparr>"

text \<open>The variables of version belong to no flag of the command, so they keep their defaults.\<close>

definition run_version_command ::
  "'w cli_env \<Rightarrow> invocation \<Rightarrow> flag_set \<Rightarrow> 'w terminal \<Rightarrow> (go_error option \<times> 'w terminal) option" where
  "run_version_command E iv fs = (\<lambda>(out, m, w).
     case versionCmd (cli_cmd E) (command_line_of E (config_values (config_flags (cli_cache_dir E))) iv fs)
            (string_var fs ''builder'') w of
       (Inl e, w) \<Rightarrow> Some (Some e, out, m, w)
     | (Inr text, w) \<Rightarrow> Some (None, out @ [Text text], m, w))"

definition version_command :: "'w cli_env \<Rightarrow> 'w terminal cobra_command" where
  "version_command E =
     \<lparr>cc_use = ''version'', cc_short = ''Show client and builder version information '', cc_flags = [],
      cc_run = Some (run_version_command E)\<rparr>"

section \<open>The programs (root.go and cmd/)\<close>

definition rootFlags :: "'w cli_env \<Rightarrow> flag_set result" where
  "rootFlags E =
     declare_flags [] (VarPF ''builder'' [] (StringV (lookup_str (cx_lookup_env (cli_cmd E)) ''BUILDX_BUILDER''))
       # config_flags (cli_cache_dir E))"

definition build_flags_declared :: "'w cli_env \<Rightarrow> flag_set result" where
  "build_flags_declared E = declare_flags [] (build_flag_list (cx_lookup_env (cli_cmd E)) (cli_cache_dir E))"

definition NewRootBuildCmd :: "'w cli_env \<Rightarrow> 'w terminal program result" where
  "NewRootBuildCmd E =
     and_then (build_flags_declared E) (\<lambda>fs.
     and_then (rootFlags E) (\<lambda>pfs.
     Ok \<lparr>pg_root = build_command E fs, pg_persistent = pfs, pg_commands = [], pg_suggestions = cli_suggestions E\<rparr>))"

definition addCommands :: "'w cli_env \<Rightarrow> 'w terminal cobra_command list result" where
  "addCommands E =
     and_then (build_flags_declared E) (\<lambda>build_fs.
     and_then (declare_flags [] create_flag_list) (\<lambda>create_fs.
     and_then (declare_flags [] (config_flags (cli_cache_dir E))) (\<lambda>kube_fs.
     Ok [build_command E build_fs, create_command E create_fs, rm_command E kube_fs, ls_command E kube_fs, version_command E])))"

definition NewRootCmd :: "'w cli_env \<Rightarrow> 'w terminal program result" where
  "NewRootCmd E =
     and_then (rootFlags E) (\<lambda>pfs.
     and_then (addCommands E) (\<lambda>cmds.
     Ok \<lparr>pg_root = \<lparr>cc_use = ''buildkit'', cc_short = ''Interact with buildkit on a kubernetes cluster'', cc_flags = [], cc_run = None\<rparr>,
         pg_persistent = pfs, pg_commands = cmds, pg_suggestions = cli_suggestions E\<rparr>))"

text \<open>\<open>main\<close>: the exit code of an error is 1, that of a panic is 2.\<close>

definition exit_code :: "outcome \<Rightarrow> nat" where
  "exit_code out =
     (case out of
        Ended (Some e) \<Rightarrow> (case e of Panic _ \<Rightarrow> 2 | _ \<Rightarrow> 1)
      | _ \<Rightarrow> 0)"

definition run_program :: "'s program result \<Rightarrow> string list \<Rightarrow> 's \<Rightarrow> (outcome \<times> 's) option" where
  "run_program p args s = (case p of Inl e \<Rightarrow> Some (Ended (Some e), s) | Inr p \<Rightarrow> Execute p args s)"

definition main_build :: "'w cli_env \<Rightarrow> string list \<Rightarrow> 'w terminal \<Rightarrow> (nat \<times> 'w terminal) option" where
  "main_build E args s = map_option (\<lambda>(out, s). (exit_code out, s)) (run_program (NewRootBuildCmd E) args s)"

definition main_buildkit :: "'w cli_env \<Rightarrow> string list \<Rightarrow> 'w terminal \<Rightarrow> (nat \<times> 'w terminal) option" where
  "main_buildkit E args s = map_option (\<lambda>(out, s). (exit_code out, s)) (run_program (NewRootCmd E) args s)"

section \<open>Lemmas\<close>

lemmas flag_defs = VarPF_def hidden_flag_def

lemma flags_ok_names: "map fl_name fs = map fl_name gs \<Longrightarrow> map fl_shorthand fs = map fl_shorthand gs \<Longrightarrow> flags_ok fs = flags_ok gs"
proof -
  assume n: "map fl_name fs = map fl_name gs" "map fl_shorthand fs = map fl_shorthand gs"
  have "list_all (\<lambda>fl. length (fl_shorthand fl) \<le> 1) hs \<longleftrightarrow> list_all (\<lambda>s. length s \<le> 1) (map fl_shorthand hs)" for hs :: flag_set
    by (simp add: list.pred_map comp_def)
  with n show ?thesis by (simp add: flags_ok_def)
qed

definition root_flag_list :: "(string \<rightharpoonup> string) \<Rightarrow> string \<Rightarrow> flag list" where
  "root_flag_list lookup_env cacheDir =
     VarPF ''builder'' [] (StringV (lookup_str lookup_env ''BUILDX_BUILDER'')) # config_flags cacheDir"

definition help_flag :: flag where
  "help_flag = VarPF ''help'' ''h'' (BoolV False)"

definition builder_flag :: "(string \<rightharpoonup> string) \<Rightarrow> flag" where
  "builder_flag lookup_env = VarPF ''builder'' [] (StringV (lookup_str lookup_env ''BUILDX_BUILDER''))"

lemma root_flag_list_eq: "root_flag_list env c = builder_flag env # config_flags c"
  by (simp add: root_flag_list_def builder_flag_def)

lemma new_root_flags:
  "new_flags (build_flag_list env c) (root_flag_list env c) = [builder_flag env]"
  "new_flags create_flag_list (root_flag_list env c) = root_flag_list env c"
  "new_flags (config_flags c) (root_flag_list env c) = [builder_flag env]"
  "new_flags [] (root_flag_list env c) = root_flag_list env c"
  by (simp_all add: new_flags_def build_flag_list_def create_flag_list_def root_flag_list_def config_flags_def flag_defs
      ignored_flags_def common_build_flags_def builder_flag_def)

lemma tables_ok:
  "flags_ok (build_flag_list Map.empty [] @ [builder_flag Map.empty, help_flag])"
  "flags_ok (create_flag_list @ root_flag_list Map.empty [] @ [help_flag])"
  "flags_ok (config_flags [] @ [builder_flag Map.empty, help_flag])"
  "flags_ok (root_flag_list Map.empty [] @ [help_flag])"
  by code_simp+

lemma merged_ok:
  "flags_ok (build_flag_list env c @ [builder_flag env, help_flag])"
  "flags_ok (create_flag_list @ root_flag_list env c @ [help_flag])"
  "flags_ok (config_flags c @ [builder_flag env, help_flag])"
  "flags_ok (root_flag_list env c @ [help_flag])"
proof -
  note defs = build_flag_list_def config_flags_def root_flag_list_def builder_flag_def VarPF_def
  have "flags_ok (build_flag_list env c @ [builder_flag env, help_flag]) = flags_ok (build_flag_list Map.empty [] @ [builder_flag Map.empty, help_flag])"
    by (rule flags_ok_names) (simp_all add: defs)
  then show "flags_ok (build_flag_list env c @ [builder_flag env, help_flag])" using tables_ok(1) by simp
  have "flags_ok (create_flag_list @ root_flag_list env c @ [help_flag]) = flags_ok (create_flag_list @ root_flag_list Map.empty [] @ [help_flag])"
    by (rule flags_ok_names) (simp_all add: defs)
  then show "flags_ok (create_flag_list @ root_flag_list env c @ [help_flag])" using tables_ok(2) by simp
  have "flags_ok (config_flags c @ [builder_flag env, help_flag]) = flags_ok (config_flags [] @ [builder_flag Map.empty, help_flag])"
    by (rule flags_ok_names) (simp_all add: defs)
  then show "flags_ok (config_flags c @ [builder_flag env, help_flag])" using tables_ok(3) by simp
  have "flags_ok (root_flag_list env c @ [help_flag]) = flags_ok (root_flag_list Map.empty [] @ [help_flag])"
    by (rule flags_ok_names) (simp_all add: defs)
  then show "flags_ok (root_flag_list env c @ [help_flag])" using tables_ok(4) by simp
qed

lemma declared:
  "build_flags_declared E = Ok (build_flag_list (cx_lookup_env (cli_cmd E)) (cli_cache_dir E))"
  "rootFlags E = Ok (root_flag_list (cx_lookup_env (cli_cmd E)) (cli_cache_dir E))"
  "declare_flags [] create_flag_list = Ok create_flag_list"
  "declare_flags [] (config_flags c) = Ok (config_flags c)"
proof -
  show "build_flags_declared E = Ok (build_flag_list (cx_lookup_env (cli_cmd E)) (cli_cache_dir E))"
    using declare_flags_ok[of "[]"] flags_ok_appendD[OF merged_ok(1)] by (simp add: build_flags_declared_def)
  show "rootFlags E = Ok (root_flag_list (cx_lookup_env (cli_cmd E)) (cli_cache_dir E))"
    using declare_flags_ok[of "[]"] flags_ok_appendD[OF merged_ok(4)] by (simp add: rootFlags_def root_flag_list_def)
  show "declare_flags [] create_flag_list = Ok create_flag_list"
    using declare_flags_ok[of "[]"] flags_ok_appendD[OF merged_ok(2)] by simp
  show "declare_flags [] (config_flags c) = Ok (config_flags c)"
    using declare_flags_ok[of "[]"] flags_ok_appendD[OF merged_ok(3)] by simp
qed

lemma distinct_root: "distinct (map fl_name (root_flag_list env c))"
  using flags_ok_appendD[OF merged_ok(4)] by (simp add: flags_ok_def)

lemma merged_flags_eq:
  assumes "flags_ok (cc_flags cmd @ new_flags (cc_flags cmd) (root_flag_list env c) @ [help_flag])"
  shows "merged_flags cmd (root_flag_list env c) = Ok (cc_flags cmd @ new_flags (cc_flags cmd) (root_flag_list env c) @ [help_flag])"
proof -
  let ?fs = "cc_flags cmd @ new_flags (cc_flags cmd) (root_flag_list env c)"
  from assms have "flags_ok ?fs" using flags_ok_appendD[of ?fs "[help_flag]"] by simp
  from AddFlagSet_ok[OF distinct_root this] have add: "AddFlagSet (cc_flags cmd) (root_flag_list env c) = Ok ?fs" .
  have "Lookup ''help'' ?fs = None" using assms by (auto simp: Lookup_None_iff flags_ok_def help_flag_def VarPF_def)
  moreover have "AddFlag ?fs help_flag = Ok (?fs @ [help_flag])" using flags_ok_AddFlag[of ?fs help_flag] assms by simp
  ultimately show ?thesis using add by (simp add: merged_flags_def help_flag_def)
qed

text \<open>The flags of each command when the command line is parsed.\<close>

lemma merged_commands:
  "merged_flags (build_command E (build_flag_list env c)) (root_flag_list env c) = Ok (build_flag_list env c @ [builder_flag env, help_flag])"
  "merged_flags (create_command E create_flag_list) (root_flag_list env c) = Ok (create_flag_list @ root_flag_list env c @ [help_flag])"
  "merged_flags (rm_command E (config_flags c)) (root_flag_list env c) = Ok (config_flags c @ [builder_flag env, help_flag])"
  "merged_flags (ls_command E (config_flags c)) (root_flag_list env c) = Ok (config_flags c @ [builder_flag env, help_flag])"
  "merged_flags (version_command E) (root_flag_list env c) = Ok (root_flag_list env c @ [help_flag])"
  using merged_flags_eq[of "build_command E (build_flag_list env c)" env c] merged_flags_eq[of "create_command E create_flag_list" env c]
    merged_flags_eq[of "rm_command E (config_flags c)" env c] merged_flags_eq[of "ls_command E (config_flags c)" env c]
    merged_flags_eq[of "version_command E" env c] merged_ok(1,2,4)[of env c] merged_ok(3)[of c env]
  by (simp_all add: build_command_def create_command_def rm_command_def ls_command_def version_command_def new_root_flags)

text \<open>The programs, when they have started.\<close>

definition root_command :: "'w terminal cobra_command" where
  "root_command = \<lparr>cc_use = ''buildkit'', cc_short = ''Interact with buildkit on a kubernetes cluster'', cc_flags = [], cc_run = None\<rparr>"

lemma programs:
  "NewRootBuildCmd E = Ok \<lparr>pg_root = build_command E (build_flag_list (cx_lookup_env (cli_cmd E)) (cli_cache_dir E)),
     pg_persistent = root_flag_list (cx_lookup_env (cli_cmd E)) (cli_cache_dir E), pg_commands = [],
     pg_suggestions = cli_suggestions E\<rparr>"
  "NewRootCmd E = Ok \<lparr>pg_root = root_command, pg_persistent = root_flag_list (cx_lookup_env (cli_cmd E)) (cli_cache_dir E),
     pg_commands = [build_command E (build_flag_list (cx_lookup_env (cli_cmd E)) (cli_cache_dir E)), create_command E create_flag_list,
       rm_command E (config_flags (cli_cache_dir E)), ls_command E (config_flags (cli_cache_dir E)), version_command E],
     pg_suggestions = cli_suggestions E\<rparr>"
  by (simp_all add: NewRootBuildCmd_def NewRootCmd_def addCommands_def declared root_command_def)

lemma command_names:
  "command_name root_command = ''buildkit''" "command_name (build_command E fs) = ''build''"
  "command_name (create_command E fs) = ''create''" "command_name (rm_command E fs) = ''rm''"
  "command_name (ls_command E fs) = ''ls''" "command_name (version_command E) = ''version''"
  by (simp_all add: command_name_def root_command_def build_command_def create_command_def rm_command_def ls_command_def version_command_def)

lemma stripFlags_word: "w \<noteq> [] \<Longrightarrow> hd w \<noteq> CHR ''-'' \<Longrightarrow> stripFlags fs (w # args) = w # stripFlags fs args"
  by (cases w) (auto simp: stripFlags.simps long_takes_value_def short_takes_value_def has_prefix_def)

lemma root_merged: "root_flags \<lparr>pg_root = root_command, pg_persistent = root_flag_list env c, pg_commands = cs, pg_suggestions = sg\<rparr>
    = Ok (root_flag_list env c)"
  using AddFlagSet_ok[OF distinct_root, of "[]" env c] flags_ok_appendD[OF merged_ok(4)[of env c]]
  by (simp add: root_flags_def root_command_def new_root_flags)

text \<open>A command of \<open>kubectl-buildkit\<close> that is named first.\<close>

lemma run_named:
  fixes E :: "'w cli_env"
  defines "root_fs \<equiv> root_flag_list (cx_lookup_env (cli_cmd E)) (cli_cache_dir E)"
  shows "run_program (NewRootCmd E) (''build'' # args) s =
      execute ''buildkit'' (build_command E (build_flag_list (cx_lookup_env (cli_cmd E)) (cli_cache_dir E))) root_fs args s"
    and "run_program (NewRootCmd E) (''create'' # args) s = execute ''buildkit'' (create_command E create_flag_list) root_fs args s"
    and "run_program (NewRootCmd E) (''rm'' # args) s = execute ''buildkit'' (rm_command E (config_flags (cli_cache_dir E))) root_fs args s"
    and "run_program (NewRootCmd E) (''ls'' # args) s = execute ''buildkit'' (ls_command E (config_flags (cli_cache_dir E))) root_fs args s"
    and "run_program (NewRootCmd E) (''version'' # args) s = execute ''buildkit'' (version_command E) root_fs args s"
  by (simp_all add: run_program_def programs Execute_def root_merged Find_command_def stripFlags_word command_names root_fs_def)

lemma run_build_program:
  "run_program (NewRootBuildCmd E) args s =
     (let root_fs = root_flag_list (cx_lookup_env (cli_cmd E)) (cli_cache_dir E);
          cmd = build_command E (build_flag_list (cx_lookup_env (cli_cmd E)) (cli_cache_dir E));
          words = stripFlags (build_flag_list (cx_lookup_env (cli_cmd E)) (cli_cache_dir E) @ [builder_flag (cx_lookup_env (cli_cmd E))]) args
      in if words \<noteq> [] \<and> hd words \<in> set [''__complete'', ''__completeNoDesc''] then Some (Library, s)
         else execute [] cmd root_fs args s)"
proof -
  let ?p = "\<lparr>pg_root = build_command E (build_flag_list (cx_lookup_env (cli_cmd E)) (cli_cache_dir E)),
     pg_persistent = root_flag_list (cx_lookup_env (cli_cmd E)) (cli_cache_dir E), pg_commands = [],
     pg_suggestions = cli_suggestions E\<rparr>"
  have "root_flags ?p = Ok (build_flag_list (cx_lookup_env (cli_cmd E)) (cli_cache_dir E) @ [builder_flag (cx_lookup_env (cli_cmd E))])"
    using AddFlagSet_ok[OF distinct_root, of "build_flag_list (cx_lookup_env (cli_cmd E)) (cli_cache_dir E)" "cx_lookup_env (cli_cmd E)" "cli_cache_dir E"]
      flags_ok_appendD[of "build_flag_list (cx_lookup_env (cli_cmd E)) (cli_cache_dir E) @ [builder_flag (cx_lookup_env (cli_cmd E))]" "[help_flag]"]
      merged_ok(1)[of "cx_lookup_env (cli_cmd E)" "cli_cache_dir E"]
    by (simp add: root_flags_def new_root_flags build_command_def)
  then show ?thesis
    by (auto simp: run_program_def programs Execute_def Find_command_def library_commands_def Let_def split: list.splits)
qed

end
