(* ===== verification/CommandLineSpec.thy ===== *)
theory CommandLineSpec
  imports CommandLine CommandSpec
begin

text \<open>
  What the two programs do with a command line: they start, they run a command only on a line
  that they understand, and a command gets the options that the line spells out.
\<close>

section \<open>The programs start\<close>

definition flags_of_build :: "'w cli_env \<Rightarrow> flag_set" where
  "flags_of_build E = build_flag_list (cx_lookup_env (cli_cmd E)) (cli_cache_dir E) @ [builder_flag (cx_lookup_env (cli_cmd E)), help_flag]"

definition flags_of_create :: "'w cli_env \<Rightarrow> flag_set" where
  "flags_of_create E = create_flag_list @ root_flag_list (cx_lookup_env (cli_cmd E)) (cli_cache_dir E) @ [help_flag]"

definition flags_of_version :: "'w cli_env \<Rightarrow> flag_set" where
  "flags_of_version E = root_flag_list (cx_lookup_env (cli_cmd E)) (cli_cache_dir E) @ [help_flag]"

lemmas flag_tables = build_flag_list_def create_flag_list_def root_flag_list_def config_flags_def ignored_flags_def common_build_flags_def
  builder_flag_def help_flag_def VarPF_def hidden_flag_def

lemma build_flag_values:
  "build_options_of (flags_of_build E) = default_build_options (cx_lookup_env (cli_cmd E))"
  by (simp add: build_options_of_def flags_of_build_def flag_tables Lookup_def string_var_def bool_var_def list_var_def
      default_build_options_def commonBuildFlags_def build_flags_def)

lemma create_flag_values: "create_options_of (flags_of_create E) = default_create_options"
  by (simp add: create_options_of_def flags_of_create_def flag_tables Lookup_def string_var_def bool_var_def list_var_def int_var_def
      default_create_options_def)

text \<open>
  C20: The programs start. The library panics when a flag or its letter is declared twice; no
  command declares one twice, neither by itself nor together with the flags of the root command
  and help. So both programs come up, each of their commands has a flag set in which every name
  and every letter stands for one flag, and before the command line is read the options of build
  and create hold the documented defaults.
\<close>

theorem programs_start:
  "\<exists>p q. NewRootBuildCmd E = Ok p \<and> NewRootCmd E = Ok q \<and>
     map command_name (pg_commands q) = [''build'', ''create'', ''rm'', ''ls'', ''version''] \<and>
     list_all (\<lambda>c. \<exists>fs. merged_flags c (pg_persistent q) = Ok fs \<and> flags_ok fs \<and> GetBool fs ''help'' = Ok False)
       (pg_root p # pg_commands q) \<and>
     (\<exists>fs. merged_flags (pg_root p) (pg_persistent p) = Ok fs \<and>
        build_options_of fs = default_build_options (cx_lookup_env (cli_cmd E))) \<and>
     (\<exists>fs. merged_flags (pg_commands q ! 1) (pg_persistent q) = Ok fs \<and> create_options_of fs = default_create_options)"
proof -
  let ?env = "cx_lookup_env (cli_cmd E)"
  let ?c = "cli_cache_dir E"
  have no_help: "GetBool (fs @ [help_flag]) ''help'' = Ok False" if "Lookup ''help'' fs = None" for fs
    using that by (simp add: GetBool_def getFlagType_def Lookup_append) (simp add: Lookup_def help_flag_def VarPF_def)
  have "Lookup ''help'' (build_flag_list ?env ?c @ [builder_flag ?env]) = None" "Lookup ''help'' (create_flag_list @ root_flag_list ?env ?c) = None"
    "Lookup ''help'' (config_flags ?c @ [builder_flag ?env]) = None" "Lookup ''help'' (root_flag_list ?env ?c) = None"
    by (simp_all add: Lookup_def flag_tables)
  note helps = this[THEN no_help]
  show ?thesis
    using merged_ok[where env = ?env and c = ?c] helps build_flag_values[of E] create_flag_values[of E]
    by (simp add: programs command_names merged_commands flags_of_build_def flags_of_create_def)
qed

section \<open>A command runs only on a line that is understood\<close>

text \<open>The values behind the Kubernetes configuration of a command: those of its flags, but for
  version its defaults.\<close>

definition client_values :: "'w cli_env \<Rightarrow> string \<Rightarrow> flag_set \<Rightarrow> (string \<times> flag_value option) list" where
  "client_values E name fs = (if name = ''version'' then config_values (config_flags (cli_cache_dir E)) else config_values fs)"

lemma buildCmd_changes:
  assumes "buildCmd C L rb bo s = Some (e, s')" and "s' \<noteq> s"
  shows "head_error L = None \<and> length (cl_args L) = 1"
  using assms by (auto simp: buildCmd_def args_error_def ExactArgs_def Let_def split: option.splits if_splits)

lemma other_changes:
  "createCmd C L co w = Some (r, w') \<Longrightarrow> w' \<noteq> w \<or> (\<exists>x. r = Ok x) \<Longrightarrow> head_error L = None"
  "rmCmd C L w = (ru, w') \<Longrightarrow> w' \<noteq> w \<Longrightarrow> head_error L = None"
  "lsCmd C L w = (rt, w') \<Longrightarrow> w' \<noteq> w \<or> (\<exists>x. rt = Ok x) \<Longrightarrow> head_error L = None \<and> cl_args L = []"
  "versionCmd C L rb w = (r, w') \<Longrightarrow> w' \<noteq> w \<or> (\<exists>x. r = Ok x) \<Longrightarrow> head_error L = None"
  by (auto simp: createCmd_def rmCmd_def lsCmd_def versionCmd_def args_error_def ExactArgs_def Let_def split: option.splits if_splits)

lemma command_line_sel:
  "cl_args (command_line_of E vs iv fs) = iv_args iv" "cl_flag (command_line_of E vs iv fs) = GetString fs"
  "cl_raw (command_line_of E vs iv fs) = snd (cli_client E vs)" "cl_kube (command_line_of E vs iv fs) = fst (cli_client E vs)"
  by (simp_all add: command_line_of_def)

text \<open>What a run that changes anything has got past.\<close>

definition got_through :: "'w cli_env \<Rightarrow> string \<Rightarrow> invocation \<Rightarrow> flag_set \<Rightarrow> bool" where
  "got_through E name iv fs \<longleftrightarrow>
     head_error (command_line_of E (client_values E name fs) iv fs) = None \<and>
     (name = ''build'' \<longrightarrow> length (iv_args iv) = 1) \<and> (name = ''ls'' \<longrightarrow> iv_args iv = [])"

lemma run_changes:
  fixes E :: "'w cli_env" and s :: "'w terminal"
  assumes "s' \<noteq> s"
  shows "run_build_command E iv fs s = Some (e, s') \<Longrightarrow> got_through E ''build'' iv fs"
    and "run_create_command E iv fs s = Some (e, s') \<Longrightarrow> got_through E ''create'' iv fs"
    and "run_rm_command E iv fs s = Some (e, s') \<Longrightarrow> got_through E ''rm'' iv fs"
    and "run_ls_command E iv fs s = Some (e, s') \<Longrightarrow> got_through E ''ls'' iv fs"
    and "run_version_command E iv fs s = Some (e, s') \<Longrightarrow> got_through E ''version'' iv fs"
proof -
  obtain out m w where s: "s = (out, m, w)" by (cases s) auto
  note defs = got_through_def client_values_def command_line_sel
  show "run_build_command E iv fs s = Some (e, s') \<Longrightarrow> got_through E ''build'' iv fs"
    using assms s by (auto simp: run_build_command_def defs dest: buildCmd_changes)
  show "run_create_command E iv fs s = Some (e, s') \<Longrightarrow> got_through E ''create'' iv fs"
  proof -
    assume "run_create_command E iv fs s = Some (e, s')"
    with s obtain r w' where r: "createCmd (cli_cmd E) (command_line_of E (config_values fs) iv fs) (create_options_of fs) w = Some (r, w')"
      "(case r of Inl e \<Rightarrow> (Some e, out, m, w') | Inr line \<Rightarrow> (None, out @ [Text line], m, w')) = (e, s')"
      by (auto simp: run_create_command_def)
    then have "w' \<noteq> w \<or> (\<exists>x. r = Ok x)" using assms s by (cases r) auto
    with other_changes(1)[OF r(1)] show ?thesis by (simp add: defs)
  qed
  show "run_rm_command E iv fs s = Some (e, s') \<Longrightarrow> got_through E ''rm'' iv fs"
    using assms s by (auto simp: run_rm_command_def defs dest: other_changes(2) split: prod.splits)
  show "run_ls_command E iv fs s = Some (e, s') \<Longrightarrow> got_through E ''ls'' iv fs"
    using assms s by (auto simp: run_ls_command_def defs command_line_sel dest: other_changes(3) split: prod.splits sum.splits)
  show "run_version_command E iv fs s = Some (e, s') \<Longrightarrow> got_through E ''version'' iv fs"
    using assms s by (auto simp: run_version_command_def defs dest: other_changes(4) split: prod.splits sum.splits)
qed

lemma execute_changes:
  fixes E :: "'w cli_env" and s :: "'w terminal"
  assumes "execute parent c inherited args s = Some (out, s')" and "s' \<noteq> s"
    and "\<And>iv fs e. run iv fs s = Some (e, s') \<Longrightarrow> got_through E (command_name c) iv fs" and "cc_run c = Some run"
  shows "\<exists>fs0 found fs iv. merged_flags c inherited = Ok fs0 \<and> Parse_flags args fs0 = Ok (found, fs) \<and>
    GetBool fs ''help'' = Ok False \<and> iv_args iv = found \<and> got_through E (command_name c) iv fs"
proof -
  from execute_ran[OF assms(1,2)] obtain fs0 found fs run' e where r: "merged_flags c inherited = Ok fs0" "Parse_flags args fs0 = Ok (found, fs)"
    "GetBool fs ''help'' = Ok False" "cc_run c = Some run'"
    "run' \<lparr>iv_path = command_path parent c, iv_use_line = use_line parent c fs, iv_short = cc_short c, iv_args = found\<rparr> fs s = Some (e, s')" .
  with assms(4) have "run \<lparr>iv_path = command_path parent c, iv_use_line = use_line parent c fs, iv_short = cc_short c, iv_args = found\<rparr> fs s = Some (e, s')"
    by simp
  from assms(3)[OF this] r(1-3) show ?thesis
    by (intro exI[of _ fs0] exI[of _ found] exI[of _ fs]
        exI[of _ "\<lparr>iv_path = command_path parent c, iv_use_line = use_line parent c fs, iv_short = cc_short c, iv_args = found\<rparr>"]) simp
qed

lemma execute_named_changes:
  fixes E :: "'w cli_env" and s :: "'w terminal"
  assumes "execute parent c inherited args s = Some (out, s')" and "s' \<noteq> s"
    and "c \<in> set [build_command E bfs, create_command E cfs, rm_command E kfs, ls_command E kfs, version_command E]"
  shows "\<exists>fs0 found fs iv. merged_flags c inherited = Ok fs0 \<and> Parse_flags args fs0 = Ok (found, fs) \<and>
    GetBool fs ''help'' = Ok False \<and> iv_args iv = found \<and> got_through E (command_name c) iv fs"
proof -
  note changes = run_changes[OF assms(2)]
  from assms(3) consider "c = build_command E bfs" | "c = create_command E cfs" | "c = rm_command E kfs" | "c = ls_command E kfs"
    | "c = version_command E" by auto
  then show ?thesis
  proof cases
    case 1
    then show ?thesis using execute_changes[OF assms(1,2), of "run_build_command E" E] changes(1) by (simp add: command_names) (simp add: build_command_def)
  next
    case 2
    then show ?thesis using execute_changes[OF assms(1,2), of "run_create_command E" E] changes(2) by (simp add: command_names) (simp add: create_command_def)
  next
    case 3
    then show ?thesis using execute_changes[OF assms(1,2), of "run_rm_command E" E] changes(3) by (simp add: command_names) (simp add: rm_command_def)
  next
    case 4
    then show ?thesis using execute_changes[OF assms(1,2), of "run_ls_command E" E] changes(4) by (simp add: command_names) (simp add: ls_command_def)
  next
    case 5
    then show ?thesis using execute_changes[OF assms(1,2), of "run_version_command E" E] changes(5) by (simp add: command_names) (simp add: version_command_def)
  qed
qed

lemma execute_root: "execute parent root_command (root_flag_list env c) args s = Some (out, s') \<Longrightarrow> s' = s"
proof (rule ccontr)
  assume "execute parent root_command (root_flag_list env c) args s = Some (out, s')" "s' \<noteq> s"
  then show False by (rule execute_ran) (simp add: root_command_def)
qed

lemma set_stripFlags: "set (stripFlags fs args) \<subseteq> set args"
proof (induction fs args rule: stripFlags.induct)
  case (2 fs s args)
  then show ?case by (subst stripFlags.simps(2)) (fastforce split: list.splits if_splits)
qed simp


section \<open>What the command line says\<close>

definition last_or :: "'a \<Rightarrow> 'a list \<Rightarrow> 'a" where
  "last_or d xs = (if xs = [] then d else last xs)"

text \<open>The options of create that a line spells out: of a text, a number or a truth value the last
  one, of a list all of them, and otherwise the default. \<open>ms\<close> is the meaning of the line.\<close>

definition create_written :: "((string \<times> string) + string) list \<Rightarrow> create_options" where
  "create_written ms =
     (let text = (\<lambda>n d. last_or d (settings n ms)) in
      \<lparr>co_name = [], co_image = text ''image'' [], co_runtime = text ''runtime'' ''auto'',
       co_containerd_sock = text ''containerd-sock'' DefaultContainerdSockPath,
       co_containerd_namespace = text ''containerd-namespace'' DefaultContainerdNamespace,
       co_docker_sock = text ''docker-sock'' DefaultDockerSockPath,
       co_replicas = (case ParseInt (text ''replicas'' ''1'') of Inr i \<Rightarrow> i | Inl _ \<Rightarrow> 1),
       co_rootless = parse_bool_or_false (text ''rootless'' ''false''), co_loadbalance = text ''loadbalance'' ''random'',
       co_worker = text ''worker'' ''auto'', co_driver = [], co_platform = settings ''platform'' ms,
       co_flags = text ''buildkitd-flags'' [], co_config_file = text ''config'' [],
       co_progress = text ''progress'' ''auto'', co_custom_config = text ''custom-config'' [], co_envs = settings ''env'' ms\<rparr>)"

lemma create_parsed:
  assumes "fold_res obey ([], flags_of_create E) ms = Ok (found, fs)"
  shows "create_options_of fs = create_written ms"
proof -
  note tables = flags_of_create_def flag_tables Lookup_def
  note words = parsed_string[OF assms]
  have word: "string_var fs n = last_or d (settings n ms)"
    if "map_option fl_value (Lookup n (flags_of_create E)) = Some (StringV d)" for n d
    using words[OF that] by (simp add: last_or_def)
  have lists: "list_var fs n = settings n ms"
    if "map_option fl_value (Lookup n (flags_of_create E)) = Some (StringArrayV False [])" for n
    using parsed_array[OF assms that] by simp
  have int: "int_var fs ''replicas'' = (case ParseInt (last_or ''1'' (settings ''replicas'' ms)) of Inr i \<Rightarrow> i | Inl _ \<Rightarrow> 1)"
  proof -
    have "digit_char 1 = CHR ''1''" by code_simp
    then have "itoa 1 = ''1''" by (simp add: itoa_def nat_digits.simps)
    then have "ParseInt ''1'' = Ok 1" using ParseInt_itoa[of 1] by simp
    then show ?thesis using parsed_int[OF assms, of "''replicas''" 1] by (simp add: tables last_or_def split: if_splits)
  qed
  have bool: "bool_var fs ''rootless'' = parse_bool_or_false (last_or ''false'' (settings ''rootless'' ms))"
    using parsed_bool[OF assms, of "''rootless''" False]
    by (simp add: tables last_or_def parse_bool_or_false_def split: if_splits) (simp add: parse_bool_def)
  have strings:
    "string_var fs ''image'' = last_or [] (settings ''image'' ms)" "string_var fs ''runtime'' = last_or ''auto'' (settings ''runtime'' ms)"
    "string_var fs ''containerd-sock'' = last_or DefaultContainerdSockPath (settings ''containerd-sock'' ms)"
    "string_var fs ''containerd-namespace'' = last_or DefaultContainerdNamespace (settings ''containerd-namespace'' ms)"
    "string_var fs ''docker-sock'' = last_or DefaultDockerSockPath (settings ''docker-sock'' ms)"
    "string_var fs ''loadbalance'' = last_or ''random'' (settings ''loadbalance'' ms)" "string_var fs ''worker'' = last_or ''auto'' (settings ''worker'' ms)"
    "string_var fs ''buildkitd-flags'' = last_or [] (settings ''buildkitd-flags'' ms)" "string_var fs ''config'' = last_or [] (settings ''config'' ms)"
    "string_var fs ''progress'' = last_or ''auto'' (settings ''progress'' ms)"
    "string_var fs ''custom-config'' = last_or [] (settings ''custom-config'' ms)"
    by (rule word; simp add: tables)+
  have arrays: "list_var fs ''platform'' = settings ''platform'' ms" "list_var fs ''env'' = settings ''env'' ms"
    by (rule lists; simp add: tables)+
  show ?thesis by (simp add: create_options_of_def create_written_def strings arrays int bool Let_def)
qed

lemma obey_error: "fold_res obey s ms = Err e \<Longrightarrow> (\<exists>e' msg args. e = Wrapf e' msg args) \<or> (\<exists>n. e = Errorf ''no such flag -%v'' [n])"
proof (induction ms arbitrary: s)
  case Nil
  then show ?case by simp
next
  case (Cons m ms)
  obtain found fs where s: "s = (found, fs)" by fastforce
  show ?case
  proof (cases "obey s m")
    case (Inr s')
    with Cons show ?thesis by simp
  next
    case (Inl e')
    with Cons.prems have "e' = e" by simp
    with Inl s show ?thesis
      by (auto simp: obey_def Set_flag_def and_then_Inl_iff split: sum.splits option.splits)
  qed
qed

lemma parsed_no_help:
  assumes "fold_res obey ([], fs @ [help_flag]) ms = Ok (found, fs')" and "Lookup ''help'' fs = None" and "settings ''help'' ms = []"
  shows "GetBool fs' ''help'' = Ok False"
proof -
  have "map_option fl_value (Lookup ''help'' (fs @ [help_flag])) = Some (BoolV False)"
    using assms(2) by (simp add: Lookup_append) (simp add: Lookup_def help_flag_def VarPF_def)
  from parsed_value[OF assms(1) this] assms(3) have "map_option fl_value (Lookup ''help'' fs') = Some (BoolV False)" by force
  then show ?thesis by (auto simp: GetBool_def getFlagType_def)
qed

text \<open>A command that is given a line of tokens.\<close>

lemma execute_tokens:
  assumes "merged_flags c inherited = Ok (fs @ [help_flag])" and "flags_ok (fs @ [help_flag])" and "cc_run c = Some run"
    and "\<forall>t \<in> set ts. spelled (fs @ [help_flag]) t" and "settings ''help'' (map (meaning (fs @ [help_flag])) ts) = []"
  shows "obey_all ([], fs @ [help_flag]) ts = Err e \<Longrightarrow>
      execute parent c inherited (concat (map spell ts)) s = Some (Ended (Some e), s) \<and> exit_code (Ended (Some e)) = 1"
    and "obey_all ([], fs @ [help_flag]) ts = Ok (found, fs') \<Longrightarrow>
      found = arguments (map (meaning (fs @ [help_flag])) ts) \<and>
      execute parent c inherited (concat (map spell ts)) s = map_option (\<lambda>(e, s). (Ended e, s))
        (run \<lparr>iv_path = command_path parent c, iv_use_line = use_line parent c fs', iv_short = cc_short c, iv_args = found\<rparr> fs' s)"
proof -
  have no_help: "Lookup ''help'' fs = None" using assms(2) by (auto simp: Lookup_None_iff flags_ok_def help_flag_def VarPF_def)
  note parse = command_line_read(1)[OF assms(4) flags_ok_distinct[OF assms(2)]]
  show "execute parent c inherited (concat (map spell ts)) s = Some (Ended (Some e), s) \<and> exit_code (Ended (Some e)) = 1"
    if "obey_all ([], fs @ [help_flag]) ts = Err e"
  proof -
    from that have "(\<exists>e' msg args. e = Wrapf e' msg args) \<or> (\<exists>n. e = Errorf ''no such flag -%v'' [n])"
      by (intro obey_error) (simp add: obey_all_def)
    then have "e \<noteq> ErrHelp" "exit_code (Ended (Some e)) = 1" by (auto simp: ErrHelp_def exit_code_def)
    then show ?thesis using execute_parse_error[OF assms(1)] parse that by simp
  qed
  assume ok: "obey_all ([], fs @ [help_flag]) ts = Ok (found, fs')"
  then have fold: "fold_res obey ([], fs @ [help_flag]) (map (meaning (fs @ [help_flag])) ts) = Ok (found, fs')"
    by (simp add: obey_all_def)
  from execute_run[OF assms(1) _ parsed_no_help[OF fold no_help assms(5)] assms(3)] parse ok obeyed_value[OF fold]
  show "found = arguments (map (meaning (fs @ [help_flag])) ts) \<and>
      execute parent c inherited (concat (map spell ts)) s = map_option (\<lambda>(e, s). (Ended e, s))
        (run \<lparr>iv_path = command_path parent c, iv_use_line = use_line parent c fs', iv_short = cc_short c, iv_args = found\<rparr> fs' s)"
    by simp
qed

text \<open>
  C17: \<open>kubectl buildkit create\<close> does what its command line says. However the flags are spelled, and
  however they and the arguments are mixed (but without asking for help): a value that its flag
  does not accept ends the program with exit code 1, and nothing has happened; otherwise the
  command runs with the options that are written, the last of several values for a flag that
  takes one and all of them, in their order, for platform and env, with the defaults for the
  others, with the arguments in their order, and on the cluster that the flags select. The exit
  code is 0 exactly if it succeeds, and then the line that it prints is all that was printed.
\<close>

theorem create_command_line:
  fixes E :: "'w cli_env"
  defines "fs0 \<equiv> flags_of_create E"
  assumes "\<forall>t \<in> set ts. spelled fs0 t" and "settings ''help'' (map (meaning fs0) ts) = []"
  shows "(\<forall>e. obey_all ([], fs0) ts = Err e \<longrightarrow>
        main_buildkit E (''create'' # concat (map spell ts)) (out, m, w) = Some (1, out, m, w)) \<and>
    (\<forall>found fs. obey_all ([], fs0) ts = Ok (found, fs) \<longrightarrow>
        (\<exists>L. cl_args L = arguments (map (meaning fs0) ts) \<and> cl_kube L = fst (cli_client E (config_values fs)) \<and>
           cl_raw L = snd (cli_client E (config_values fs)) \<and> cl_flag L = GetString fs \<and>
           main_buildkit E (''create'' # concat (map spell ts)) (out, m, w) =
             map_option (\<lambda>(r, w). case r of Inl e \<Rightarrow> (exit_code (Ended (Some e)), out, m, w) | Inr line \<Rightarrow> (0, out @ [Text line], m, w))
               (createCmd (cli_cmd E) L (create_written (map (meaning fs0) ts)) w)))"
proof -
  let ?env = "cx_lookup_env (cli_cmd E)"
  let ?c = "cli_cache_dir E"
  let ?fs = "create_flag_list @ root_flag_list ?env ?c"
  have fs0: "fs0 = ?fs @ [help_flag]" by (simp add: fs0_def flags_of_create_def)
  have merged: "merged_flags (create_command E create_flag_list) (root_flag_list ?env ?c) = Ok (?fs @ [help_flag])" and ok: "flags_ok (?fs @ [help_flag])"
    using merged_commands(2)[of E ?env ?c] merged_ok(2)[of ?env ?c] by simp_all
  have run: "cc_run (create_command E create_flag_list) = Some (run_create_command E)" by (simp add: create_command_def)
  note exec = execute_tokens[OF merged ok run assms(2,3)[unfolded fs0]]
  show ?thesis
  proof (intro conjI allI impI)
    fix e
    assume "obey_all ([], fs0) ts = Err e"
    with exec(1) show "main_buildkit E (''create'' # concat (map spell ts)) (out, m, w) = Some (1, out, m, w)"
      by (simp add: main_buildkit_def run_named fs0)
  next
    fix found fs
    assume obeyed: "obey_all ([], fs0) ts = Ok (found, fs)"
    define iv where "iv = \<lparr>iv_path = command_path ''buildkit'' (create_command E create_flag_list),
      iv_use_line = use_line ''buildkit'' (create_command E create_flag_list) fs, iv_short = cc_short (create_command E create_flag_list), iv_args = found\<rparr>"
    from obeyed have opts: "create_options_of fs = create_written (map (meaning fs0) ts)"
      by (intro create_parsed[of E]) (simp add: obey_all_def fs0_def)
    show "\<exists>L. cl_args L = arguments (map (meaning fs0) ts) \<and> cl_kube L = fst (cli_client E (config_values fs)) \<and>
           cl_raw L = snd (cli_client E (config_values fs)) \<and> cl_flag L = GetString fs \<and>
           main_buildkit E (''create'' # concat (map spell ts)) (out, m, w) =
             map_option (\<lambda>(r, w). case r of Inl e \<Rightarrow> (exit_code (Ended (Some e)), out, m, w) | Inr line \<Rightarrow> (0, out @ [Text line], m, w))
               (createCmd (cli_cmd E) L (create_written (map (meaning fs0) ts)) w)"
      using exec(2)[OF obeyed[unfolded fs0]] opts
      by (intro exI[of _ "command_line_of E (config_values fs) iv fs"])
        (auto simp: command_line_sel main_buildkit_def run_named run_create_command_def iv_def fs0 exit_code_def option.map_comp
          comp_def split_beta intro!: option.map_cong split: sum.splits)
  qed
qed

text \<open>Without a namespace flag the head of a command looks at nothing but the raw configuration.\<close>

lemma head_error_no_namespace:
  assumes "cl_flag L ''namespace'' = Ok []"
  shows "head_error L =
    (case snd (cl_raw L) of Some e \<Rightarrow> Some e | None \<Rightarrow> if rc_current (fst (cl_raw L)) = [] then Some errNoContext else None)"
  using assms by (simp add: head_error_def complete_and_validate_def Complete_def Validate_def read_flag_def Let_def split: option.splits)

lemma version_flags_split: "flags_of_version E = root_flag_list (cx_lookup_env (cli_cmd E)) (cli_cache_dir E) @ [help_flag]"
  by (simp add: flags_of_version_def)

lemma version_tokens:
  fixes E :: "'w cli_env"
  assumes "\<forall>t \<in> set ts. spelled (flags_of_version E) t" and "settings ''help'' (map (meaning (flags_of_version E)) ts) = []"
    and "obey_all ([], flags_of_version E) ts = Ok (found, fs)"
  obtains iv where "run_program (NewRootCmd E) (''version'' # concat (map spell ts)) s =
    map_option (\<lambda>(e, s). (Ended e, s)) (run_version_command E iv fs s)"
proof -
  let ?env = "cx_lookup_env (cli_cmd E)"
  let ?c = "cli_cache_dir E"
  have merged: "merged_flags (version_command E) (root_flag_list ?env ?c) = Ok (root_flag_list ?env ?c @ [help_flag])"
    and ok: "flags_ok (root_flag_list ?env ?c @ [help_flag])"
    using merged_commands(5)[of E ?env ?c] merged_ok(4)[of ?env ?c] by simp_all
  have run: "cc_run (version_command E) = Some (run_version_command E)" by (simp add: version_command_def)
  from execute_tokens(2)[OF merged ok run assms[unfolded version_flags_split], of "''buildkit''" s] show ?thesis
    by (intro that) (simp add: run_named)
qed

lemma version_values:
  assumes "obey_all ([], flags_of_version E) ts = Ok (found, fs)" and "settings ''namespace'' (map (meaning (flags_of_version E)) ts) = []"
  shows "GetString fs ''namespace'' = Ok []"
    and "string_var fs ''builder'' = last_or (lookup_str (cx_lookup_env (cli_cmd E)) ''BUILDX_BUILDER'')
      (settings ''builder'' (map (meaning (flags_of_version E)) ts))"
proof -
  have fold: "fold_res obey ([], flags_of_version E) (map (meaning (flags_of_version E)) ts) = Ok (found, fs)"
    using assms(1) by (simp add: obey_all_def)
  have "map_option fl_value (Lookup ''namespace'' (flags_of_version E)) = Some (StringV [])"
    by (simp add: flags_of_version_def flag_tables Lookup_def)
  from parsed_value[OF fold this] assms(2) have "map_option fl_value (Lookup ''namespace'' fs) = Some (StringV [])" by force
  then show "GetString fs ''namespace'' = Ok []" by (auto simp: GetString_def getFlagType_def)
  have "map_option fl_value (Lookup ''builder'' (flags_of_version E)) = Some (StringV (lookup_str (cx_lookup_env (cli_cmd E)) ''BUILDX_BUILDER''))"
    by (simp add: flags_of_version_def flag_tables Lookup_def)
  from parsed_string[OF fold this] show "string_var fs ''builder'' = last_or (lookup_str (cx_lookup_env (cli_cmd E)) ''BUILDX_BUILDER'')
      (settings ''builder'' (map (meaning (flags_of_version E)) ts))" by (simp add: last_or_def)
qed

lemma run_version_eq:
  fixes E :: "'a cli_env"
  assumes "GetString fs ''namespace'' = Ok []" and "GetString fs' ''namespace'' = Ok []"
    and "string_var fs ''builder'' = string_var fs' ''builder''"
  shows "run_version_command E iv fs s = run_version_command E iv' fs' s"
proof -
  have head_same: "head_error (command_line_of E vs iv fs) = head_error (command_line_of E vs iv' fs')" for vs
    using assms(1,2) by (simp add: head_error_no_namespace command_line_sel)
  have same: "versionCmd C L rb w = versionCmd C L' rb w" if "head_error L = head_error L'" "cl_kube L = cl_kube L'" for C L L' rb and w :: 'a
    using that by (cases "head_error L'") (simp_all add: versionCmd_def)
  have "versionCmd (cli_cmd E) (command_line_of E vs iv fs) rb w = versionCmd (cli_cmd E) (command_line_of E vs iv' fs') rb w" for vs rb w
    by (rule same[OF head_same]) (simp add: command_line_sel)
  then show ?thesis using assms(3) by (simp add: run_version_command_def)
qed

text \<open>
  C19: The version command asks another cluster than the one that its flags select. Take two lines
  without help and without a namespace whose values are all accepted, and which name the same
  builder: they have the same outcome, whatever they say in kubeconfig, context, cluster, user,
  server, token and the other flags of the Kubernetes client, although the command accepts these
  flags.
\<close>

theorem version_ignores_flags:
  fixes E :: "'w cli_env"
  defines "fs0 \<equiv> flags_of_version E"
  assumes "\<forall>t \<in> set (ts @ ts'). spelled fs0 t"
    and "obey_all ([], fs0) ts = Ok (found, fs)" and "obey_all ([], fs0) ts' = Ok (found', fs')"
    and "settings ''help'' (map (meaning fs0) (ts @ ts')) = []" and "settings ''namespace'' (map (meaning fs0) (ts @ ts')) = []"
    and "settings ''builder'' (map (meaning fs0) ts) = settings ''builder'' (map (meaning fs0) ts')"
  shows "main_buildkit E (''version'' # concat (map spell ts)) s = main_buildkit E (''version'' # concat (map spell ts')) s"
proof -
  have app: "settings n (as @ bs) = settings n as @ settings n bs" for n as bs
    by (induction as) (auto split: sum.splits)
  note asms = assms(2-)[unfolded fs0_def]
  have none: "settings ''help'' (map (meaning (flags_of_version E)) ts) = []" "settings ''help'' (map (meaning (flags_of_version E)) ts') = []"
    "settings ''namespace'' (map (meaning (flags_of_version E)) ts) = []" "settings ''namespace'' (map (meaning (flags_of_version E)) ts') = []"
    using asms(4,5) by (simp_all add: app)
  have spelled: "\<forall>t \<in> set ts. spelled (flags_of_version E) t" "\<forall>t \<in> set ts'. spelled (flags_of_version E) t" using asms(1) by simp_all
  obtain iv where "run_program (NewRootCmd E) (''version'' # concat (map spell ts)) s =
      map_option (\<lambda>(e, s). (Ended e, s)) (run_version_command E iv fs s)"
    by (rule version_tokens[OF spelled(1) none(1) asms(2)])
  moreover obtain iv' where "run_program (NewRootCmd E) (''version'' # concat (map spell ts')) s =
      map_option (\<lambda>(e, s). (Ended e, s)) (run_version_command E iv' fs' s)"
    by (rule version_tokens[OF spelled(2) none(2) asms(3)])
  moreover have "run_version_command E iv fs s = run_version_command E iv' fs' s"
    using version_values[OF asms(2) none(3)] version_values[OF asms(3) none(4)] asms(6) by (intro run_version_eq) simp_all
  ultimately show ?thesis by (simp add: main_buildkit_def)
qed

section \<open>An example\<close>

definition example_cli :: "string list cli_env" where
  "example_cli =
     \<lparr>cli_cmd = example_cmd, cli_cache_dir = ''/root/.kube/cache'',
      cli_client = (\<lambda>_. (example_kube_config, (\<lparr>rc_contexts = Map.empty, rc_current = ''dev''\<rparr>, None))),
      cli_suggestions = (\<lambda>_. [])\<rparr>"

lemma example_cli_sel:
  "cli_cmd example_cli = example_cmd" "cli_client example_cli vs = (example_kube_config, (\<lparr>rc_contexts = Map.empty, rc_current = ''dev''\<rparr>, None))"
  by (simp_all add: example_cli_def)

lemma ParseInt_3: "ParseInt ''3'' = Ok 3"
proof -
  have "digit_char 3 = CHR ''3''" by code_simp
  then have "itoa 3 = ''3''" by (simp add: itoa_def nat_digits.simps)
  then show ?thesis using ParseInt_itoa[of 3] by simp
qed

lemma ParseInt_x: "ParseInt ''x'' = Err (parse_int_error ''x'' ''invalid syntax'')"
  by (simp add: ParseInt_def parse_uint0_def base_digit_def lower_char_def parse_int_error_def Let_def)

theorem create_command_line_witness:
  "main_buildkit example_cli [''create'', ''--replicas=x''] ([], example_machine, []) = Some (1, [], example_machine, []) \<and>
   (\<exists>L. cl_args L = [''mine''] \<and>
     main_buildkit example_cli [''create'', ''mine'', ''--replicas=3'', ''--rootless'', ''-n'', ''ns''] ([], example_machine, []) =
       map_option (\<lambda>(r, w). case r of Inl e \<Rightarrow> (exit_code (Ended (Some e)), [], example_machine, w) | Inr line \<Rightarrow> (0, [Text line], example_machine, w))
         (createCmd example_cmd L (default_create_options\<lparr>co_replicas := 3, co_rootless := True\<rparr>) []))"
proof
  note tables = flags_of_create_def flag_tables Lookup_def ShorthandLookup_def
  let ?fs0 = "flags_of_create example_cli"
  let ?bad = "[LongEq ''replicas'' ''x'']"
  have "\<forall>t \<in> set ?bad. spelled ?fs0 t" by (simp add: tables long_name_def)
  moreover have "settings ''help'' (map (meaning ?fs0) ?bad) = []" by simp
  moreover obtain e where "obey_all ([], ?fs0) ?bad = Err e"
    by (simp add: obey_all_def obey_def Set_flag_def ParseInt_x tables)
  ultimately show "main_buildkit example_cli [''create'', ''--replicas=x''] ([], example_machine, []) = Some (1, [], example_machine, [])"
    using create_command_line[of ?bad example_cli "[]" example_machine "[]"] by simp
  let ?ts = "[Arg ''mine'', LongEq ''replicas'' ''3'', LongBare ''rootless'', ShortSep (CHR ''n'') ''ns'']"
  have good: "\<forall>t \<in> set ?ts. spelled ?fs0 t"
    by (simp add: tables long_name_def bool_flag_def value_flag_def is_bool_def)
  have ms: "map (meaning ?fs0) ?ts = [Inr ''mine'', Inl (''replicas'', ''3''), Inl (''rootless'', ''true''), Inl (''namespace'', ''ns'')]"
    by (simp add: short_name_def tables)
  obtain found fs where fs: "obey_all ([], ?fs0) ?ts = Ok (found, fs)"
    unfolding obey_all_def snd_conv ms
    by (simp add: obey_def Set_flag_def store_flag_def ParseInt_3 parse_bool_def tables)
  have written: "create_written (map (meaning ?fs0) ?ts) = default_create_options\<lparr>co_replicas := 3, co_rootless := True\<rparr>"
    unfolding ms by (simp add: create_written_def default_create_options_def last_or_def ParseInt_3 parse_bool_or_false_def parse_bool_def)
  have no_help: "settings ''help'' (map (meaning ?fs0) ?ts) = []" unfolding ms by simp
  note says = create_command_line[OF good no_help, where out = "[]" and m = example_machine and w = "[]"]
  from conjunct2[OF says, rule_format, OF fs] obtain L where L: "cl_args L = arguments (map (meaning ?fs0) ?ts)"
    "main_buildkit example_cli (''create'' # concat (map spell ?ts)) ([], example_machine, []) =
       map_option (\<lambda>(r, w). case r of Inl e \<Rightarrow> (exit_code (Ended (Some e)), [], example_machine, w) | Inr line \<Rightarrow> (0, [] @ [Text line], example_machine, w))
         (createCmd (cli_cmd example_cli) L (create_written (map (meaning ?fs0) ?ts)) [])" by (elim exE conjE)
  show "\<exists>L. cl_args L = [''mine''] \<and>
     main_buildkit example_cli [''create'', ''mine'', ''--replicas=3'', ''--rootless'', ''-n'', ''ns''] ([], example_machine, []) =
       map_option (\<lambda>(r, w). case r of Inl e \<Rightarrow> (exit_code (Ended (Some e)), [], example_machine, w) | Inr line \<Rightarrow> (0, [Text line], example_machine, w))
         (createCmd example_cmd L (default_create_options\<lparr>co_replicas := 3, co_rootless := True\<rparr>) [])"
  proof (intro exI conjI)
    show "cl_args L = [''mine'']" using L(1) unfolding ms by simp
  qed (use L(2)[unfolded written example_cli_sel append_Nil] in simp)
qed

theorem version_ignores_flags_witness:
  "main_buildkit example_cli [''version'', ''--context=prod''] ([], example_machine, []) =
     main_buildkit example_cli [''version'', ''-s'', ''https://10.0.0.1''] ([], example_machine, [])"
proof -
  note tables = flags_of_version_def flag_tables Lookup_def ShorthandLookup_def
  let ?fs0 = "flags_of_version example_cli"
  let ?ts = "[LongEq ''context'' ''prod'']"
  let ?ts' = "[ShortSep (CHR ''s'') ''https://10.0.0.1'']"
  have ms: "map (meaning ?fs0) ?ts = [Inl (''context'', ''prod'')]" "map (meaning ?fs0) ?ts' = [Inl (''server'', ''https://10.0.0.1'')]"
    by (simp_all add: short_name_def tables)
  have good: "\<forall>t \<in> set (?ts @ ?ts'). spelled ?fs0 t"
    by (simp add: tables long_name_def bool_flag_def value_flag_def is_bool_def)
  obtain found fs where 1: "obey_all ([], ?fs0) ?ts = Ok (found, fs)"
    unfolding obey_all_def snd_conv ms by (simp add: obey_def Set_flag_def tables)
  obtain found' fs' where 2: "obey_all ([], ?fs0) ?ts' = Ok (found', fs')"
    unfolding obey_all_def snd_conv ms by (simp add: obey_def Set_flag_def tables)
  from version_ignores_flags[OF good 1 2, of "([], example_machine, [])"] ms show ?thesis by simp
qed

lemma example_version:
  "\<exists>code s'. main_buildkit example_cli [''version''] ([], example_machine, []) = Some (code, s') \<and> s' \<noteq> ([], example_machine, [])"
proof -
  let ?fs0 = "flags_of_version example_cli"
  have fs: "obey_all ([], ?fs0) [] = Ok ([], ?fs0)" by (simp add: obey_all_def)
  obtain iv where run: "run_program (NewRootCmd example_cli) (''version'' # concat (map spell [])) ([], example_machine, []) =
      map_option (\<lambda>(e, s). (Ended e, s)) (run_version_command example_cli iv ?fs0 ([], example_machine, []))"
    by (rule version_tokens[OF _ _ fs]) simp_all
  have "GetString ?fs0 ''namespace'' = Ok []" using version_values(1)[OF fs] by simp
  then have "head_error (command_line_of example_cli vs iv ?fs0) = None" for vs
    by (simp add: head_error_no_namespace command_line_sel example_cli_sel)
  then show ?thesis using run by (auto simp: main_buildkit_def run_version_command_def versionCmd_def split: prod.splits)
qed


end
