(* ===== verification/Integration.thy ===== *)
theory Integration
  imports CommandLineSpec
begin

text \<open>
  The support of the integration tests: \<open>integration/common\<close>. The tests run the two programs
  with a command line each, on a real cluster, and look at what they did. The client of the
  cluster is again a record of operations on the world; a test that fails stops at once, after
  its deferred calls.
\<close>

section \<open>The environment of the tests\<close>

text \<open>The pod of a test has one container, which sleeps and whose image is never pulled.\<close>

record test_pod =
  tp_name :: string
  tp_container :: string
  tp_image :: string
  tp_command :: "string list"
  tp_pull_policy :: string

record 'w test_env =
  te_cli :: "'w cli_env"
  te_kubeconfig :: string
  te_text :: "go_error \<Rightarrow> string"
  te_render :: "printed list \<Rightarrow> string"
  te_fs :: "'w fs"
  te_log :: "string \<Rightarrow> 'w \<Rightarrow> 'w"
  te_sleep :: "nat \<Rightarrow> 'w \<Rightarrow> 'w"
  te_namespace :: "string result"
  te_client_config :: "unit result"
  te_new_for_config :: "go_error option"
  te_selector :: "string \<Rightarrow> string \<Rightarrow> string result"
  te_field_selector :: "string \<Rightarrow> string \<Rightarrow> string option \<Rightarrow> string option \<Rightarrow> string"
  te_pod_create :: "test_pod \<Rightarrow> 'w \<Rightarrow> pod result \<times> 'w"
  te_pod_get :: "string \<Rightarrow> 'w \<Rightarrow> pod result \<times> 'w"
  te_pod_delete :: "string \<Rightarrow> 'w action"
  te_pod_list :: "string \<Rightarrow> 'w \<Rightarrow> pod list result \<times> 'w"
  te_pod_logs :: "string \<Rightarrow> 'w \<Rightarrow> (string \<times> go_error option) \<times> 'w"
  te_event_list :: "string \<Rightarrow> 'w \<Rightarrow> event list result \<times> 'w"
  te_runtimes :: "'w \<Rightarrow> string list result \<times> 'w"
  te_cm_get :: "string \<Rightarrow> 'w \<Rightarrow> go_error option \<times> 'w"

section \<open>The client of the cluster (kubeclient.go)\<close>

text \<open>The namespace is returned with the error of \<open>NewForConfig\<close>, too.\<close>

definition GetKubeClientset :: "'w test_env \<Rightarrow> string \<times> go_error option" where
  "GetKubeClientset T =
     (case te_namespace T of
        Inl e \<Rightarrow> ([], Some e)
      | Inr ns \<Rightarrow> (case te_client_config T of Inl e \<Rightarrow> ([], Some e) | Inr _ \<Rightarrow> (ns, te_new_for_config T)))"

definition sleeping_pod :: "string \<Rightarrow> string \<Rightarrow> test_pod" where
  "sleeping_pod name imageName =
     \<lparr>tp_name = name, tp_container = name, tp_image = imageName, tp_command = [''sleep'', ''60''], tp_pull_policy = ''Never''\<rparr>"

text \<open>The locals of the wait: the pod, its reference, and the messages that were reported.\<close>

record pod_watch =
  pw_pod :: pod
  pw_ref_uid :: "string option"
  pw_ref_kind :: "string option"
  pw_reported :: "string list"

definition no_pod :: pod where
  "no_pod =
     \<lparr>p_name = [], p_namespace = [], p_labels = Map.empty, p_containers = [], p_phase = [], p_message = [], p_ip = [],
      p_uid = [], p_kind = [], p_owners = []\<rparr>"

definition event_message :: "event \<Rightarrow> pod \<Rightarrow> string" where
  "event_message ev p = ev_type ev @ '':'' @ p_name p @ '':'' @ ev_reason ev @ '':'' @ ev_message ev @ [LF]"

fun report_events :: "'w test_env \<Rightarrow> pod \<Rightarrow> event list \<Rightarrow> string list \<Rightarrow> 'w \<Rightarrow> go_error option \<times> string list \<times> 'w" where
  "report_events T p [] reported w = (None, reported, w)"
| "report_events T p (ev # evs) reported w =
     (let msg = event_message ev p in
      if ev_uid ev \<noteq> p_uid p \<or> msg \<in> set reported then report_events T p evs reported w
      else
        let w = te_log T msg w; reported = msg # reported in
        if ev_reason ev = ''ErrImageNeverPull'' then (Some (Errorf msg []), reported, w)
        else report_events T p evs reported w)"

text \<open>One try. When the pod cannot be read, the client hands out an empty one with the error.\<close>

definition wait_ms :: "nat \<Rightarrow> nat" where
  "wait_ms try' = 100 + try' * 20"

definition watch_round :: "'w test_env \<Rightarrow> nat \<Rightarrow> pod_watch \<times> 'w \<Rightarrow> go_error option step \<times> pod_watch \<times> 'w" where
  "watch_round T try' = (\<lambda>(st, w).
     let p = pw_pod st;
         st = st\<lparr>pw_ref_uid := (if p_uid p = [] then pw_ref_uid st else Some (p_uid p)),
                 pw_ref_kind := (if p_kind p = [] then pw_ref_kind st else Some (p_kind p))\<rparr>
     in case te_event_list T (te_field_selector T (p_name p) (p_namespace p) (pw_ref_kind st) (pw_ref_uid st)) w of
          (Inl e, w) \<Rightarrow> (Return (Some e), st, w)
        | (Inr evs, w) \<Rightarrow>
            (case report_events T p evs (pw_reported st) w of
               (Some e, reported, w) \<Rightarrow> (Return (Some e), st\<lparr>pw_reported := reported\<rparr>, w)
             | (None, reported, w) \<Rightarrow>
                 (case te_pod_get T (p_name p) (te_sleep T (wait_ms try') w) of
                    (Inl e, w) \<Rightarrow> (Return (Some e), st\<lparr>pw_reported := reported, pw_pod := no_pod\<rparr>, w)
                  | (Inr p, w) \<Rightarrow>
                      (if p_phase p = ''Running'' \<or> p_phase p = ''Succeeded'' then Return None else Again,
                       st\<lparr>pw_reported := reported, pw_pod := p\<rparr>, te_log T (''Pod Phase: '' @ p_phase p) w))))"

fun watch_pod :: "'w test_env \<Rightarrow> nat list \<Rightarrow> pod_watch \<times> 'w \<Rightarrow> go_error option \<times> pod_watch \<times> 'w" where
  "watch_pod T [] s = (Some (Errorf ''pod never started'' []), s)"
| "watch_pod T (t # ts) s =
     (case watch_round T t s of
        (Return r, s) \<Rightarrow> (r, s)
      | (Again, s) \<Rightarrow> watch_pod T ts s)"

text \<open>The deferred call: a failed deletion is logged.\<close>

definition clean_up_pod :: "'w test_env \<Rightarrow> string \<Rightarrow> 'w \<Rightarrow> 'w" where
  "clean_up_pod T name w =
     (case te_pod_delete T name w of
        (None, w) \<Rightarrow> w
      | (Some e, w) \<Rightarrow> te_log T (''failed to clean up pod '' @ name @ '': '' @ te_text T e) w)"

definition RunSimpleBuildImageAsPod :: "'w test_env \<Rightarrow> string \<Rightarrow> string \<Rightarrow> 'w \<Rightarrow> go_error option \<times> 'w" where
  "RunSimpleBuildImageAsPod T name imageName w =
     (case te_pod_create T (sleeping_pod name imageName) (te_log T (''starting pod '' @ name @ '' for image: '' @ imageName) w) of
        (Inl e, w) \<Rightarrow> (Some e, w)
      | (Inr p, w) \<Rightarrow>
          let w = te_log T ''waiting for pod to start...'' w in
          (case watch_pod T [0..<100] (\<lparr>pw_pod = p, pw_ref_uid = None, pw_ref_kind = None, pw_reported = []\<rparr>, w) of
             (err, st, w) \<Rightarrow> (err, clean_up_pod T (p_name (pw_pod st)) w)))"

text \<open>\<open>GetRuntime\<close>: the runtime of the first node.\<close>

definition GetRuntime :: "'w test_env \<Rightarrow> (string, 'w) io" where
  "GetRuntime T =
     io_bind (te_runtimes T) (\<lambda>rs.
       case rs of [] \<Rightarrow> io_err (Errorf ''unable to retrieve node runtimes'' []) | r # _ \<Rightarrow> io_ok r)"

text \<open>\<open>LogBuilderLogs\<close>: the lines that are printed, and the log, without the labels that it spells out.\<close>

definition pod_log_lines :: "'w test_env \<Rightarrow> pod \<Rightarrow> 'w \<Rightarrow> string list \<times> 'w" where
  "pod_log_lines T p w =
     (let w = te_log T (p_name p @ '' labels'') w in
      case te_pod_logs T (p_name p) w of
        ((buf, err), w) \<Rightarrow>
          (map (\<lambda>line. ''pod='' @ [DQ] @ p_name p @ [DQ] @ '' '' @ line @ [LF]) (split_on LF buf),
           (case err of None \<Rightarrow> w | Some e \<Rightarrow> te_log T (''failed to get logs for '' @ p_name p @ '': '' @ te_text T e) w)))"

fun all_log_lines :: "'w test_env \<Rightarrow> pod list \<Rightarrow> 'w \<Rightarrow> string list \<times> 'w" where
  "all_log_lines T [] w = ([], w)"
| "all_log_lines T (p # ps) w =
     (case pod_log_lines T p w of (ls, w) \<Rightarrow> (case all_log_lines T ps w of (ls', w) \<Rightarrow> (ls @ ls', w)))"

definition LogBuilderLogs :: "'w test_env \<Rightarrow> string \<Rightarrow> 'w \<Rightarrow> string list \<times> 'w" where
  "LogBuilderLogs T name w =
     (case te_selector T ''app'' name of
        Inl e \<Rightarrow> ([], te_log T (''should not happen: '' @ te_text T e) w)
      | Inr selector \<Rightarrow>
          (case te_pod_list T selector w of
             (Inl e, w) \<Rightarrow> ([], te_log T (''failed to get builder pods for logging: '' @ te_text T e) w)
           | (Inr ps, w) \<Rightarrow>
               let w = te_log T (''Detected '' @ itoa (int (length ps)) @ '' pods for builder '' @ name @ '' - gathering logs'') w;
                   w = te_log T ''--- BEGIN BUILDER LOGS ---'' w
               in case all_log_lines T ps w of (ls, w) \<Rightarrow> (ls, te_log T ''--- END BUILDER LOGS ---'' w)))"

section \<open>Running the programs (runners.go)\<close>

text \<open>The programs in the process of the tests: the result is the error of \<open>Execute\<close>, and what
  went to the standard output.\<close>

definition outcome_error :: "outcome \<Rightarrow> go_error option" where
  "outcome_error out = (case out of Ended e \<Rightarrow> e | _ \<Rightarrow> None)"

definition run_in_test ::
  "'w terminal program result \<Rightarrow> string list \<Rightarrow> machine \<times> 'w \<Rightarrow> (go_error option \<times> printed list \<times> machine \<times> 'w) option" where
  "run_in_test p args s =
     map_option (\<lambda>(out, printed, s). (outcome_error out, printed, s)) (run_program p args ([], s))"

definition RunBuild ::
  "'w test_env \<Rightarrow> string list \<Rightarrow> machine \<times> 'w \<Rightarrow> (go_error option \<times> printed list \<times> machine \<times> 'w) option" where
  "RunBuild T args = (\<lambda>(m, w).
     let finalArgs = [''--kubeconfig'', te_kubeconfig T] @ args
     in run_in_test (NewRootBuildCmd (te_cli T)) finalArgs (m, te_log T (''Build: '' @ join_with '' '' finalArgs) w))"

definition RunBuildkit ::
  "'w test_env \<Rightarrow> string \<Rightarrow> string list \<Rightarrow> machine \<times> 'w \<Rightarrow> (go_error option \<times> printed list \<times> machine \<times> 'w) option" where
  "RunBuildkit T command args = (\<lambda>(m, w).
     let finalArgs = [command, ''--kubeconfig'', te_kubeconfig T] @ args
     in run_in_test (NewRootCmd (te_cli T)) finalArgs (m, te_log T (''CMD: '' @ join_with '' '' finalArgs) w))"

section \<open>Build contexts (buildcontext.go)\<close>

text \<open>The directory, what the cleanup removes, and the error. The payloads come in the order in
  which the map is visited.\<close>

fun write_payloads :: "'w fs \<Rightarrow> string \<Rightarrow> (string \<times> string) list \<Rightarrow> 'w action" where
  "write_payloads F dir [] w = (None, w)"
| "write_payloads F dir ((filename, contents) # ps) w =
     (case fs_write_file F (path_Join [dir, filename]) contents w of
        (Some e, w) \<Rightarrow> (Some e, w)
      | (None, w) \<Rightarrow> write_payloads F dir ps w)"

definition NewBuildContext :: "'w fs \<Rightarrow> (string \<times> string) list \<Rightarrow> 'w \<Rightarrow> (string \<times> string option \<times> go_error option) \<times> 'w" where
  "NewBuildContext F payloads w =
     (case fs_temp_dir F ''build_cli_tests'' w of
        (Inl e, w) \<Rightarrow> (([], None, Some e), w)
      | (Inr dir, w) \<Rightarrow>
          (case write_payloads F dir payloads w of
             (Some e, w) \<Rightarrow> (([], Some dir, Some e), w)
           | (None, w) \<Rightarrow> ((dir, Some dir, None), w)))"

definition simple_dockerfile :: string where
  "simple_dockerfile =
     ''FROM busybox'' @ [LF] @ ''RUN echo '' @ [DQ] @ ''#!/bin/sh'' @ [DQ] @ '' > /run'' @ [LF]
     @ ''RUN echo '' @ [DQ] @ ''echo hello world'' @ [DQ] @ '' >> /run && chmod a+x /run'' @ [LF] @ ''CMD /run'' @ [LF]"

definition NewSimpleBuildContext :: "'w fs \<Rightarrow> 'w \<Rightarrow> (string \<times> string option \<times> go_error option) \<times> 'w" where
  "NewSimpleBuildContext F w = NewBuildContext F [(''Dockerfile'', simple_dockerfile)] w"

definition clean_up_context :: "'w fs \<Rightarrow> string option \<Rightarrow> 'w \<Rightarrow> 'w" where
  "clean_up_context F dir w = (case dir of None \<Rightarrow> w | Some d \<Rightarrow> fs_remove_all F d w)"

section \<open>The suite that all suites share (basesuites.go)\<close>

text \<open>A test that fails stops with its message; \<open>None\<close> is a test that never returns.\<close>

type_synonym ('a, 's) test = "'s \<Rightarrow> ((string + 'a) \<times> 's) option"

definition test_bind :: "('a, 's) test \<Rightarrow> ('a \<Rightarrow> ('b, 's) test) \<Rightarrow> ('b, 's) test" where
  "test_bind m f s =
     (case m s of
        None \<Rightarrow> None
      | Some (Inl msg, s) \<Rightarrow> Some (Inl msg, s)
      | Some (Inr x, s) \<Rightarrow> f x s)"

definition test_ok :: "'a \<Rightarrow> ('a, 's) test" where
  "test_ok x s = Some (Inr x, s)"

definition require :: "bool \<Rightarrow> string \<Rightarrow> (unit, 's) test" where
  "require b msg s = Some (if b then Inr () else Inl msg, s)"

text \<open>A call of the code under test, and a deferred call.\<close>

definition test_call :: "('s \<Rightarrow> 'a \<times> 's) \<Rightarrow> ('a, 's) test" where
  "test_call f s = (case f s of (x, s) \<Rightarrow> Some (Inr x, s))"

definition test_run :: "('s \<Rightarrow> ('e \<times> 'o \<times> 's) option) \<Rightarrow> ('e \<times> 'o, 's) test" where
  "test_run f s = map_option (\<lambda>(e, out, s). (Inr (e, out), s)) (f s)"

definition deferred :: "('s \<Rightarrow> 's) \<Rightarrow> ('a, 's) test \<Rightarrow> ('a, 's) test" where
  "deferred f m s = map_option (\<lambda>(r, s). (r, f s)) (m s)"

definition on_world :: "('w \<Rightarrow> 'a \<times> 'w) \<Rightarrow> machine \<times> 'w \<Rightarrow> 'a \<times> machine \<times> 'w" where
  "on_world f = (\<lambda>(m, w). case f w of (x, w) \<Rightarrow> (x, m, w))"

definition message_of :: "'w test_env \<Rightarrow> go_error option \<Rightarrow> string" where
  "message_of T err = (case err of None \<Rightarrow> [] | Some e \<Rightarrow> te_text T e)"

record base_suite =
  su_name :: string
  su_create_flags :: "string list"
  su_skip_create :: bool

definition log_test :: "'w test_env \<Rightarrow> string \<Rightarrow> (unit, machine \<times> 'w) test" where
  "log_test T msg = test_call (on_world (\<lambda>w. ((), te_log T msg w)))"

text \<open>The result is the namespace.\<close>

definition SetupSuite :: "'w test_env \<Rightarrow> base_suite \<Rightarrow> (string, machine \<times> 'w) test" where
  "SetupSuite T s =
     test_bind
       (if su_skip_create s then test_ok ()
        else
          test_bind (log_test T (su_name s @ '': Setting up builder'')) (\<lambda>_.
          test_bind (test_run (RunBuildkit T ''create'' (su_name s # su_create_flags s))) (\<lambda>(err, _).
          require (err = None) (su_name s @ '': builder create failed''))))
       (\<lambda>_. case GetKubeClientset T of
          (ns, err) \<Rightarrow> test_bind (require (err = None) (su_name s @ '': kube client failed'')) (\<lambda>_. test_ok ns))"

definition TearDownSuite :: "'w test_env \<Rightarrow> base_suite \<Rightarrow> (string list, machine \<times> 'w) test" where
  "TearDownSuite T s =
     test_bind (test_call (on_world (LogBuilderLogs T (su_name s)))) (\<lambda>lines.
     test_bind (log_test T (su_name s @ '': Removing builder'')) (\<lambda>_.
     test_bind (test_run (RunBuildkit T ''rm'' [su_name s])) (\<lambda>(err, _).
     test_bind (require (err = None) (su_name s @ '': builder rm failed'')) (\<lambda>_.
     test_bind (test_call (on_world (te_cm_get T (su_name s)))) (\<lambda>err.
     test_bind (require (err \<noteq> None) (''config map wasn'' @ [CHR 39] @ ''t cleaned up'')) (\<lambda>_.
     test_bind (require (contains_str (message_of T err) ''not found'') []) (\<lambda>_.
     test_ok lines)))))))"

definition isRootlessCreate :: "string list \<Rightarrow> bool" where
  "isRootlessCreate flags = list_ex (\<lambda>flag. contains_str flag ''rootless'') flags"

definition builder_args :: "base_suite \<Rightarrow> string list" where
  "builder_args s = ''--progress=plain'' # (if su_name s \<noteq> ''buildkit'' then [''--builder'', su_name s] else [])"

definition with_context :: "'w test_env \<Rightarrow> (string \<Rightarrow> ('a, machine \<times> 'w) test) \<Rightarrow> ('a, machine \<times> 'w) test" where
  "with_context T f =
     test_bind (test_call (on_world (NewSimpleBuildContext (te_fs T)))) (\<lambda>(dir, cleanup, err).
     deferred (\<lambda>(m, w). (m, clean_up_context (te_fs T) cleanup w))
       (test_bind (require (err = None) ''Failed to set up temporary build context'') (\<lambda>_. f dir)))"

definition TestSimpleBuild :: "'w test_env \<Rightarrow> base_suite \<Rightarrow> (unit, machine \<times> 'w) test" where
  "TestSimpleBuild T s =
     test_bind (log_test T (su_name s @ '': Simple Build'')) (\<lambda>_.
     with_context T (\<lambda>dir.
       let imageName = ''dummy.acme.com/'' @ su_name s @ ''replaceme:latest'' in
       test_bind (test_run (RunBuild T (builder_args s @ [''--tag'', imageName, dir]))) (\<lambda>(err, _).
       test_bind
         (if isRootlessCreate (su_create_flags s) then
            test_bind (require (err \<noteq> None) []) (\<lambda>_. require (contains_str (message_of T err) ''please specify'') [])
          else require (err = None) ''build failed'') (\<lambda>_.
       test_bind (test_call (on_world (RunSimpleBuildImageAsPod T (su_name s @ ''-testbuiltimage'') imageName))) (\<lambda>err.
       require (err = None) ''failed to start pod with image'')))))"

definition TestLocalOutputTarBuild :: "'w test_env \<Rightarrow> base_suite \<Rightarrow> (unit, machine \<times> 'w) test" where
  "TestLocalOutputTarBuild T s =
     test_bind (log_test T (su_name s @ '': Local Output Tar Build'')) (\<lambda>_.
     with_context T (\<lambda>dir.
       test_bind (test_run (RunBuild T (builder_args s @
           [''--tag'', su_name s @ ''replaceme:latest'', ''--output=type=tar,dest='' @ path_Join [dir, ''out.tar''], dir]))) (\<lambda>(err, _).
       require (err = None) ''build failed'')))"

definition TestLs :: "'w test_env \<Rightarrow> base_suite \<Rightarrow> (unit, machine \<times> 'w) test" where
  "TestLs T s =
     test_bind (test_run (RunBuildkit T ''ls'' [])) (\<lambda>(err, buf).
     test_bind (require (err = None) (su_name s @ '': ls failed'')) (\<lambda>_.
     test_bind (require (contains_str (te_render T buf) (su_name s)) []) (\<lambda>_.
     test_bind (test_run (RunBuildkit T ''ls'' [''dummy''])) (\<lambda>(err, _).
     test_bind (require (err \<noteq> None) []) (\<lambda>_.
     require (contains_str (message_of T err) ''requires exactly'') [])))))"

section \<open>Lemmas\<close>

text \<open>The clock and the number of reads of the pod: only a sleep takes time.\<close>

definition pod_clock :: "('w \<Rightarrow> nat) \<Rightarrow> ('w \<Rightarrow> nat) \<Rightarrow> 'w test_env \<Rightarrow> bool" where
  "pod_clock clock gets T \<longleftrightarrow>
     (\<forall>n w. clock (te_sleep T n w) = clock w + n \<and> gets (te_sleep T n w) = gets w) \<and>
     (\<forall>n w. clock (snd (te_pod_get T n w)) = clock w \<and> gets (snd (te_pod_get T n w)) = gets w + 1) \<and>
     (\<forall>x w. clock (te_log T x w) = clock w \<and> gets (te_log T x w) = gets w) \<and>
     (\<forall>x w. clock (snd (te_event_list T x w)) = clock w \<and> gets (snd (te_event_list T x w)) = gets w) \<and>
     (\<forall>x w. clock (snd (te_pod_create T x w)) = clock w \<and> gets (snd (te_pod_create T x w)) = gets w) \<and>
     (\<forall>x w. clock (snd (te_pod_delete T x w)) = clock w \<and> gets (snd (te_pod_delete T x w)) = gets w)"

lemma pod_clockD:
  assumes "pod_clock clock gets T"
  shows "clock (te_sleep T n w) = clock w + n" "gets (te_sleep T n w) = gets w"
    "te_pod_get T x w = (rp, w') \<Longrightarrow> clock w' = clock w \<and> gets w' = gets w + 1"
    "clock (te_log T x w) = clock w" "gets (te_log T x w) = gets w"
    "te_event_list T x w = (re, w') \<Longrightarrow> clock w' = clock w \<and> gets w' = gets w"
    "te_pod_create T y w = (rp, w') \<Longrightarrow> clock w' = clock w \<and> gets w' = gets w"
    "te_pod_delete T x w = (rd, w') \<Longrightarrow> clock w' = clock w \<and> gets w' = gets w"
  using assms unfolding pod_clock_def by (metis snd_conv)+

lemma report_events_clock:
  assumes "pod_clock clock gets T" and "report_events T p evs reported w = (r, reported', w')"
  shows "clock w' = clock w \<and> gets w' = gets w"
  using assms(2) by (induction evs arbitrary: reported w) (auto simp: Let_def pod_clockD(4,5)[OF assms(1)] split: if_splits)

lemma watch_round_clock:
  assumes "pod_clock clock gets T" and "watch_round T t (st, w) = (r, st', w')"
  shows "(r \<noteq> Again \<and> r \<noteq> Return None \<and> clock w' = clock w \<and> gets w' = gets w) \<or> (clock w' = clock w + wait_ms t \<and> gets w' = gets w + 1)"
proof -
  note keeps = pod_clockD[OF assms(1)]
  let ?p = "pw_pod st"
  let ?st = "st\<lparr>pw_ref_uid := (if p_uid ?p = [] then pw_ref_uid st else Some (p_uid ?p)),
                pw_ref_kind := (if p_kind ?p = [] then pw_ref_kind st else Some (p_kind ?p))\<rparr>"
  obtain re w1 where list: "te_event_list T (te_field_selector T (p_name ?p) (p_namespace ?p) (pw_ref_kind ?st) (pw_ref_uid ?st)) w = (re, w1)"
    by fastforce
  show ?thesis
  proof (cases re)
    case (Inl e)
    with list assms(2) keeps(6)[OF list] show ?thesis by (auto simp: watch_round_def Let_def)
  next
    case (Inr evs)
    obtain err reported w2 where rep: "report_events T ?p evs (pw_reported st) w1 = (err, reported, w2)" by (cases "report_events T ?p evs (pw_reported st) w1") auto
    obtain rp w3 where getp: "te_pod_get T (p_name ?p) (te_sleep T (wait_ms t) w2) = (rp, w3)" by fastforce
    note clocks = keeps(6)[OF list] report_events_clock[OF assms(1) rep] keeps(3)[OF getp] keeps(1,2,4,5)
    from assms(2) list Inr rep getp clocks show ?thesis
      by (cases err; cases rp) (auto simp: watch_round_def Let_def)
  qed
qed

lemma watch_pod_clock:
  assumes "pod_clock clock gets T" and "watch_pod T ts (st, w) = (err, st', w')"
  shows "\<exists>k \<le> length ts. gets w' = gets w + k \<and> clock w' = clock w + sum_list (map wait_ms (take k ts)) \<and> (err = None \<longrightarrow> 0 < k)"
  using assms(2)
proof (induction ts arbitrary: st w)
  case Nil
  then show ?case by auto
next
  case (Cons t ts)
  obtain r st1 w1 where round: "watch_round T t (st, w) = (r, st1, w1)" by (cases "watch_round T t (st, w)") auto
  show ?case
  proof (cases r)
    case Again
    with watch_round_clock[OF assms(1) round] have one: "clock w1 = clock w + wait_ms t" "gets w1 = gets w + 1" by auto
    from Cons.prems round Again have "watch_pod T ts (st1, w1) = (err, st', w')" by simp
    from Cons.IH[OF this] obtain k where "k \<le> length ts" "gets w' = gets w1 + k"
      "clock w' = clock w1 + sum_list (map wait_ms (take k ts))" by blast
    with one show ?thesis by (intro exI[of _ "Suc k"]) simp
  next
    case (Return x)
    with Cons.prems round have "x = err" "w1 = w'" by simp_all
    with watch_round_clock[OF assms(1) round] Return show ?thesis
      by (cases "clock w' = clock w + wait_ms t \<and> gets w' = gets w + 1") (auto intro: exI[of _ 0] exI[of _ "Suc 0"])
  qed
qed

lemma sum_waits: "k \<le> n \<Longrightarrow> sum_list (map wait_ms (take k [0..<n])) = 100 * k + 10 * (k * (k - 1))"
proof (induction k)
  case (Suc k)
  then have "take (Suc k) [0..<n] = take k [0..<n] @ [k]" by (simp add: take_Suc_conv_app_nth)
  with Suc show ?case by (cases k) (simp_all add: wait_ms_def algebra_simps)
qed simp

text \<open>
  C39: Waiting for the pod of a test is bounded. Whatever the cluster answers, the pod is read at most
  100 times, and after \<open>k\<close> reads the test has slept 100 k + 10 k (k - 1) milliseconds: 100 before
  the first read, 20 more before each further one, and never more than 109 seconds in all. A pod
  is reported as started only after at least one read.
\<close>

theorem pod_wait_bounded:
  assumes "pod_clock clock gets T" and "RunSimpleBuildImageAsPod T name imageName w = (err, w')"
  shows "\<exists>k \<le> 100. gets w' = gets w + k \<and> clock w' = clock w + 100 * k + 10 * (k * (k - 1)) \<and>
    clock w' \<le> clock w + 109000 \<and> (err = None \<longrightarrow> 0 < k)"
proof -
  note keeps = pod_clockD[OF assms(1)]
  obtain rp w1 where made: "te_pod_create T (sleeping_pod name imageName) (te_log T (''starting pod '' @ name @ '' for image: '' @ imageName) w) = (rp, w1)"
    by fastforce
  then have w1: "clock w1 = clock w" "gets w1 = gets w" using keeps(7)[OF made] keeps(4,5) by simp_all
  show ?thesis
  proof (cases rp)
    case (Inl e)
    with made assms(2) w1 show ?thesis by (intro exI[of _ 0]) (auto simp: RunSimpleBuildImageAsPod_def)
  next
    case (Inr p)
    let ?st = "\<lparr>pw_pod = p, pw_ref_uid = None, pw_ref_kind = None, pw_reported = []\<rparr>"
    obtain r st' w2 where watch: "watch_pod T [0..<100] (?st, te_log T ''waiting for pod to start...'' w1) = (r, st', w2)"
      by (cases "watch_pod T [0..<100] (?st, te_log T ''waiting for pod to start...'' w1)") auto
    from watch_pod_clock[OF assms(1) watch] w1 keeps(4,5) obtain k where k: "k \<le> 100" "gets w2 = gets w + k"
      "clock w2 = clock w + sum_list (map wait_ms (take k [0..<100]))" "r = None \<longrightarrow> 0 < k" by auto
    obtain d w3 where del: "te_pod_delete T (p_name (pw_pod st')) w2 = (d, w3)" by fastforce
    have "err = r" "clock w' = clock w2" "gets w' = gets w2"
      using assms(2) made Inr watch del keeps(8)[OF del] keeps(4,5)
      by (auto simp: RunSimpleBuildImageAsPod_def clean_up_pod_def split: option.splits)
    moreover have "k * (k - 1) \<le> 100 * 99" using k(1) by (intro mult_le_mono) auto
    ultimately show ?thesis using k sum_waits[OF k(1)] by (intro exI[of _ k]) auto
  qed
qed

text \<open>The pods that exist: the API server gives a pod its name, hands out the pod that it is asked for,
  and deletes a pod that is named; the client does not send a request without a name.\<close>

definition pod_registry :: "('w \<Rightarrow> string set) \<Rightarrow> 'w test_env \<Rightarrow> bool" where
  "pod_registry existing T \<longleftrightarrow>
     (\<forall>q w p w'. te_pod_create T q w = (Ok p, w') \<longrightarrow> p_name p = tp_name q \<and> existing w' = insert (tp_name q) (existing w)) \<and>
     (\<forall>n w p w'. te_pod_get T n w = (Ok p, w') \<longrightarrow> p_name p = n) \<and>
     (\<forall>n w. existing (snd (te_pod_get T n w)) = existing w) \<and>
     (\<forall>n w. existing (te_sleep T n w) = existing w) \<and> (\<forall>x w. existing (te_log T x w) = existing w) \<and>
     (\<forall>x w. existing (snd (te_event_list T x w)) = existing w) \<and>
     (\<forall>n w. n \<noteq> [] \<longrightarrow> existing (snd (te_pod_delete T n w)) = existing w - {n}) \<and>
     (\<forall>w. existing (snd (te_pod_delete T [] w)) = existing w)"

lemma pod_registryD:
  assumes "pod_registry existing T"
  shows "te_pod_create T q w = (Ok p, w') \<Longrightarrow> p_name p = tp_name q \<and> existing w' = insert (tp_name q) (existing w)"
    "te_pod_get T n w = (Ok p, w') \<Longrightarrow> p_name p = n" "te_pod_get T n w = (rp, w') \<Longrightarrow> existing w' = existing w"
    "existing (te_sleep T ms w) = existing w" "existing (te_log T x w) = existing w"
    "te_event_list T x w = (re, w') \<Longrightarrow> existing w' = existing w"
    "te_pod_delete T n w = (rd, w') \<Longrightarrow> existing w' = (if n = [] then existing w else existing w - {n})"
  using assms unfolding pod_registry_def by (metis snd_conv)+

lemma report_events_registry:
  assumes "pod_registry existing T" and "report_events T p evs reported w = (r, reported', w')"
  shows "existing w' = existing w"
  using assms(2) by (induction evs arbitrary: reported w) (auto simp: Let_def pod_registryD(5)[OF assms(1)] split: if_splits)

lemma watch_round_registry:
  assumes "pod_registry existing T" and "watch_round T t (st, w) = (r, st', w')"
  shows "existing w' = existing w" and "p_name (pw_pod st') = p_name (pw_pod st) \<or> (pw_pod st' = no_pod \<and> (\<exists>e. r = Return (Some e)))"
proof -
  note keeps = pod_registryD[OF assms(1)]
  let ?p = "pw_pod st"
  let ?st = "st\<lparr>pw_ref_uid := (if p_uid ?p = [] then pw_ref_uid st else Some (p_uid ?p)),
                pw_ref_kind := (if p_kind ?p = [] then pw_ref_kind st else Some (p_kind ?p))\<rparr>"
  obtain re w1 where list: "te_event_list T (te_field_selector T (p_name ?p) (p_namespace ?p) (pw_ref_kind ?st) (pw_ref_uid ?st)) w = (re, w1)"
    by fastforce
  have "existing w' = existing w \<and> (p_name (pw_pod st') = p_name ?p \<or> (pw_pod st' = no_pod \<and> (\<exists>e. r = Return (Some e))))"
  proof (cases re)
    case (Inl e)
    with list assms(2) keeps(6)[OF list] show ?thesis by (auto simp: watch_round_def Let_def)
  next
    case (Inr evs)
    obtain err reported w2 where rep: "report_events T ?p evs (pw_reported st) w1 = (err, reported, w2)" by (cases "report_events T ?p evs (pw_reported st) w1") auto
    obtain rp w3 where getp: "te_pod_get T (p_name ?p) (te_sleep T (wait_ms t) w2) = (rp, w3)" by fastforce
    have same: "existing w2 = existing w" "existing w3 = existing w"
      using keeps(6)[OF list] report_events_registry[OF assms(1) rep] keeps(3)[OF getp] keeps(4) by simp_all
    show ?thesis
    proof (cases err)
      case (Some e)
      with assms(2) list Inr rep same show ?thesis by (auto simp: watch_round_def Let_def)
    next
      case None
      note round = assms(2) list Inr rep getp None
      show ?thesis
      proof (cases rp)
        case (Inl e)
        with round same show ?thesis by (auto simp: watch_round_def Let_def)
      next
        case (Inr q)
        with getp have "p_name q = p_name ?p" using keeps(2) by simp
        with round Inr same keeps(5) show ?thesis by (auto simp: watch_round_def Let_def)
      qed
    qed
  qed
  then show "existing w' = existing w" "p_name (pw_pod st') = p_name ?p \<or> (pw_pod st' = no_pod \<and> (\<exists>e. r = Return (Some e)))" by simp_all
qed

lemma watch_pod_registry:
  assumes "pod_registry existing T" and "watch_pod T ts (st, w) = (err, st', w')"
  shows "existing w' = existing w \<and> (p_name (pw_pod st') = p_name (pw_pod st) \<or> pw_pod st' = no_pod \<and> err \<noteq> None)"
  using assms(2)
proof (induction ts arbitrary: st w)
  case Nil
  then show ?case by auto
next
  case (Cons t ts)
  obtain r st1 w1 where round: "watch_round T t (st, w) = (r, st1, w1)" by (cases "watch_round T t (st, w)") auto
  note one = watch_round_registry[OF assms(1) round]
  show ?case
  proof (cases r)
    case Again
    with Cons.prems round have "watch_pod T ts (st1, w1) = (err, st', w')" by simp
    from Cons.IH[OF this] one Again show ?thesis by auto
  next
    case (Return x)
    with Cons.prems round have "x = err" "st1 = st'" "w1 = w'" by simp_all
    with one Return show ?thesis by auto
  qed
qed


lemma ls_tokens:
  fixes E :: "'w cli_env"
  shows "\<exists>fs iv. iv_args iv = [''dummy''] \<and> run_program (NewRootCmd E) [''ls'', ''--kubeconfig'', kc, ''dummy''] s =
    map_option (\<lambda>(e, s). (Ended e, s)) (run_ls_command E iv fs s)"
proof -
  let ?env = "cx_lookup_env (cli_cmd E)"
  let ?c = "cli_cache_dir E"
  let ?fs = "config_flags ?c @ [builder_flag ?env]"
  let ?ts = "[LongSep ''kubeconfig'' kc, Arg ''dummy'']"
  have merged: "merged_flags (ls_command E (config_flags ?c)) (root_flag_list ?env ?c) = Ok (?fs @ [help_flag])"
    and ok: "flags_ok (?fs @ [help_flag])"
    using merged_commands(4)[of E ?c ?env] merged_ok(3)[of ?c ?env] by simp_all
  have run: "cc_run (ls_command E (config_flags ?c)) = Some (run_ls_command E)" by (simp add: ls_command_def)
  have spelled: "\<forall>t \<in> set ?ts. spelled (?fs @ [help_flag]) t"
    by (simp add: flag_tables Lookup_def long_name_def value_flag_def is_bool_def)
  obtain found fs where "obey_all ([], ?fs @ [help_flag]) ?ts = Ok (found, fs)"
    by (simp add: obey_all_def obey_def Set_flag_def flag_tables Lookup_def)
  from execute_tokens(2)[OF merged ok run spelled _ this, of "''buildkit''" s] show ?thesis
    by (intro exI[of _ fs] exI conjI) (simp_all add: run_named)
qed

text \<open>
  \<open>ls\<close> takes no arguments. Given one, as in the test of the suites, it ends with the error that it
  requires exactly none, before it looks at the configuration: nothing is printed, and neither the
  machine nor the cluster is touched beyond the log line of the test.
\<close>

theorem ls_rejects_arguments:
  "\<exists>format args. RunBuildkit T ''ls'' [''dummy''] (m, w) =
     Some (Some (Errorf format args), [], m, te_log T (''CMD: '' @ join_with '' '' [''ls'', ''--kubeconfig'', te_kubeconfig T, ''dummy'']) w) \<and>
     contains_str format ''requires exactly''"
proof -
  let ?w = "te_log T (''CMD: '' @ join_with '' '' [''ls'', ''--kubeconfig'', te_kubeconfig T, ''dummy'']) w"
  obtain fs iv where iv: "iv_args iv = [''dummy'']" and run: "run_program (NewRootCmd (te_cli T)) [''ls'', ''--kubeconfig'', te_kubeconfig T, ''dummy''] ([], m, ?w) =
      map_option (\<lambda>(e, s). (Ended e, s)) (run_ls_command (te_cli T) iv fs ([], m, ?w))"
    using ls_tokens[of "te_cli T" "te_kubeconfig T" "([], m, ?w)"] by blast
  obtain format args where err: "args_error (command_line_of (te_cli T) (config_values fs) iv fs) 0 = Some (Errorf format args)"
    and format: "format = ''%q '' @ ''requires exactly'' @ '' %d %s.'' @ [LF] @ ''See '' @ [CHR 39] @ ''%s --help'' @ [CHR 39] @ ''.'' @ [LF, LF] @ ''Usage:  %s'' @ [LF, LF] @ ''%s''"
    using iv by (simp add: args_error_def ExactArgs_def command_line_of_def)
  have "contains_str format ''requires exactly''" unfolding format contains_str_iff by blast
  with run err show ?thesis by (simp add: RunBuildkit_def run_in_test_def run_ls_command_def lsCmd_def outcome_error_def)
qed

section \<open>An example\<close>

text \<open>A cluster as a list of entries: the pods, the milliseconds slept and the reads of pods. A pod is
  pending for ever, or cannot be read.\<close>

definition pod_entry :: "string \<Rightarrow> string" where
  "pod_entry n = ''pod/'' @ n"

definition slow_cluster :: "bool \<Rightarrow> string list test_env" where
  "slow_cluster broken =
     \<lparr>te_cli = example_cli, te_kubeconfig = ''/kubeconfig'', te_text = (\<lambda>_. ''error''), te_render = (\<lambda>_. []),
      te_fs = example_fs, te_log = (\<lambda>_ w. w), te_sleep = (\<lambda>n w. w @ replicate n ''ms''), te_namespace = Ok ''default'',
      te_client_config = Ok (), te_new_for_config = None, te_selector = (\<lambda>k v. Ok (k @ ''='' @ v)),
      te_field_selector = (\<lambda>n ns kind uid. n), te_pod_create = (\<lambda>q w. (Ok (no_pod\<lparr>p_name := tp_name q\<rparr>), w @ [pod_entry (tp_name q)])),
      te_pod_get = (\<lambda>n w. (if broken then Err (External ''unavailable'') else Ok (no_pod\<lparr>p_name := n, p_phase := ''Pending''\<rparr>), w @ [''get''])),
      te_pod_delete = (\<lambda>n w. if n = [] then (Some (External ''resource name may not be empty''), w) else (None, filter (\<lambda>e. e \<noteq> pod_entry n) w)),
      te_pod_list = (\<lambda>_ w. (Ok [], w)), te_pod_logs = (\<lambda>_ w. (([], None), w)), te_event_list = (\<lambda>_ w. (Ok [], w)),
      te_runtimes = (\<lambda>w. (Ok [''containerd://1.6''], w)), te_cm_get = (\<lambda>_ w. (Some (NotFound ''not found''), w))\<rparr>"

definition entries :: "string \<Rightarrow> string list \<Rightarrow> nat" where
  "entries e w = length (filter (\<lambda>x. x = e) w)"

lemma pod_entry_other [simp]: "pod_entry n \<noteq> ''ms''" "pod_entry n \<noteq> ''get''" "pod_entry n = pod_entry n' \<longleftrightarrow> n = n'"
  by (simp_all add: pod_entry_def)

lemma entries_filter: "e \<noteq> pod_entry n \<Longrightarrow> entries e (filter (\<lambda>x. x \<noteq> pod_entry n) w) = entries e w"
  by (induction w) (auto simp: entries_def)

lemma slow_cluster_clock: "pod_clock (entries ''ms'') (entries ''get'') (slow_cluster broken)"
  using pod_entry_other(1,2)[symmetric] by (auto simp: pod_clock_def slow_cluster_def entries_filter) (auto simp: entries_def)

lemma slow_cluster_registry: "pod_registry (\<lambda>w. {n. pod_entry n \<in> set w}) (slow_cluster broken)"
  by (auto simp: pod_registry_def slow_cluster_def)

theorem pod_wait_bounded_witness:
  "\<exists>err w'. RunSimpleBuildImageAsPod (slow_cluster False) ''p'' ''img'' [] = (err, w') \<and> entries ''ms'' w' \<le> 109000 \<and> entries ''get'' w' \<le> 100"
proof -
  obtain err w' where run: "RunSimpleBuildImageAsPod (slow_cluster False) ''p'' ''img'' [] = (err, w')" by fastforce
  from pod_wait_bounded[OF slow_cluster_clock run] run show ?thesis by (auto simp: entries_def)
qed


end
