(* ===== verification/Spec2Isabelle.thy ===== *)
theory Spec2Isabelle
  imports KubeDriver MultiWriter WriterSteps ExecStream BuildSpec CommandSpec CommandLineSpec Integration
begin

text \<open>
  A verification development for kubectl-buildkit, the command line client that builds
  container images with BuildKit on a Kubernetes cluster.

  The parts of the program and their theories, in the order in which they depend on each
  other:

  \<^item> \<^verbatim>\<open>Prelude\<close>: errors as values (\<open>go_error\<close>, results as sums, a panic as one of the errors),
    the fallible map and fold, and the lemmas on lists and maps that the components share.
    \<^verbatim>\<open>GoStrings\<close>: the functions of the packages \<open>strings\<close>, \<open>strconv\<close> and \<open>net\<close> that the
    code calls. \<^verbatim>\<open>GoEncoding\<close>: one record of \<open>encoding/csv\<close>, and \<open>encoding/base64\<close>.
    \<^verbatim>\<open>Loops\<close>: a loop that need not end, with the rules for its return.
  \<^item> \<^verbatim>\<open>FlagParsers\<close> (\<open>pkg/build\<close>: ssh, secrets, entitlements, cache, output, utils): the
    parsers of the flags of the build command. \<open>ParseOutputs\<close> passes the file system along,
    because it creates the output files while it reads the flags.
  \<^item> \<^verbatim>\<open>Manifest\<close> (\<open>manifest/manifest.go\<close>, \<open>version\<close>): the Kubernetes objects of a builder.
  \<^item> \<^verbatim>\<open>HashRing\<close> (the vendored \<open>serialx/hashring\<close>) and \<^verbatim>\<open>PodChooser\<close>
    (\<open>podchooser/podchooser.go\<close>): which pod of a builder runs a build.
  \<^item> \<^verbatim>\<open>Platforms\<close> (the vendored \<open>containerd/platforms\<close> and \<open>pkg/platformutil\<close>): reading,
    printing and normalising platform specifiers.
  \<^item> \<^verbatim>\<open>Progress\<close> (\<open>pkg/progress\<close>): the reports of a build, as calls of a logger on the
    outside world, and the transformations of their streams. \<^verbatim>\<open>MultiWriter\<close>
    (multiwriter.go): many writers on one display, its goroutines and channels as a step
    relation; \<^verbatim>\<open>WriterSteps\<close> (reset.go, printer.go): the goroutines that move the times of the
    reports and that run the display.
  \<^item> \<^verbatim>\<open>DriverCore\<close> (\<open>pkg/driver\<close>): the interface of a driver, the boot loop, the registry.
  \<^item> \<^verbatim>\<open>KubeFactory\<close>, \<^verbatim>\<open>KubeCreation\<close>, \<^verbatim>\<open>KubeDriver\<close> (\<open>pkg/driver/kubernetes\<close>: factory.go,
    creation.go, driver.go): making a driver from its options, bringing the builder up, and
    the operations of the driver. \<^verbatim>\<open>Auth\<close> (authprovider.go) answers for registry logins,
    \<^verbatim>\<open>ExecConn\<close> (execconn.go) is the connection through a pod, and \<^verbatim>\<open>ExecStream\<close> what flows
    through it: the two pipes between the connection and the stream to the command.
  \<^item> \<^verbatim>\<open>BuildInputs\<close>, \<^verbatim>\<open>SolveOpt\<close>, \<^verbatim>\<open>BuildDrivers\<close>, \<^verbatim>\<open>Loaders\<close>, \<^verbatim>\<open>Build\<close> (\<open>pkg/build/build.go\<close>):
    what is read from the context and the standard input; the options of a solve
    (\<open>toSolveOpt\<close>); which driver builds which platforms (\<open>resolveDrivers\<close>); loading the image
    into the runtimes of the cluster (\<open>waitingWriter\<close> and the two loaders); and the function
    \<open>Build\<close> itself, whose goroutines are jobs that run in an order given by the environment.
    \<^verbatim>\<open>BuildSpec\<close> holds the properties of the build, among them that for one target and one
    driver it refines a straight line of calls. \<^verbatim>\<open>ImageTools\<close> (\<open>pkg/imagetools\<close>) reads, merges
    and pushes manifest lists.
  \<^item> \<^verbatim>\<open>Commands\<close> (\<open>pkg/cmd\<close>): build, create, ls, rm and version, from their arguments and the
    values of their flags on. \<^verbatim>\<open>CommandSpec\<close> holds what they do from end to end: which driver the
    flags and the environment make, what a build exports and into which runtime it loads, what
    rm deletes.
  \<^item> \<^verbatim>\<open>Flags\<close> (the vendored \<open>spf13/pflag\<close>): flags, their values and the parser of a command line.
    \<^verbatim>\<open>Cobra\<close> (the vendored \<open>spf13/cobra\<close>): finding the command that a line names, and running it.
    \<^verbatim>\<open>CommandLine\<close> (\<open>pkg/cmd\<close>, \<open>cmd\<close>): the flags that the commands declare, how their options read
    them, the tree of commands and the two programs with their exit codes. \<^verbatim>\<open>CommandLineSpec\<close>
    joins them to the commands: what a line of words makes the program do. A line is related to
    what it means by \<open>spell\<close>, which writes a list of tokens in any of the ways that the parser
    accepts, and \<open>obey_all\<close>, which sets the flags that they name one after the other.
  \<^item> \<^verbatim>\<open>Integration\<close> (\<open>integration/common\<close>): the support code of the integration tests, with the
    cluster and the test framework as parameters: the runners, the pod that runs an image, the
    build contexts and the steps of the shared suite.

  The outside world is a type variable \<open>'w\<close>. The API server, the client library, the clock and
  the random source are records of functions on it (\<open>kube\<close>, \<open>sys\<close>), arguments of the
  definitions; what a theorem needs of them is among its hypotheses: \<open>timed_kube\<close> says that
  the calls take no negative time and those that start a round take some, \<open>reads_ok\<close> that the
  reads succeed, \<open>config_map_store\<close> that config maps are stored by name. A Go map that the code
  ranges over is an association list in the order in which this run visits it.

  A loop that waits for the cluster is \<open>Loops.loop\<close>, a partial function whose value \<open>None\<close> is
  a run without end: the theorems on \<open>Boot\<close>, \<open>createConfigMap\<close> and \<open>createBuilder\<close> show that
  they return, with the time to the deadline as the measure. No definition has fuel.

  The interfaces are locales: \<open>node_ring\<close> (what the sticky chooser needs of the ring),
  \<open>pod_chooser\<close> (what the driver needs of a chooser), \<open>feature_provider\<close> (what the build
  needs of the driver's features) and \<open>image_loader\<close> (what the solve options need of the
  loader that the build hands them), each interpreted on the definitions that provide it.

  Of the concurrency, closes of a connection that race, the two sides of its pipes, and the
  goroutines of the multi writer, of a writer whose times are moved and of the printer are steps
  that interleave; the solves of a build run one at a time, in any order in which a target
  finishes after its solves, and pass their reports through \<open>ResetTime\<close>, which is what every run
  of its goroutine does (\<open>reset_run_delivers\<close>). Steps are inductive relations, or functions where the
  event decides the next state (\<open>conn_act\<close>), and runs are lists of events.

  Not modelled: the contents of the third-party clients (client-go, the BuildKit client, the
  registry resolver, the runtime clients, the remote command executor); the texts of usage and
  help, completion and the types of flags that no command declares; the alignment of the table
  that ls prints; what the terminal display draws; the detection of the processor from
  \<open>/proc/cpuinfo\<close>, whose answer is a member of the host; the operations of the hash ring that have
  no caller (weights, adding and removing nodes); and the test files themselves, which drive a
  real cluster.
\<close>

end
